theory Spec2Isabelle
  imports Complex_Main
begin

section \<open>Python values used by \<^verbatim>\<open>organize_photos.py\<close>\<close>

text \<open>
  The program is one Python module. Its decisions are pure string and number
  manipulation around calls into the operating system and two libraries (PIL for EXIF,
  hachoir for video containers). The embedding keeps the program's functions and their
  names; every library or system call is a field of the record \<open>world\<close> below, an
  arbitrary function, so a theorem that quantifies over the world holds for every
  behaviour of the file system and the libraries. Exceptions are values:
  a function that can raise returns \<open>exn + 'a\<close> with \<open>Inl\<close> the exception, and
  every \<^verbatim>\<open>try/except\<close> of the source is a branch on \<open>Inl\<close> here (\<open>try_except\<close>
  where the handler goes on with a value).

  A string is a list of characters of the type \<open>char\<close>: the 128 ASCII characters,
  and 128 further ones that stand for characters outside ASCII which have no case
  mapping and are neither white space nor decimal digits (an ideograph, a symbol, the
  surrogate that stands for an undecodable byte of a file name). On these strings
  \<^verbatim>\<open>str.lower\<close> and \<^verbatim>\<open>str.upper\<close> change the ASCII letters only, and \<^verbatim>\<open>int\<close> strips
  ASCII white space and reads ASCII digits only. Strings with other characters, such as
  accented letters or digits of other scripts, are outside the model. Timestamps are
  Python floats or ints; they are modelled as real numbers.

  \<^verbatim>\<open>print\<close> writes to a standard output that encodes every ASCII character and the
  other characters the world says it encodes; for a message with a character it does
  not encode, \<^verbatim>\<open>print\<close> raises \<^verbatim>\<open>UnicodeEncodeError\<close>, as it does for a file name with
  an undecodable byte on a UTF-8 terminal. Every \<^verbatim>\<open>print\<close> of the source is a call of
  \<open>py_print\<close> at the same place, inside or outside the \<^verbatim>\<open>try\<close> blocks and their handlers.

  An exception carries the text \<^verbatim>\<open>str(e)\<close> gives, which the handlers print.
\<close>

datatype exn =
    FileNotFoundError string
  | OSError string
  | KeyError string
  | TypeError string
  | ValueError string
  | OverflowError string
  | UnicodeEncodeError string
  | LibraryError string

text \<open>\<^verbatim>\<open>str(e)\<close>; for a \<^verbatim>\<open>KeyError\<close> it is the key between quotes.\<close>

fun str_exn :: "exn \<Rightarrow> string" where
  "str_exn (FileNotFoundError m) = m"
| "str_exn (OSError m) = m"
| "str_exn (KeyError key) = [CHR 0x27] @ key @ [CHR 0x27]"
| "str_exn (TypeError m) = m"
| "str_exn (ValueError m) = m"
| "str_exn (OverflowError m) = m"
| "str_exn (UnicodeEncodeError m) = m"
| "str_exn (LibraryError m) = m"

definition try_except :: "exn + 'a \<Rightarrow> (exn \<Rightarrow> exn + 'a) \<Rightarrow> exn + 'a" where
  "try_except body handler = (case body of Inl e \<Rightarrow> handler e | Inr v \<Rightarrow> Inr v)"

subsection \<open>Strings\<close>

definition is_ascii :: "char \<Rightarrow> bool" where
  "is_ascii c = (\<not> digit7 c)"

definition ascii_uppercase :: string where
  "ascii_uppercase = ''ABCDEFGHIJKLMNOPQRSTUVWXYZ''"

definition ascii_lowercase :: string where
  "ascii_lowercase = ''abcdefghijklmnopqrstuvwxyz''"

definition lower_char :: "char \<Rightarrow> char" where
  "lower_char c = (case map_of (zip ascii_uppercase ascii_lowercase) c of Some d \<Rightarrow> d | None \<Rightarrow> c)"

definition upper_char :: "char \<Rightarrow> char" where
  "upper_char c = (case map_of (zip ascii_lowercase ascii_uppercase) c of Some d \<Rightarrow> d | None \<Rightarrow> c)"

definition lower :: "string \<Rightarrow> string" where
  "lower s = map lower_char s"

definition upper :: "string \<Rightarrow> string" where
  "upper s = map upper_char s"

definition startswith :: "string \<Rightarrow> string \<Rightarrow> bool" where
  "startswith s p = (take (length p) s = p)"

definition endswith :: "string \<Rightarrow> string \<Rightarrow> bool" where
  "endswith s p = (length p \<le> length s \<and> drop (length s - length p) s = p)"

text \<open>\<^verbatim>\<open>s.rfind(c)\<close> for a one-character \<open>c\<close>: the last index of \<open>c\<close>, or \<open>-1\<close>.\<close>

fun rfind_from :: "char \<Rightarrow> string \<Rightarrow> int \<Rightarrow> int \<Rightarrow> int" where
  "rfind_from c [] i found = found"
| "rfind_from c (x # xs) i found = rfind_from c xs (i + 1) (if x = c then i else found)"

definition rfind :: "string \<Rightarrow> char \<Rightarrow> int" where
  "rfind s c = rfind_from c s 0 (- 1)"

text \<open>\<^verbatim>\<open>s.split(c)\<close> and \<^verbatim>\<open>sep.join(parts)\<close>.\<close>

fun split_on :: "char \<Rightarrow> string \<Rightarrow> string list" where
  "split_on c [] = [[]]"
| "split_on c (x # xs) =
     (if x = c then [] # split_on c xs
      else (case split_on c xs of [] \<Rightarrow> [[x]] | w # ws \<Rightarrow> (x # w) # ws))"

fun sep_join :: "string \<Rightarrow> string list \<Rightarrow> string" where
  "sep_join sep [] = []"
| "sep_join sep [x] = x"
| "sep_join sep (x # y # ys) = x @ sep @ sep_join sep (y # ys)"

text \<open>\<^verbatim>\<open>str(n)\<close> for a non-negative integer and for an integer, and \<^verbatim>\<open>s.zfill(width)\<close>.\<close>

definition digit_char :: "nat \<Rightarrow> char" where
  "digit_char d = ''0123456789'' ! (d mod 10)"

fun str_nat :: "nat \<Rightarrow> string" where
  "str_nat n = (if n < 10 then [digit_char n] else str_nat (n div 10) @ [digit_char (n mod 10)])"

declare str_nat.simps [simp del]

definition str_int :: "int \<Rightarrow> string" where
  "str_int i = (if i < 0 then ''-'' @ str_nat (nat (- i)) else str_nat (nat i))"

definition zfill :: "string \<Rightarrow> nat \<Rightarrow> string" where
  "zfill s width =
     (if length s \<ge> width then s
      else (case s of
              c # cs \<Rightarrow>
                if c = CHR ''+'' \<or> c = CHR ''-''
                then c # replicate (width - length s) CHR ''0'' @ cs
                else replicate (width - length s) CHR ''0'' @ s
            | [] \<Rightarrow> replicate width CHR ''0''))"

subsection \<open>\<^verbatim>\<open>os.path\<close> (POSIX flavour)\<close>

text \<open>
  \<^verbatim>\<open>posixpath.splitext\<close>: the extension starts at the last dot of the last component,
  unless that component consists of leading dots only up to there. The \<^verbatim>\<open>while\<close> loop of
  the library function is \<open>skip_leading_dots\<close>.
\<close>

function skip_leading_dots :: "string \<Rightarrow> int \<Rightarrow> int \<Rightarrow> bool" where
  "skip_leading_dots p filenameIndex dotIndex =
     (if filenameIndex < dotIndex
      then (if 0 \<le> filenameIndex \<and> p ! nat filenameIndex \<noteq> CHR ''.'' then True
            else skip_leading_dots p (filenameIndex + 1) dotIndex)
      else False)"
  by pat_completeness auto
termination
  by (relation "measure (\<lambda>(p, i, d). nat (d - i))") auto

declare skip_leading_dots.simps [simp del]

definition splitext :: "string \<Rightarrow> string \<times> string" where
  "splitext p =
     (let sepIndex = rfind p CHR ''/'';
          dotIndex = rfind p CHR ''.''
      in if dotIndex > sepIndex \<and> skip_leading_dots p (sepIndex + 1) dotIndex
         then (take (nat dotIndex) p, drop (nat dotIndex) p)
         else (p, []))"

definition basename :: "string \<Rightarrow> string" where
  "basename p = drop (nat (rfind p CHR ''/'' + 1)) p"

fun rstrip_sep :: "string \<Rightarrow> string" where
  "rstrip_sep s = rev (dropWhile (\<lambda>c. c = CHR ''/'') (rev s))"

definition dirname :: "string \<Rightarrow> string" where
  "dirname p =
     (let head = take (nat (rfind p CHR ''/'' + 1)) p
      in if head \<noteq> [] \<and> head \<noteq> replicate (length head) CHR ''/'' then rstrip_sep head else head)"

definition join2 :: "string \<Rightarrow> string \<Rightarrow> string" where
  "join2 path b =
     (if startswith b ''/'' then b
      else if path = [] \<or> endswith path ''/'' then path @ b
      else path @ ''/'' @ b)"

definition join :: "string \<Rightarrow> string list \<Rightarrow> string" where
  "join a ps = foldl join2 a ps"

text \<open>\<^verbatim>\<open>posixpath.normpath\<close>; \<open>norm_comps\<close> is its loop over the components.\<close>

fun norm_comps :: "nat \<Rightarrow> string list \<Rightarrow> string list \<Rightarrow> string list" where
  "norm_comps initial_slashes [] new_comps = new_comps"
| "norm_comps initial_slashes (part # comps) new_comps =
     (if part = [] \<or> part = ''.'' then norm_comps initial_slashes comps new_comps
      else if part \<noteq> ''..'' \<or> (initial_slashes = 0 \<and> new_comps = [])
              \<or> (new_comps \<noteq> [] \<and> last new_comps = ''..'')
      then norm_comps initial_slashes comps (new_comps @ [part])
      else if new_comps \<noteq> [] then norm_comps initial_slashes comps (butlast new_comps)
      else norm_comps initial_slashes comps new_comps)"

definition normpath :: "string \<Rightarrow> string" where
  "normpath path =
     (if path = [] then ''.''
      else
        let initial_slashes =
              (if startswith path ''/''
               then (if startswith path ''//'' \<and> \<not> startswith path ''///'' then 2 else 1)
               else (0::nat));
            comps = norm_comps initial_slashes (split_on CHR ''/'' path) [];
            joined = replicate initial_slashes CHR ''/'' @ sep_join ''/'' comps
        in if joined = [] then ''.'' else joined)"

text \<open>\<^verbatim>\<open>os.path.abspath\<close>, with the current directory as a parameter.\<close>

definition abspath :: "string \<Rightarrow> string \<Rightarrow> string" where
  "abspath cwd path = normpath (if startswith path ''/'' then path else join2 cwd path)"

subsection \<open>Parsed JSON and \<^verbatim>\<open>int(...)\<close>\<close>

text \<open>
  What \<^verbatim>\<open>json.load\<close> returns. An object is a list of key/value pairs looked up with
  \<open>map_of\<close> (a parsed object has each key once).
\<close>

datatype json =
    JNull
  | JBool bool
  | JInt int
  | JFloat real
  | JStr string
  | JArr "json list"
  | JObj "(string \<times> json) list"

text \<open>\<^verbatim>\<open>value[key]\<close> for a string key: only a dict accepts it.\<close>

fun getitem :: "json \<Rightarrow> string \<Rightarrow> exn + json" where
  "getitem (JObj kvs) key = (case map_of kvs key of Some v \<Rightarrow> Inr v | None \<Rightarrow> Inl (KeyError key))"
| "getitem _ key = Inl (TypeError ''object is not subscriptable'')"

text \<open>
  \<^verbatim>\<open>int(s)\<close> for a string: surrounding white space is stripped, one sign is allowed, the
  digits may be separated by single underscores, and a string of more than 4300 digits
  is refused (the default of \<^verbatim>\<open>sys.set_int_max_str_digits\<close>).
\<close>

definition is_space :: "char \<Rightarrow> bool" where
  "is_space c = (c \<in> set [CHR '' '', CHR 0x09, CHR 0x0A, CHR 0x0B, CHR 0x0C, CHR 0x0D])"

definition strip :: "string \<Rightarrow> string" where
  "strip s = rev (dropWhile is_space (rev (dropWhile is_space s)))"

definition digit_value :: "char \<Rightarrow> int option" where
  "digit_value c = map_of (zip ''0123456789'' [0, 1, 2, 3, 4, 5, 6, 7, 8, 9]) c"

fun parse_digits :: "int \<Rightarrow> string \<Rightarrow> int option" where
  "parse_digits acc [] = Some acc"
| "parse_digits acc (c # cs) =
     (if c = CHR ''_''
      then (case cs of
              [] \<Rightarrow> None
            | d # ds \<Rightarrow> (case digit_value d of None \<Rightarrow> None
                         | Some v \<Rightarrow> parse_digits (acc * 10 + v) ds))
      else (case digit_value c of None \<Rightarrow> None | Some v \<Rightarrow> parse_digits (acc * 10 + v) cs))"

definition parse_unsigned :: "string \<Rightarrow> int option" where
  "parse_unsigned s =
     (case s of [] \<Rightarrow> None
      | c # cs \<Rightarrow> (case digit_value c of None \<Rightarrow> None | Some v \<Rightarrow> parse_digits v cs))"

definition int_of_string :: "string \<Rightarrow> exn + int" where
  "int_of_string s =
     (case strip s of
        [] \<Rightarrow> Inl (ValueError ''invalid literal for int() with base 10'')
      | c # cs \<Rightarrow>
          if length (filter (\<lambda>d. digit_value d \<noteq> None) (c # cs)) > 4300
          then Inl (ValueError ''Exceeds the limit (4300 digits) for integer string conversion'')
          else
            (case (if c = CHR ''-'' then map_option uminus (parse_unsigned cs)
                   else if c = CHR ''+'' then parse_unsigned cs
                   else parse_unsigned (c # cs)) of
               None \<Rightarrow> Inl (ValueError ''invalid literal for int() with base 10'')
             | Some n \<Rightarrow> Inr n))"

text \<open>\<^verbatim>\<open>int(v)\<close> for a parsed JSON value; a float is truncated towards zero.\<close>

fun py_int :: "json \<Rightarrow> exn + int" where
  "py_int (JInt n) = Inr n"
| "py_int (JBool b) = Inr (if b then 1 else 0)"
| "py_int (JFloat r) = Inr (if r \<ge> 0 then \<lfloor>r\<rfloor> else \<lceil>r\<rceil>)"
| "py_int (JStr s) = int_of_string s"
| "py_int _ = Inl (TypeError ''int() argument must be a string or a real number'')"

section \<open>The world: file system and libraries\<close>

text \<open>
  An EXIF dictionary as \<^verbatim>\<open>img._getexif()\<close> returns it: tag ids with their raw values,
  in the dictionary's iteration order. A video's metadata as hachoir returns it: the
  attributes the object has (\<^verbatim>\<open>hasattr\<close>), each falsy or a date whose
  \<^verbatim>\<open>time.mktime(date.timetuple())\<close> is a number or raises, and the streams attribute
  when the object has one.
\<close>

type_synonym exif = "(nat \<times> string) list"

datatype attr_value = Falsy | DateValue "exn + real"

record video_stream =
  stream_attrs :: "(string \<times> attr_value) list"

record video_metadata =
  attrs :: "(string \<times> attr_value) list"
  streams :: "video_stream list option"

datatype probe = NoParser | NoMetadata | Metadata video_metadata

text \<open>
  Each field is one call of the source:
  \<^item> \<open>path_exists\<close>: \<^verbatim>\<open>os.path.exists\<close>; \<open>glob_glob\<close>: \<^verbatim>\<open>glob.glob\<close>;
  \<^item> \<open>image_getexif\<close>: \<^verbatim>\<open>Image.open(p)\<close> followed by \<^verbatim>\<open>img._getexif()\<close>
    (\<open>None\<close> when the image has no EXIF);
  \<^item> \<open>strptime_mktime\<close>: \<^verbatim>\<open>time.mktime(datetime.strptime(v, '%Y:%m:%d %H:%M:%S').timetuple())\<close>;
  \<^item> \<open>hachoir_probe\<close>: \<^verbatim>\<open>createParser(p)\<close> followed by \<^verbatim>\<open>extractMetadata(parser)\<close>;
  \<^item> \<open>getctime\<close>, \<open>getmtime\<close>: \<^verbatim>\<open>os.path.getctime\<close>, \<^verbatim>\<open>os.path.getmtime\<close>;
  \<^item> \<open>json_load\<close>: \<^verbatim>\<open>open(p)\<close> followed by \<^verbatim>\<open>json.load\<close>;
  \<^item> \<open>utcoffset\<close>: the local time zone, seconds east of UTC at an instant;
  \<^item> \<open>stdout_encodes\<close>: the characters outside ASCII that the encoding of
    \<^verbatim>\<open>sys.stdout\<close> can write;
  \<^item> \<open>media_order\<close>: the order in which iterating the set
    \<^verbatim>\<open>ALL_MEDIA_EXTENSIONS\<close> yields its elements.
\<close>

record world =
  path_exists :: "string \<Rightarrow> bool"
  glob_glob :: "string \<Rightarrow> string list"
  image_getexif :: "string \<Rightarrow> exn + exif option"
  strptime_mktime :: "string \<Rightarrow> exn + real"
  hachoir_probe :: "string \<Rightarrow> exn + probe"
  getctime :: "string \<Rightarrow> exn + real"
  getmtime :: "string \<Rightarrow> exn + real"
  json_load :: "string \<Rightarrow> exn + json"
  utcoffset :: "int \<Rightarrow> int"
  stdout_encodes :: "char \<Rightarrow> bool"
  media_order :: "string list"

section \<open>Constants of the module\<close>

text \<open>
  The source's \<^verbatim>\<open>PHOTO_EXTENSIONS\<close> literal has an empty slot between two commas
  after \<^verbatim>\<open>'.rw2'\<close>; it is read here as the set of the elements that are written.
\<close>

definition PHOTO_EXTENSIONS :: "string list" where
  "PHOTO_EXTENSIONS =
     [''.jpg'', ''.jpeg'', ''.png'', ''.gif'', ''.bmp'', ''.tiff'', ''.webp'',
      ''.raw'', ''.cr2'', ''.nef'', ''.arw'', ''.dng'', ''.orf'', ''.rw2'', ''.dng'', ''.pef'']"

definition VIDEO_EXTENSIONS :: "string list" where
  "VIDEO_EXTENSIONS =
     [''.mp4'', ''.mov'', ''.avi'', ''.wmv'', ''.flv'', ''.webm'', ''.mkv'',
      ''.m4v'', ''.3gp'', ''.mpg'', ''.mpeg'']"

definition ALL_MEDIA_EXTENSIONS :: "string list" where
  "ALL_MEDIA_EXTENSIONS = PHOTO_EXTENSIONS @ VIDEO_EXTENSIONS"

definition MIN_VALID_TIMESTAMP :: real where
  "MIN_VALID_TIMESTAMP = 946684800"

text \<open>
  \<^verbatim>\<open>PIL.ExifTags.TAGS.get\<close>: the names of the tag ids. Only the three date tags matter
  to the program; the other entries shown are examples of the table's other names.
\<close>

definition TAGS_get :: "nat \<Rightarrow> string option" where
  "TAGS_get tag_id =
     map_of [(306, ''DateTime''), (36867, ''DateTimeOriginal''), (36868, ''DateTimeDigitized''),
             (271, ''Make''), (272, ''Model''), (274, ''Orientation'')] tag_id"

section \<open>\<^verbatim>\<open>print\<close> and \<^verbatim>\<open>datetime\<close>\<close>

text \<open>
  \<^verbatim>\<open>print(message)\<close>: \<open>printable\<close> says that standard output encodes every character
  of the message.
\<close>

definition printable :: "world \<Rightarrow> string \<Rightarrow> bool" where
  "printable w message = list_all (\<lambda>c. is_ascii c \<or> stdout_encodes w c) message"

definition py_print :: "world \<Rightarrow> string \<Rightarrow> exn + unit" where
  "py_print w message =
     (if printable w message then Inr ()
      else Inl (UnicodeEncodeError ''codec cannot encode character''))"

fun print_all :: "world \<Rightarrow> string list \<Rightarrow> exn + unit" where
  "print_all w [] = Inr ()"
| "print_all w (message # messages) =
     (case py_print w message of Inl e \<Rightarrow> Inl e | Inr u \<Rightarrow> print_all w messages)"

text \<open>
  \<^verbatim>\<open>datetime.fromtimestamp\<close>: the timestamp is rounded to microseconds (half to even),
  shifted to local time, and read on the proleptic Gregorian calendar. The calendar
  counts days from 2000-01-01 (day 10957 of the epoch) in cycles of 400 years (146097
  days), then walks the years of the cycle and the months of the year.
\<close>

definition round_half_even :: "real \<Rightarrow> int" where
  "round_half_even x =
     (let f = \<lfloor>x\<rfloor>; r = x - of_int f
      in if r < 1 / 2 then f else if r > 1 / 2 then f + 1 else if even f then f else f + 1)"

definition is_leap :: "int \<Rightarrow> bool" where
  "is_leap y = (y mod 4 = 0 \<and> (y mod 100 \<noteq> 0 \<or> y mod 400 = 0))"

definition days_in_year :: "int \<Rightarrow> int" where
  "days_in_year y = (if is_leap y then 366 else 365)"

function year_walk :: "int \<Rightarrow> int \<Rightarrow> int \<times> int" where
  "year_walk y d = (if d \<ge> days_in_year y then year_walk (y + 1) (d - days_in_year y) else (y, d))"
  by pat_completeness auto
termination
  by (relation "measure (\<lambda>(y, d). nat d)") (auto simp: days_in_year_def split: if_splits)

declare year_walk.simps [simp del]

definition month_lengths :: "int \<Rightarrow> int list" where
  "month_lengths y = [31, if is_leap y then 29 else 28, 31, 30, 31, 30, 31, 31, 30, 31, 30, 31]"

fun month_walk :: "int list \<Rightarrow> nat \<Rightarrow> int \<Rightarrow> nat \<times> int" where
  "month_walk [] m d = (m, d)"
| "month_walk (l # ls) m d = (if d < l then (m, d) else month_walk ls (m + 1) (d - l))"

definition civil_from_days :: "int \<Rightarrow> int \<times> nat \<times> nat" where
  "civil_from_days days =
     (let z = days - 10957;
          era = z div 146097;
          doe = z mod 146097;
          (y, doy) = year_walk 2000 doe;
          (m, dom) = month_walk (month_lengths y) 1 doy
      in (y + 400 * era, m, nat dom + 1))"

record date =
  tm_year :: nat
  tm_mon :: nat
  tm_mday :: nat
  tm_hour :: nat
  tm_min :: nat
  tm_sec :: nat
  microsecond :: nat

text \<open>
  The platform's \<^verbatim>\<open>localtime\<close>: seconds since the epoch to seconds of local time. A UTC
  offset lies strictly between minus and plus 24 hours (the bound Python itself puts on
  an offset); \<open>local_offset\<close> reads the world's function into that range.
\<close>

definition local_offset :: "world \<Rightarrow> int \<Rightarrow> int" where
  "local_offset w seconds = max (- 86399) (min 86399 (utcoffset w seconds))"

definition local_seconds :: "world \<Rightarrow> int \<Rightarrow> int" where
  "local_seconds w seconds = seconds + local_offset w seconds"

definition year_of :: "int \<Rightarrow> int" where
  "year_of seconds = fst (civil_from_days (seconds div 86400))"

definition year_out_of_range :: "int \<Rightarrow> exn" where
  "year_out_of_range y = ValueError (''year '' @ str_int y @ '' is out of range'')"

text \<open>
  \<^verbatim>\<open>datetime.fromtimestamp(timestamp)\<close> without a time zone. A year outside 1..9999
  raises (\<open>ValueError\<close> stands for the library's out-of-range errors). To find out
  whether the local time is the second of two equal wall-clock times, the library also
  reads the local time 24 hours before the instant and, when the offset has gone down
  since, the local time that much before the instant; each of these dates is built like
  the result and raises for a year outside 1..9999. So the first local day of the year 1
  raises: the date 24 hours earlier is in the year 0.
\<close>

definition fromtimestamp :: "world \<Rightarrow> real \<Rightarrow> exn + date" where
  "fromtimestamp w timestamp =
     (let total = round_half_even (timestamp * 1000000);
          seconds = total div 1000000;
          result_seconds = local_seconds w seconds;
          (y, m, d) = civil_from_days (result_seconds div 86400);
          probe_seconds = local_seconds w (seconds - 86400);
          transition = result_seconds - probe_seconds - 86400
      in if y < 1 \<or> y > 9999 then Inl (year_out_of_range y)
         else if year_of probe_seconds < 1 \<or> year_of probe_seconds > 9999
         then Inl (year_out_of_range (year_of probe_seconds))
         else if transition < 0
                 \<and> (year_of (local_seconds w (seconds + transition)) < 1
                      \<or> year_of (local_seconds w (seconds + transition)) > 9999)
         then Inl (year_out_of_range (year_of (local_seconds w (seconds + transition))))
         else Inr \<lparr>tm_year = nat y, tm_mon = m, tm_mday = d,
                   tm_hour = nat (result_seconds mod 86400 div 3600),
                   tm_min = nat (result_seconds mod 3600 div 60),
                   tm_sec = nat (result_seconds mod 60),
                   microsecond = nat (total mod 1000000)\<rparr>)"

text \<open>
  \<^verbatim>\<open>str(d)\<close> for a \<^verbatim>\<open>datetime\<close>, as an f-string formats it: the ISO format with a space
  between date and time, and the microseconds when they are not zero.
\<close>

definition str_datetime :: "date \<Rightarrow> string" where
  "str_datetime d =
     zfill (str_nat (tm_year d)) 4 @ ''-'' @ zfill (str_nat (tm_mon d)) 2 @ ''-''
       @ zfill (str_nat (tm_mday d)) 2 @ '' '' @ zfill (str_nat (tm_hour d)) 2 @ '':''
       @ zfill (str_nat (tm_min d)) 2 @ '':'' @ zfill (str_nat (tm_sec d)) 2
       @ (if microsecond d = 0 then [] else ''.'' @ zfill (str_nat (microsecond d)) 6)"

text \<open>
  The progress lines of the source have one shape,
  \<^verbatim>\<open>print(f"... {datetime.fromtimestamp(timestamp)} for {path}")\<close>: the date is computed,
  then the line is printed, and either can raise.
\<close>

definition print_date_for :: "world \<Rightarrow> string \<Rightarrow> real \<Rightarrow> string \<Rightarrow> exn + unit" where
  "print_date_for w prefix timestamp path =
     (case fromtimestamp w timestamp of
        Inl e \<Rightarrow> Inl e
      | Inr d \<Rightarrow> py_print w (prefix @ str_datetime d @ '' for '' @ path))"

section \<open>Metadata extractors\<close>

text \<open>
  \<^verbatim>\<open>get_exif_date\<close>. The inner loop over the dictionary is \<open>scan_tag_ids\<close>, the outer
  loop over the tag names is \<open>scan_date_tags\<close>. \<open>exif_tag_try\<close> is the body of the
  inner \<^verbatim>\<open>try\<close>: it returns the accepted timestamp, or nothing for a timestamp at or
  below the threshold. The inner handler prints and goes on with the next tag id; the
  outer handler prints and the function returns \<^verbatim>\<open>None\<close>. An exception raised in the
  inner handler reaches the outer one; one raised in the outer handler leaves the
  function.
\<close>

definition exif_tag_try :: "world \<Rightarrow> string \<Rightarrow> string \<Rightarrow> string \<Rightarrow> exn + real option" where
  "exif_tag_try w file_path tag date_str =
     (case strptime_mktime w date_str of
        Inl e \<Rightarrow> Inl e
      | Inr timestamp \<Rightarrow>
          if timestamp > MIN_VALID_TIMESTAMP
          then (case print_date_for w (''Found EXIF '' @ tag @ '' date: '') timestamp file_path of
                  Inl e \<Rightarrow> Inl e
                | Inr u \<Rightarrow> Inr (Some timestamp))
          else Inr None)"

fun scan_tag_ids :: "world \<Rightarrow> string \<Rightarrow> string \<Rightarrow> exif \<Rightarrow> exn + real option" where
  "scan_tag_ids w file_path tag [] = Inr None"
| "scan_tag_ids w file_path tag ((tag_id, date_str) # rest) =
     (if TAGS_get tag_id = Some tag
      then (case exif_tag_try w file_path tag date_str of
              Inr (Some timestamp) \<Rightarrow> Inr (Some timestamp)
            | Inr None \<Rightarrow> scan_tag_ids w file_path tag rest
            | Inl e \<Rightarrow>
                (case py_print w (''Error parsing EXIF date '' @ date_str @ '': '' @ str_exn e) of
                   Inl e' \<Rightarrow> Inl e'
                 | Inr u \<Rightarrow> scan_tag_ids w file_path tag rest))
      else scan_tag_ids w file_path tag rest)"

fun scan_date_tags :: "world \<Rightarrow> string \<Rightarrow> string list \<Rightarrow> exif \<Rightarrow> exn + real option" where
  "scan_date_tags w file_path [] ex = Inr None"
| "scan_date_tags w file_path (tag # tags) ex =
     (case scan_tag_ids w file_path tag ex of
        Inl e \<Rightarrow> Inl e
      | Inr (Some timestamp) \<Rightarrow> Inr (Some timestamp)
      | Inr None \<Rightarrow> scan_date_tags w file_path tags ex)"

definition get_exif_date :: "world \<Rightarrow> string \<Rightarrow> exn + real option" where
  "get_exif_date w file_path =
     try_except
       (case image_getexif w file_path of
          Inl e \<Rightarrow> Inl e
        | Inr None \<Rightarrow> Inr None
        | Inr (Some ex) \<Rightarrow>
            if ex \<noteq> []
            then scan_date_tags w file_path
                   [''DateTimeOriginal'', ''DateTime'', ''DateTimeDigitized''] ex
            else Inr None)
       (\<lambda>e. case py_print w (''Error reading EXIF from '' @ file_path @ '': '' @ str_exn e) of
               Inl e' \<Rightarrow> Inl e'
             | Inr u \<Rightarrow> Inr None)"

text \<open>
  \<^verbatim>\<open>get_video_creation_time\<close>. Here nothing is guarded on its own: a failure of
  \<^verbatim>\<open>time.mktime\<close>, of \<^verbatim>\<open>datetime.fromtimestamp\<close> or of \<^verbatim>\<open>print\<close> leaves the loops and
  reaches the handler, which prints and lets the function return \<^verbatim>\<open>None\<close>; an exception
  raised in the handler leaves the function.
\<close>

fun scan_date_fields ::
  "world \<Rightarrow> string \<Rightarrow> string list \<Rightarrow> (string \<times> attr_value) list \<Rightarrow> exn + real option" where
  "scan_date_fields w file_path [] present = Inr None"
| "scan_date_fields w file_path (field # rest) present =
     (case map_of present field of
        None \<Rightarrow> scan_date_fields w file_path rest present
      | Some Falsy \<Rightarrow> scan_date_fields w file_path rest present
      | Some (DateValue (Inl e)) \<Rightarrow> Inl e
      | Some (DateValue (Inr timestamp)) \<Rightarrow>
          if timestamp > MIN_VALID_TIMESTAMP
          then (case print_date_for w (''Found video '' @ field @ '' date: '') timestamp
                       file_path of
                  Inl e \<Rightarrow> Inl e
                | Inr u \<Rightarrow> Inr (Some timestamp))
          else scan_date_fields w file_path rest present)"

fun scan_streams :: "world \<Rightarrow> string \<Rightarrow> video_stream list \<Rightarrow> exn + real option" where
  "scan_streams w file_path [] = Inr None"
| "scan_streams w file_path (stream # rest) =
     (case map_of (stream_attrs stream) ''creation_date'' of
        None \<Rightarrow> scan_streams w file_path rest
      | Some Falsy \<Rightarrow> scan_streams w file_path rest
      | Some (DateValue (Inl e)) \<Rightarrow> Inl e
      | Some (DateValue (Inr timestamp)) \<Rightarrow>
          if timestamp > MIN_VALID_TIMESTAMP
          then (case print_date_for w ''Found video stream creation date: '' timestamp
                       file_path of
                  Inl e \<Rightarrow> Inl e
                | Inr u \<Rightarrow> Inr (Some timestamp))
          else scan_streams w file_path rest)"

definition date_fields :: "string list" where
  "date_fields = [''creation_date'', ''last_modification'', ''record_date'', ''date_time_original'']"

definition get_video_creation_time :: "world \<Rightarrow> string \<Rightarrow> exn + real option" where
  "get_video_creation_time w file_path =
     try_except
       (case hachoir_probe w file_path of
          Inl e \<Rightarrow> Inl e
        | Inr NoParser \<Rightarrow> Inr None
        | Inr NoMetadata \<Rightarrow> Inr None
        | Inr (Metadata metadata) \<Rightarrow>
            (case scan_date_fields w file_path date_fields (attrs metadata) of
               Inl e \<Rightarrow> Inl e
             | Inr (Some timestamp) \<Rightarrow> Inr (Some timestamp)
             | Inr None \<Rightarrow>
                 (case streams metadata of
                    None \<Rightarrow> Inr None
                  | Some ss \<Rightarrow> scan_streams w file_path ss)))
       (\<lambda>e. case py_print w (''Error reading video metadata from '' @ file_path @ '': ''
                               @ str_exn e) of
               Inl e' \<Rightarrow> Inl e'
             | Inr u \<Rightarrow> Inr None)"

section \<open>Timestamp resolution\<close>

text \<open>
  \<^verbatim>\<open>get_json_date\<close>: each field is read inside its own \<^verbatim>\<open>try\<close> with a bare
  \<^verbatim>\<open>except: pass\<close>. The pair \<^verbatim>\<open>(None, None)\<close> is \<open>None\<close>.
\<close>

definition json_timestamp :: "json \<Rightarrow> string \<Rightarrow> exn + int" where
  "json_timestamp metadata field =
     (case getitem metadata field of
        Inl e \<Rightarrow> Inl e
      | Inr v \<Rightarrow> (case getitem v ''timestamp'' of Inl e \<Rightarrow> Inl e | Inr t \<Rightarrow> py_int t))"

definition json_field_date :: "json \<Rightarrow> string \<Rightarrow> string \<Rightarrow> (real \<times> string) option" where
  "json_field_date metadata field label =
     (case json_timestamp metadata field of
        Inl e \<Rightarrow> None
      | Inr timestamp \<Rightarrow>
          if real_of_int timestamp > MIN_VALID_TIMESTAMP then Some (real_of_int timestamp, label)
          else None)"

definition get_json_date :: "json \<Rightarrow> (real \<times> string) option" where
  "get_json_date metadata =
     (case json_field_date metadata ''photoTakenTime'' ''JSON photoTakenTime'' of
        Some r \<Rightarrow> Some r
      | None \<Rightarrow> json_field_date metadata ''creationTime'' ''JSON creationTime'')"

text \<open>
  The part both resolvers start with: the extractor chosen by the lower-cased
  extension, and Python's truth test of its result (\<^verbatim>\<open>if exif_date:\<close> holds for a
  number other than zero).
\<close>

definition media_metadata_date :: "world \<Rightarrow> string \<Rightarrow> exn + (real \<times> string) option" where
  "media_metadata_date w file_path =
     (let file_ext = lower (snd (splitext file_path))
      in if file_ext \<in> set PHOTO_EXTENSIONS
         then (case get_exif_date w file_path of
                 Inl e \<Rightarrow> Inl e
               | Inr None \<Rightarrow> Inr None
               | Inr (Some exif_date) \<Rightarrow>
                   if exif_date \<noteq> 0 then Inr (Some (exif_date, ''EXIF'')) else Inr None)
         else if file_ext \<in> set VIDEO_EXTENSIONS
         then (case get_video_creation_time w file_path of
                 Inl e \<Rightarrow> Inl e
               | Inr None \<Rightarrow> Inr None
               | Inr (Some video_date) \<Rightarrow>
                   if video_date \<noteq> 0 then Inr (Some (video_date, ''Video metadata''))
                   else Inr None)
         else Inr None)"

text \<open>
  The part both resolvers end with: \<^verbatim>\<open>os.path.getctime\<close> inside \<^verbatim>\<open>try/except: pass\<close>
  with the threshold, then \<^verbatim>\<open>os.path.getmtime\<close> with neither.
\<close>

definition system_date :: "world \<Rightarrow> string \<Rightarrow> exn + (real \<times> string)" where
  "system_date w file_path =
     (case try_except
             (case getctime w file_path of
                Inl e \<Rightarrow> Inl e
              | Inr creation_time \<Rightarrow>
                  if creation_time > MIN_VALID_TIMESTAMP
                  then Inr (Some (creation_time, ''File creation time''))
                  else Inr None)
             (\<lambda>e. Inr None) of
        Inl e \<Rightarrow> Inl e
      | Inr (Some r) \<Rightarrow> Inr r
      | Inr None \<Rightarrow>
          (case getmtime w file_path of
             Inl e \<Rightarrow> Inl e
           | Inr modification_time \<Rightarrow> Inr (modification_time, ''File modification time'')))"

definition get_file_date :: "world \<Rightarrow> string \<Rightarrow> exn + (real \<times> string)" where
  "get_file_date w file_path =
     (case media_metadata_date w file_path of
        Inl e \<Rightarrow> Inl e
      | Inr (Some r) \<Rightarrow> Inr r
      | Inr None \<Rightarrow> system_date w file_path)"

definition get_valid_timestamp :: "world \<Rightarrow> json \<Rightarrow> string \<Rightarrow> exn + (real \<times> string)" where
  "get_valid_timestamp w metadata media_path =
     (case media_metadata_date w media_path of
        Inl e \<Rightarrow> Inl e
      | Inr (Some r) \<Rightarrow> Inr r
      | Inr None \<Rightarrow>
          (case get_json_date metadata of
             Some r \<Rightarrow> Inr r
           | None \<Rightarrow> system_date w media_path))"

section \<open>Media matcher\<close>

text \<open>
  \<^verbatim>\<open>find_media_file\<close>: three loops over \<^verbatim>\<open>ALL_MEDIA_EXTENSIONS\<close>, each returning at
  its first hit. \<^verbatim>\<open>os.path.splitext(title)\<close> raises \<^verbatim>\<open>TypeError\<close> for a title that is
  not a string; the first loop runs before the title is used.
\<close>

fun same_name_match :: "world \<Rightarrow> string \<Rightarrow> string list \<Rightarrow> string option" where
  "same_name_match w base_path [] = None"
| "same_name_match w base_path (ext # exts) =
     (if path_exists w (base_path @ lower ext) \<or> path_exists w (base_path @ upper ext)
      then Some (base_path @ lower ext)
      else same_name_match w base_path exts)"

fun title_match :: "world \<Rightarrow> string \<Rightarrow> string \<Rightarrow> string list \<Rightarrow> string option" where
  "title_match w dir_path title_without_ext [] = None"
| "title_match w dir_path title_without_ext (ext # exts) =
     (let potential_path = join dir_path [title_without_ext @ ext]
      in if path_exists w potential_path then Some potential_path
         else title_match w dir_path title_without_ext exts)"

fun glob_match :: "world \<Rightarrow> string \<Rightarrow> string \<Rightarrow> string list \<Rightarrow> string option" where
  "glob_match w dir_path title_without_ext [] = None"
| "glob_match w dir_path title_without_ext (ext # exts) =
     (case glob_glob w (join dir_path [''*'' @ title_without_ext @ ''*'' @ ext]) of
        m # ms \<Rightarrow> Some m
      | [] \<Rightarrow> glob_match w dir_path title_without_ext exts)"

definition not_found_message :: "string \<Rightarrow> string \<Rightarrow> string" where
  "not_found_message json_path title =
     ''No media file found for '' @ json_path @ '' (title: '' @ title @ '')''"

definition find_media_file :: "world \<Rightarrow> string \<Rightarrow> json \<Rightarrow> exn + string" where
  "find_media_file w json_path title =
     (let base_path = fst (splitext json_path)
      in case same_name_match w base_path (media_order w) of
           Some found \<Rightarrow> Inr found
         | None \<Rightarrow>
             (let dir_path = dirname json_path
              in case title of
                   JStr t \<Rightarrow>
                     (let title_without_ext = fst (splitext t)
                      in case title_match w dir_path title_without_ext (media_order w) of
                           Some found \<Rightarrow> Inr found
                         | None \<Rightarrow>
                             (case glob_match w dir_path title_without_ext (media_order w) of
                                Some found \<Rightarrow> Inr found
                              | None \<Rightarrow> Inl (FileNotFoundError (not_found_message json_path t))))
                 | _ \<Rightarrow> Inl (TypeError ''expected str, bytes or os.PathLike object'')))"

section \<open>Path planner\<close>

text \<open>\<^verbatim>\<open>get_target_path\<close>: the relative destination and the lower-cased extension.\<close>

definition get_target_path :: "world \<Rightarrow> real \<Rightarrow> string \<Rightarrow> exn + (string \<times> string)" where
  "get_target_path w timestamp media_path =
     (case fromtimestamp w timestamp of
        Inl e \<Rightarrow> Inl e
      | Inr date \<Rightarrow>
          (let year = str_nat (tm_year date);
               month = zfill (str_nat (tm_mon date)) 2;
               day = zfill (str_nat (tm_mday date)) 2;
               media_extension = lower (snd (splitext media_path));
               media_filename = fst (splitext (basename media_path))
           in Inr (join year [year @ ''-'' @ month @ ''-'' @ day, media_filename @ media_extension],
                   media_extension)))"

section \<open>Processing one file\<close>

text \<open>
  Both functions print the source and the date before they plan the path, so a
  timestamp out of range or a path that cannot be printed raises here.
\<close>

definition process_media_without_json :: "world \<Rightarrow> string \<Rightarrow> exn + (string \<times> string)" where
  "process_media_without_json w media_path =
     (case get_file_date w media_path of
        Inl e \<Rightarrow> Inl e
      | Inr (timestamp, source) \<Rightarrow>
          (case print_date_for w (''Using '' @ source @ '' date '') timestamp media_path of
             Inl e \<Rightarrow> Inl e
           | Inr u \<Rightarrow> get_target_path w timestamp media_path))"

definition process_json_file :: "world \<Rightarrow> string \<Rightarrow> exn + (string \<times> string \<times> string)" where
  "process_json_file w json_path =
     (case json_load w json_path of
        Inl e \<Rightarrow> Inl e
      | Inr metadata \<Rightarrow>
          (case getitem metadata ''title'' of
             Inl e \<Rightarrow> Inl e
           | Inr title \<Rightarrow>
               (case find_media_file w json_path title of
                  Inl e \<Rightarrow> Inl e
                | Inr media_path \<Rightarrow>
                    (case get_valid_timestamp w metadata media_path of
                       Inl e \<Rightarrow> Inl e
                     | Inr (timestamp, source) \<Rightarrow>
                         (case print_date_for w (''Using '' @ source @ '' date '') timestamp
                                 media_path of
                            Inl e \<Rightarrow> Inl e
                          | Inr u \<Rightarrow>
                              (case get_target_path w timestamp media_path of
                                 Inl e \<Rightarrow> Inl e
                               | Inr (target_path, media_ext) \<Rightarrow>
                                   Inr (target_path, media_ext, media_path)))))))"

section \<open>The driver\<close>

text \<open>
  \<^verbatim>\<open>should_process_directory\<close>, the statistics dictionary, and the two passes of
  \<^verbatim>\<open>organize_media\<close>. The file system is a state of an arbitrary type \<open>'fs\<close>:
  \<open>observe\<close> gives the world a state shows, \<open>makedirs\<close> and \<open>move\<close>
  (\<^verbatim>\<open>os.makedirs(..., exist_ok=True)\<close>, \<^verbatim>\<open>shutil.move\<close>) return the new state and the
  exception raised, if any. The standard output is the process's, the same in every
  state: \<open>console\<close> says what it encodes, and \<open>view\<close> is the world the program sees.
  The sequence of \<^verbatim>\<open>(root, files)\<close> that \<^verbatim>\<open>os.walk\<close> yields during a pass is a parameter
  of the pass.

  An exception that no handler catches ends the run: the field \<open>raised\<close> of the run's
  state holds it, and \<open>run_loop\<close>, the \<^verbatim>\<open>for\<close> loop, stops at a state that holds one.
\<close>

definition should_process_directory :: "string \<Rightarrow> string \<Rightarrow> bool" where
  "should_process_directory path target_dir =
     (let norm_path = lower (normpath path);
          norm_target = lower (normpath target_dir)
      in \<not> startswith norm_path norm_target)"

record stats =
  processed :: nat
  processed_with_json :: nat
  processed_without_json :: nat
  errors :: nat
  photos :: nat
  videos :: nat
  skipped_directories :: nat

record 'fs os =
  observe :: "'fs \<Rightarrow> world"
  makedirs :: "'fs \<Rightarrow> string \<Rightarrow> 'fs \<times> exn option"
  move :: "'fs \<Rightarrow> string \<Rightarrow> string \<Rightarrow> 'fs \<times> exn option"
  console :: "char \<Rightarrow> bool"

definition view :: "'fs os \<Rightarrow> 'fs \<Rightarrow> world" where
  "view sys fs = (observe sys fs)\<lparr>stdout_encodes := console sys\<rparr>"

record 'fs run_state =
  counters :: stats
  processed_media_files :: "string set"
  filesystem :: "'fs"
  raised :: "exn option"

fun run_loop ::
  "('fs run_state \<Rightarrow> 'a \<Rightarrow> 'fs run_state) \<Rightarrow> 'fs run_state \<Rightarrow> 'a list \<Rightarrow> 'fs run_state" where
  "run_loop body st [] = st"
| "run_loop body st (x # xs) =
     (if raised st = None then run_loop body (body st x) xs else st)"

definition initial_stats :: stats where
  "initial_stats =
     \<lparr>processed = 0, processed_with_json = 0, processed_without_json = 0, errors = 0,
      photos = 0, videos = 0, skipped_directories = 0\<rparr>"

definition count_error :: "'fs run_state \<Rightarrow> 'fs run_state" where
  "count_error st = st\<lparr>counters := (counters st)\<lparr>errors := errors (counters st) + 1\<rparr>\<rparr>"

text \<open>
  The handler of both passes: \<^verbatim>\<open>stats['errors'] += 1\<close>, then the \<^verbatim>\<open>print\<close> of the file
  name and the exception's text. When this \<^verbatim>\<open>print\<close> raises, nothing catches it.
\<close>

definition error_handler :: "world \<Rightarrow> string \<Rightarrow> exn \<Rightarrow> 'fs run_state \<Rightarrow> 'fs run_state" where
  "error_handler w file e st =
     (case py_print w (''Error processing '' @ file @ '': '' @ str_exn e) of
        Inl e' \<Rightarrow> (count_error st)\<lparr>raised := Some e'\<rparr>
      | Inr u \<Rightarrow> count_error st)"

definition count_kind :: "string \<Rightarrow> stats \<Rightarrow> stats" where
  "count_kind media_ext s =
     (if media_ext \<in> set PHOTO_EXTENSIONS then s\<lparr>photos := photos s + 1\<rparr>
      else s\<lparr>videos := videos s + 1\<rparr>)"

definition count_with_json :: "string \<Rightarrow> stats \<Rightarrow> stats" where
  "count_with_json media_ext s =
     count_kind media_ext
       (s\<lparr>processed := processed s + 1, processed_with_json := processed_with_json s + 1\<rparr>)"

definition count_without_json :: "string \<Rightarrow> stats \<Rightarrow> stats" where
  "count_without_json media_ext s =
     count_kind media_ext
       (s\<lparr>processed := processed s + 1, processed_without_json := processed_without_json s + 1\<rparr>)"

text \<open>
  The body of the first pass's \<^verbatim>\<open>try\<close> block for one \<^verbatim>\<open>.json\<close> file: the state it
  reaches and the exception it raises, if any. The counters are updated after the
  moves, and the line that reports the move is printed last.
\<close>

definition json_file_try ::
  "'fs os \<Rightarrow> string \<Rightarrow> string \<Rightarrow> 'fs run_state \<Rightarrow> string \<Rightarrow> 'fs run_state \<times> exn option" where
  "json_file_try sys target_dir root_dir st file =
     (let json_path = join root_dir [file];
          w = view sys (filesystem st)
      in case process_json_file w json_path of
           Inl e \<Rightarrow> (st, Some e)
         | Inr (target_path, media_ext, media_path) \<Rightarrow>
             (let st1 = st\<lparr>processed_media_files :=
                             insert (lower media_path) (processed_media_files st)\<rparr>;
                  full_target_dir = join target_dir [dirname target_path];
                  (fs1, r1) = makedirs sys (filesystem st1) full_target_dir
              in case r1 of
                   Some e \<Rightarrow> (st1\<lparr>filesystem := fs1\<rparr>, Some e)
                 | None \<Rightarrow>
                     (let (fs2, r2) = move sys fs1 media_path (join target_dir [target_path])
                      in case r2 of
                           Some e \<Rightarrow> (st1\<lparr>filesystem := fs2\<rparr>, Some e)
                         | None \<Rightarrow>
                             (let (fs3, r3) =
                                    move sys fs2 json_path
                                      (join target_dir [dirname target_path, basename json_path])
                              in case r3 of
                                   Some e \<Rightarrow> (st1\<lparr>filesystem := fs3\<rparr>, Some e)
                                 | None \<Rightarrow>
                                     (st1\<lparr>filesystem := fs3,
                                          counters := count_with_json media_ext (counters st1)\<rparr>,
                                      case py_print w (''Moved (with JSON) '' @ basename media_path
                                                         @ '' to '' @ target_path) of
                                        Inl e \<Rightarrow> Some e
                                      | Inr u \<Rightarrow> None)))))"

text \<open>
  The body of the first pass's inner loop, for one file name of one directory:
  \<^verbatim>\<open>except Exception\<close> counts the error and prints it.
\<close>

definition json_file_step ::
  "'fs os \<Rightarrow> string \<Rightarrow> string \<Rightarrow> 'fs run_state \<Rightarrow> string \<Rightarrow> 'fs run_state" where
  "json_file_step sys target_dir root_dir st file =
     (if endswith file ''.json''
      then (case json_file_try sys target_dir root_dir st file of
              (st', Some e) \<Rightarrow> error_handler (view sys (filesystem st)) file e st'
            | (st', None) \<Rightarrow> st')
      else st)"

text \<open>The same for the second pass.\<close>

definition media_file_try ::
  "'fs os \<Rightarrow> string \<Rightarrow> string \<Rightarrow> 'fs run_state \<Rightarrow> string \<Rightarrow> 'fs run_state \<times> exn option" where
  "media_file_try sys target_dir root_dir st file =
     (let file_path = join root_dir [file];
          w = view sys (filesystem st)
      in case process_media_without_json w file_path of
           Inl e \<Rightarrow> (st, Some e)
         | Inr (target_path, media_ext) \<Rightarrow>
             (let full_target_dir = join target_dir [dirname target_path];
                  (fs1, r1) = makedirs sys (filesystem st) full_target_dir
              in case r1 of
                   Some e \<Rightarrow> (st\<lparr>filesystem := fs1\<rparr>, Some e)
                 | None \<Rightarrow>
                     (let (fs2, r2) = move sys fs1 file_path (join target_dir [target_path])
                      in case r2 of
                           Some e \<Rightarrow> (st\<lparr>filesystem := fs2\<rparr>, Some e)
                         | None \<Rightarrow>
                             (st\<lparr>filesystem := fs2,
                                 counters := count_without_json media_ext (counters st)\<rparr>,
                              case py_print w (''Moved (without JSON) '' @ file @ '' to ''
                                                 @ target_path) of
                                Inl e \<Rightarrow> Some e
                              | Inr u \<Rightarrow> None))))"

definition media_file_step ::
  "'fs os \<Rightarrow> string \<Rightarrow> string \<Rightarrow> 'fs run_state \<Rightarrow> string \<Rightarrow> 'fs run_state" where
  "media_file_step sys target_dir root_dir st file =
     (let file_path = join root_dir [file]
      in if lower file_path \<notin> processed_media_files st
            \<and> lower (snd (splitext file)) \<in> set ALL_MEDIA_EXTENSIONS
         then (case media_file_try sys target_dir root_dir st file of
                 (st', Some e) \<Rightarrow> error_handler (view sys (filesystem st)) file e st'
               | (st', None) \<Rightarrow> st')
         else st)"

text \<open>One directory of each pass, and the passes.\<close>

definition pass1_directory ::
  "'fs os \<Rightarrow> string \<Rightarrow> 'fs run_state \<Rightarrow> string \<times> string list \<Rightarrow> 'fs run_state" where
  "pass1_directory sys target_dir st entry =
     (case entry of (root_dir, files) \<Rightarrow>
        if \<not> should_process_directory root_dir target_dir
        then st\<lparr>counters := (counters st)\<lparr>skipped_directories :=
                                             skipped_directories (counters st) + 1\<rparr>\<rparr>
        else run_loop (json_file_step sys target_dir root_dir) st files)"

definition pass2_directory ::
  "'fs os \<Rightarrow> string \<Rightarrow> 'fs run_state \<Rightarrow> string \<times> string list \<Rightarrow> 'fs run_state" where
  "pass2_directory sys target_dir st entry =
     (case entry of (root_dir, files) \<Rightarrow>
        if \<not> should_process_directory root_dir target_dir then st
        else run_loop (media_file_step sys target_dir root_dir) st files)"

text \<open>
  \<^verbatim>\<open>organize_media\<close>: the three lines printed at the start, the two passes, and the
  report printed at the end.
\<close>

definition report :: "stats \<Rightarrow> string list" where
  "report s =
     [[CHR 0x0A] @ ''Organization completed!'',
      ''Total processed files: '' @ str_nat (processed s),
      ''Processed with JSON: '' @ str_nat (processed_with_json s),
      ''Processed without JSON: '' @ str_nat (processed_without_json s),
      ''Photos: '' @ str_nat (photos s),
      ''Videos: '' @ str_nat (videos s),
      ''Skipped directories: '' @ str_nat (skipped_directories s),
      ''Errors: '' @ str_nat (errors s)]"

definition organize_media ::
  "'fs os \<Rightarrow> string \<Rightarrow> string \<Rightarrow> string \<Rightarrow> (string \<times> string list) list
     \<Rightarrow> (string \<times> string list) list \<Rightarrow> 'fs \<Rightarrow> 'fs run_state" where
  "organize_media sys cwd source_dir target_dir walk1 walk2 fs0 =
     (let source = abspath cwd source_dir;
          target = abspath cwd target_dir;
          st0 = \<lparr>counters = initial_stats, processed_media_files = {}, filesystem = fs0,
                 raised = None\<rparr>
      in case print_all (view sys fs0)
                [''Starting media organization...'', ''Source directory: '' @ source,
                 ''Target directory: '' @ target] of
           Inl e \<Rightarrow> st0\<lparr>raised := Some e\<rparr>
         | Inr u \<Rightarrow>
             (let st1 = run_loop (pass1_directory sys target) st0 walk1;
                  st2 = run_loop (pass2_directory sys target) st1 walk2
              in if raised st2 = None
                 then (case print_all (view sys (filesystem st2)) (report (counters st2)) of
                         Inl e \<Rightarrow> st2\<lparr>raised := Some e\<rparr>
                       | Inr u \<Rightarrow> st2)
                 else st2))"

section \<open>The specification's notions\<close>

text \<open>
  These definitions follow the words of the specification, not the code; the theorems
  below compare them with the functions above.

  The fallback chain: each source proposes a candidate \<open>(timestamp, label)\<close> or nothing,
  the validity threshold filters a candidate, and the first candidate left wins.
\<close>

fun first_accepted :: "'a option list \<Rightarrow> 'a option" where
  "first_accepted [] = None"
| "first_accepted (Some r # cs) = Some r"
| "first_accepted (None # cs) = first_accepted cs"

definition above_threshold :: "(real \<times> string) option \<Rightarrow> (real \<times> string) option" where
  "above_threshold c =
     (case c of
        None \<Rightarrow> None
      | Some (t, label) \<Rightarrow> if t > 946684800 then Some (t, label) else None)"

text \<open>
  The extractor of the file's kind with the label of its source: what it yields, which
  can be nothing, or the exception that leaves it. \<open>extractor_candidate\<close> is its place
  in the chain.
\<close>

definition extractor_for_kind :: "world \<Rightarrow> string \<Rightarrow> exn + (real \<times> string) option" where
  "extractor_for_kind w p =
     (let ext = lower (snd (splitext p))
      in if ext \<in> set PHOTO_EXTENSIONS
         then (case get_exif_date w p of
                 Inl e \<Rightarrow> Inl e
               | Inr None \<Rightarrow> Inr None
               | Inr (Some t) \<Rightarrow> Inr (Some (t, ''EXIF'')))
         else if ext \<in> set VIDEO_EXTENSIONS
         then (case get_video_creation_time w p of
                 Inl e \<Rightarrow> Inl e
               | Inr None \<Rightarrow> Inr None
               | Inr (Some t) \<Rightarrow> Inr (Some (t, ''Video metadata'')))
         else Inr None)"

definition extractor_candidate :: "world \<Rightarrow> string \<Rightarrow> (real \<times> string) option" where
  "extractor_candidate w p = (case extractor_for_kind w p of Inl e \<Rightarrow> None | Inr r \<Rightarrow> r)"

definition sidecar_candidate :: "json \<Rightarrow> string \<Rightarrow> string \<Rightarrow> (real \<times> string) option" where
  "sidecar_candidate metadata field label =
     (case json_timestamp metadata field of
        Inl e \<Rightarrow> None
      | Inr n \<Rightarrow> Some (real_of_int n, label))"

definition ctime_candidate :: "world \<Rightarrow> string \<Rightarrow> (real \<times> string) option" where
  "ctime_candidate w p =
     (case getctime w p of Inl e \<Rightarrow> None | Inr t \<Rightarrow> Some (t, ''File creation time''))"

definition mtime_candidate :: "world \<Rightarrow> string \<Rightarrow> (real \<times> string) option" where
  "mtime_candidate w p =
     (case getmtime w p of Inl e \<Rightarrow> None | Inr t \<Rightarrow> Some (t, ''File modification time''))"

definition with_sidecar_chain :: "world \<Rightarrow> json \<Rightarrow> string \<Rightarrow> (real \<times> string) option list" where
  "with_sidecar_chain w metadata p =
     [extractor_candidate w p,
      above_threshold (sidecar_candidate metadata ''photoTakenTime'' ''JSON photoTakenTime''),
      above_threshold (sidecar_candidate metadata ''creationTime'' ''JSON creationTime''),
      above_threshold (ctime_candidate w p),
      mtime_candidate w p]"

definition without_sidecar_chain :: "world \<Rightarrow> string \<Rightarrow> (real \<times> string) option list" where
  "without_sidecar_chain w p =
     [extractor_candidate w p,
      above_threshold (ctime_candidate w p),
      mtime_candidate w p]"

text \<open>Standard output encodes every character, so no \<^verbatim>\<open>print\<close> raises.\<close>

definition prints_everything :: "world \<Rightarrow> bool" where
  "prints_everything w = (\<forall>c. is_ascii c \<or> stdout_encodes w c)"

text \<open>
  No tier of the matcher has a hit: for no supported extension does the sidecar's own
  base name exist with the extension in lower or upper case, nor the title's stem with
  the extension, nor does the glob for names containing the title's stem match.
\<close>

definition no_tier_matches :: "world \<Rightarrow> string \<Rightarrow> string \<Rightarrow> bool" where
  "no_tier_matches w json_path title =
     (let base = fst (splitext json_path);
          dir = dirname json_path;
          stem = fst (splitext title)
      in \<forall>ext\<in>set (media_order w).
           \<not> path_exists w (base @ lower ext) \<and> \<not> path_exists w (base @ upper ext)
           \<and> \<not> path_exists w (join dir [stem @ ext])
           \<and> glob_glob w (join dir [''*'' @ stem @ ''*'' @ ext]) = [])"

text \<open>
  The pattern \<^verbatim>\<open>YYYY/YYYY-MM-DD/basename.ext\<close>: a number written with exactly two
  decimal digits, and the characters that are decimal digits.
\<close>

definition two_digits :: "nat \<Rightarrow> string" where
  "two_digits n = [digit_char (n div 10), digit_char (n mod 10)]"

definition is_digit :: "char \<Rightarrow> bool" where
  "is_digit c = (c \<in> set ''0123456789'')"

text \<open>
  The name of a directory entry, as \<^verbatim>\<open>os.walk\<close> joins it to a path: not empty, not one
  of the two special names, and without a separator.
\<close>

definition plain_name :: "string \<Rightarrow> bool" where
  "plain_name n = (n \<noteq> [] \<and> n \<noteq> ''.'' \<and> n \<noteq> ''..'' \<and> CHR ''/'' \<notin> set n)"

text \<open>The two equalities the statistics are meant to keep.\<close>

definition stats_invariant :: "stats \<Rightarrow> bool" where
  "stats_invariant s =
     (processed s = processed_with_json s + processed_without_json s
      \<and> processed s = photos s + videos s)"

section \<open>Example worlds\<close>

text \<open>
  A small file system for evaluating the functions: a list of the paths that exist.
  No file has embedded metadata, every existing file has the creation time
  \<open>1700000000.5\<close> and the modification time \<open>1600000000\<close>, local time is UTC,
  standard output encodes every character, and \<^verbatim>\<open>/photos/IMG_001.json\<close> is a sidecar
  taken on 2021-01-01.
\<close>

definition sidecar_2021 :: json where
  "sidecar_2021 =
     JObj [(''title'', JStr ''IMG_001.jpg''),
           (''photoTakenTime'', JObj [(''timestamp'', JStr ''1609459200'')])]"

definition example_world :: "string list \<Rightarrow> world" where
  "example_world files =
     \<lparr>path_exists = (\<lambda>p. p \<in> set files),
      glob_glob = (\<lambda>pattern. []),
      image_getexif = (\<lambda>p. if p \<in> set files then Inr None else Inl (FileNotFoundError p)),
      strptime_mktime = (\<lambda>v. Inl (ValueError ''time data does not match format'')),
      hachoir_probe = (\<lambda>p. Inr NoParser),
      getctime = (\<lambda>p. if p \<in> set files then Inr (17000000005 / 10)
                       else Inl (OSError ''No such file or directory'')),
      getmtime = (\<lambda>p. if p \<in> set files then Inr 1600000000
                       else Inl (OSError ''No such file or directory'')),
      json_load = (\<lambda>p. if p = ''/photos/IMG_001.json'' \<and> p \<in> set files then Inr sidecar_2021
                        else Inl (OSError ''No such file or directory'')),
      utcoffset = (\<lambda>t. 0),
      stdout_encodes = (\<lambda>c. True),
      media_order = ALL_MEDIA_EXTENSIONS\<rparr>"

text \<open>
  A world whose metadata writers left the all-zero sentinel everywhere: every date
  string parses to the epoch origin and both file-system times are zero.
\<close>

definition zero_world :: world where
  "zero_world =
     \<lparr>path_exists = (\<lambda>p. True),
      glob_glob = (\<lambda>pattern. []),
      image_getexif = (\<lambda>p. Inr (Some [(36867, ''1970:01:01 00:00:00'')])),
      strptime_mktime = (\<lambda>v. Inr 0),
      hachoir_probe = (\<lambda>p. Inr NoParser),
      getctime = (\<lambda>p. Inr 0),
      getmtime = (\<lambda>p. Inr 0),
      json_load = (\<lambda>p. Inl (OSError ''No such file or directory'')),
      utcoffset = (\<lambda>t. 0),
      stdout_encodes = (\<lambda>c. True),
      media_order = ALL_MEDIA_EXTENSIONS\<rparr>"

definition zero_sidecar :: json where
  "zero_sidecar =
     JObj [(''title'', JStr ''a.jpg''),
           (''photoTakenTime'', JObj [(''timestamp'', JStr ''0'')]),
           (''creationTime'', JObj [(''timestamp'', JStr ''0'')])]"

text \<open>
  A directory with the sidecar \<^verbatim>\<open>/photos/IMG.json\<close> (title \<^verbatim>\<open>IMG.jpg\<close>, no timestamps)
  and a dangling symbolic link \<^verbatim>\<open>/photos/old_IMG.jpg\<close>: the directory listing behind
  \<^verbatim>\<open>glob.glob\<close> shows the link, while \<^verbatim>\<open>os.path.exists\<close> and the calls that read the
  file follow it and fail.
\<close>

definition dangling_sidecar :: json where
  "dangling_sidecar = JObj [(''title'', JStr ''IMG.jpg'')]"

definition dangling_world :: world where
  "dangling_world =
     \<lparr>path_exists = (\<lambda>p. p = ''/photos/IMG.json''),
      glob_glob = (\<lambda>pattern. if pattern = ''/photos/*IMG*.jpg'' then [''/photos/old_IMG.jpg'']
                                else []),
      image_getexif = (\<lambda>p. Inl (FileNotFoundError p)),
      strptime_mktime = (\<lambda>v. Inl (ValueError ''time data does not match format'')),
      hachoir_probe = (\<lambda>p. Inr NoParser),
      getctime = (\<lambda>p. if p = ''/photos/IMG.json'' then Inr 1700000000
                       else Inl (OSError ''No such file or directory'')),
      getmtime = (\<lambda>p. if p = ''/photos/IMG.json'' then Inr 1700000000
                       else Inl (OSError ''No such file or directory'')),
      json_load = (\<lambda>p. if p = ''/photos/IMG.json'' then Inr dangling_sidecar
                        else Inl (OSError ''No such file or directory'')),
      utcoffset = (\<lambda>t. 0),
      stdout_encodes = (\<lambda>c. True),
      media_order = ALL_MEDIA_EXTENSIONS\<rparr>"

text \<open>The example world with the local time zone five hours west of UTC.\<close>

definition new_york_world :: "string list \<Rightarrow> world" where
  "new_york_world files = (example_world files)\<lparr>utcoffset := (\<lambda>t. - 18000)\<rparr>"

definition example_os :: "string list os" where
  "example_os =
     \<lparr>observe = example_world,
      makedirs = (\<lambda>files d. (files, None)),
      move = (\<lambda>files src dst.
                if src \<in> set files then (dst # remove1 src files, None)
                else (files, Some (FileNotFoundError src))),
      console = (\<lambda>c. True)\<rparr>"

text \<open>
  The example world on a terminal that cannot write one character, \<open>CHR 0xFF\<close>: it
  stands for a lone surrogate, which a file name with an undecodable byte or a JSON title
  with such an escape carries and a UTF-8 terminal cannot write. Here
  \<^verbatim>\<open>/photos/IMG_001.json\<close> is a sidecar whose title has this character.
\<close>

definition unprintable_name :: string where
  "unprintable_name = ''IMG_'' @ [CHR 0xFF] @ ''.jpg''"


definition unprintable_sidecar :: json where
  "unprintable_sidecar =
     JObj [(''title'', JStr unprintable_name),
           (''photoTakenTime'', JObj [(''timestamp'', JStr ''1609459200'')])]"

definition strict_world :: "string list \<Rightarrow> world" where
  "strict_world files =
     (example_world files)
       \<lparr>json_load := (\<lambda>p. if p = ''/photos/IMG_001.json'' \<and> p \<in> set files
                            then Inr unprintable_sidecar
                            else Inl (OSError ''No such file or directory'')),
        stdout_encodes := (\<lambda>c. c \<noteq> CHR 0xFF)\<rparr>"

definition strict_os :: "string list os" where
  "strict_os = example_os\<lparr>observe := strict_world, console := (\<lambda>c. c \<noteq> CHR 0xFF)\<rparr>"

definition example_state :: "string list \<Rightarrow> string list run_state" where
  "example_state files =
     \<lparr>counters = initial_stats, processed_media_files = {}, filesystem = files,
      raised = None\<rparr>"

section \<open>Evaluating the functions on the example worlds\<close>

lemmas string_defs = lower_def lower_char_def upper_def upper_char_def ascii_uppercase_def
  ascii_lowercase_def startswith_def endswith_def rfind_def splitext_def basename_def
  dirname_def join_def join2_def skip_leading_dots.simps

lemmas example_defs = example_world_def example_os_def example_state_def sidecar_2021_def
  zero_world_def zero_sidecar_def dangling_world_def dangling_sidecar_def
  PHOTO_EXTENSIONS_def VIDEO_EXTENSIONS_def ALL_MEDIA_EXTENSIONS_def

lemma ext_jpg: "lower (snd (splitext ''/photos/IMG_001.jpg'')) = ''.jpg''"
  by (simp add: string_defs)


lemma int_of_string_2021: "int_of_string ''1609459200'' = Inr 1609459200"
  by (simp add: int_of_string_def strip_def is_space_def parse_unsigned_def digit_value_def)

section \<open>Paths, digits and the calendar\<close>

subsection \<open>Splitting a path\<close>

lemma rfind_from_absent: "c \<notin> set s \<Longrightarrow> rfind_from c s i found = found"
  by (induction s arbitrary: i) auto

lemma rfind_from_last:
  "c \<notin> set ys \<Longrightarrow> rfind_from c (xs @ c # ys) i found = i + int (length xs)"
  by (induction xs arbitrary: i found) (auto simp: rfind_from_absent)

lemma rfind_absent: "c \<notin> set s \<Longrightarrow> rfind s c = - 1"
  by (simp add: rfind_def rfind_from_absent)

lemma rfind_last: "c \<notin> set ys \<Longrightarrow> rfind (xs @ c # ys) c = int (length xs)"
  by (simp add: rfind_def rfind_from_last)

lemma rfind_bounds: "- 1 \<le> rfind s c \<and> rfind s c < int (length s)"
proof (cases "c \<in> set s")
  case True
  then obtain xs ys where "s = xs @ c # ys" "c \<notin> set ys"
    by (meson split_list_last)
  then show ?thesis by (simp add: rfind_last)
next
  case False
  then show ?thesis by (simp add: rfind_absent)
qed

lemma path_split:
  obtains d b where "p = d @ b" "CHR ''/'' \<notin> set b" "rfind p CHR ''/'' = int (length d) - 1"
proof (cases "CHR ''/'' \<in> set p")
  case True
  then obtain xs ys where s: "p = xs @ CHR ''/'' # ys" "CHR ''/'' \<notin> set ys"
    by (meson split_list_last)
  show ?thesis
  proof (rule that[of "xs @ ''/''" ys])
    show "p = (xs @ ''/'') @ ys" using s by simp
    show "CHR ''/'' \<notin> set ys" by (rule s(2))
    show "rfind p CHR ''/'' = int (length (xs @ ''/'')) - 1"
      using s by (simp add: rfind_last)
  qed
next
  case False
  show ?thesis
    by (rule that[of "[]" p]) (use False in \<open>simp_all add: rfind_absent\<close>)
qed

lemma basename_split:
  assumes "CHR ''/'' \<notin> set b" "rfind (d @ b) CHR ''/'' = int (length d) - 1"
  shows "basename (d @ b) = b"
  using assms by (simp add: basename_def)

lemma basename_no_sep: "CHR ''/'' \<notin> set (basename p)"
proof -
  obtain d b where "p = d @ b" "CHR ''/'' \<notin> set b" "rfind p CHR ''/'' = int (length d) - 1"
    by (rule path_split)
  then show ?thesis by (simp add: basename_def)
qed

lemma skip_leading_dots_shift:
  "0 \<le> i \<Longrightarrow>
     skip_leading_dots (d @ b) (int (length d) + i) (int (length d) + j) = skip_leading_dots b i j"
proof (induction b i j rule: skip_leading_dots.induct)
  case (1 p filenameIndex dotIndex)
  have nth: "(d @ p) ! nat (int (length d) + filenameIndex) = p ! nat filenameIndex"
    using "1.prems" by (simp add: nth_append nat_add_distrib)
  show ?case
  proof (cases "filenameIndex < dotIndex")
    case False
    then show ?thesis
      by (simp add: skip_leading_dots.simps[of "d @ p"] skip_leading_dots.simps[of p])
  next
    case True
    show ?thesis
    proof (cases "p ! nat filenameIndex \<noteq> CHR ''.''")
      case True
      then show ?thesis
        using \<open>filenameIndex < dotIndex\<close> "1.prems" nth
        by (simp add: skip_leading_dots.simps[of "d @ p"] skip_leading_dots.simps[of p])
    next
      case False
      have "skip_leading_dots (d @ p) (int (length d) + (filenameIndex + 1)) (int (length d) + dotIndex)
              = skip_leading_dots p (filenameIndex + 1) dotIndex"
        using "1.IH" \<open>filenameIndex < dotIndex\<close> False "1.prems" by simp
      then show ?thesis
        using \<open>filenameIndex < dotIndex\<close> False "1.prems" nth
        by (simp add: skip_leading_dots.simps[of "d @ p" "int (length d) + filenameIndex"]
            skip_leading_dots.simps[of p filenameIndex] add.assoc)
    qed
  qed
qed

lemma splitext_split:
  assumes "CHR ''/'' \<notin> set b" "rfind (d @ b) CHR ''/'' = int (length d) - 1"
  shows "splitext (d @ b) = (d @ fst (splitext b), snd (splitext b))"
proof (cases "CHR ''.'' \<in> set b")
  case False
  have "rfind (d @ b) CHR ''.'' \<le> int (length d) - 1"
  proof (cases "CHR ''.'' \<in> set d")
    case True
    then obtain xs ys where s: "d = xs @ CHR ''.'' # ys" "CHR ''.'' \<notin> set ys"
      by (meson split_list_last)
    have "rfind (xs @ CHR ''.'' # (ys @ b)) CHR ''.'' = int (length xs)"
      by (rule rfind_last) (use s False in simp)
    then show ?thesis using s by simp
  next
    case False
    then show ?thesis using \<open>CHR ''.'' \<notin> set b\<close> by (simp add: rfind_absent)
  qed
  then show ?thesis
    using assms False by (simp add: splitext_def rfind_absent)
next
  case True
  then obtain xs ys where s: "b = xs @ CHR ''.'' # ys" "CHR ''.'' \<notin> set ys"
    by (meson split_list_last)
  have rb: "rfind b CHR ''.'' = int (length xs)"
    using s by (simp add: rfind_last)
  have "rfind ((d @ xs) @ CHR ''.'' # ys) CHR ''.'' = int (length (d @ xs))"
    by (rule rfind_last) (rule s(2))
  then have rp: "rfind (d @ b) CHR ''.'' = int (length d) + int (length xs)"
    using s by simp
  have rb': "rfind b CHR ''/'' = - 1"
    using assms(1) by (simp add: rfind_absent)
  have skip: "skip_leading_dots (d @ b) (int (length d)) (int (length d) + int (length xs))
                = skip_leading_dots b 0 (int (length xs))"
    using skip_leading_dots_shift[of 0 d b "int (length xs)"] by simp
  show ?thesis
    using assms(2) rb rp rb' skip
    by (simp add: splitext_def Let_def s)
qed

lemma splitext_basename:
  "snd (splitext (basename p)) = snd (splitext p)"
proof -
  obtain d b where s: "p = d @ b" "CHR ''/'' \<notin> set b" "rfind p CHR ''/'' = int (length d) - 1"
    by (rule path_split)
  then show ?thesis
    using basename_split[of b d] splitext_split[of b d] by simp
qed

lemma splitext_append: "fst (splitext p) @ snd (splitext p) = p"
  by (simp add: splitext_def Let_def)

lemma lower_char_sep: "lower_char c = CHR ''/'' \<longleftrightarrow> c = CHR ''/''"
  by (simp add: lower_char_def ascii_uppercase_def ascii_lowercase_def)

lemma lower_no_sep: "CHR ''/'' \<in> set (lower s) \<longleftrightarrow> CHR ''/'' \<in> set s"
proof
  assume "CHR ''/'' \<in> set (lower s)"
  then obtain c where "c \<in> set s" "lower_char c = CHR ''/''"
    by (auto simp: lower_def)
  then show "CHR ''/'' \<in> set s" by (simp add: lower_char_sep)
next
  assume "CHR ''/'' \<in> set s"
  then have "lower_char CHR ''/'' \<in> set (lower s)"
    unfolding lower_def by simp
  moreover have "lower_char CHR ''/'' = CHR ''/''"
    by (simp add: lower_char_sep)
  ultimately show "CHR ''/'' \<in> set (lower s)" by simp
qed

lemma startswith_sep: "startswith s ''/'' \<longleftrightarrow> s \<noteq> [] \<and> hd s = CHR ''/''"
  by (cases s) (simp_all add: startswith_def)

lemma endswith_sep: "endswith s ''/'' \<longleftrightarrow> s \<noteq> [] \<and> last s = CHR ''/''"
proof (cases s rule: rev_cases)
  case Nil
  then show ?thesis by (simp add: endswith_def)
next
  case (snoc xs x)
  then show ?thesis by (simp add: endswith_def)
qed

lemma target_file_name_no_leading_sep:
  "\<not> startswith (fst (splitext (basename p)) @ lower (snd (splitext p))) ''/''"
proof -
  let ?b = "basename p"
  have "fst (splitext ?b) @ snd (splitext ?b) = ?b" by (rule splitext_append)
  then have "set (fst (splitext ?b)) \<union> set (snd (splitext ?b)) = set ?b"
    by (metis set_append)
  then have "CHR ''/'' \<notin> set (fst (splitext ?b))" "CHR ''/'' \<notin> set (snd (splitext p))"
    using basename_no_sep[of p] by (auto simp: splitext_basename)
  then have "CHR ''/'' \<notin> set (fst (splitext ?b) @ lower (snd (splitext p)))"
    by (simp add: lower_no_sep)
  then show ?thesis
    unfolding startswith_sep by (metis hd_in_set)
qed

subsection \<open>Decimal digits\<close>

lemma digit_char_is_digit: "is_digit (digit_char d)"
proof -
  have "d mod 10 < length ''0123456789''" by simp
  then show ?thesis
    unfolding is_digit_def digit_char_def by (rule nth_mem)
qed

lemma is_digit_not_sep: "is_digit c \<Longrightarrow> c \<noteq> CHR ''/'' \<and> c \<noteq> CHR ''+'' \<and> c \<noteq> CHR ''-''"
  by (auto simp: is_digit_def)

lemma str_nat_small: "n < 10 \<Longrightarrow> str_nat n = [digit_char n]"
  by (subst str_nat.simps) simp

lemma str_nat_large: "10 \<le> n \<Longrightarrow> str_nat n = str_nat (n div 10) @ [digit_char (n mod 10)]"
  by (subst str_nat.simps) simp

lemma str_nat_digits: "list_all is_digit (str_nat n)"
proof (induction n rule: str_nat.induct)
  case (1 n)
  show ?case
  proof (cases "n < 10")
    case True
    then show ?thesis by (simp add: str_nat_small digit_char_is_digit)
  next
    case False
    then show ?thesis using 1 by (simp add: str_nat_large digit_char_is_digit)
  qed
qed

lemma str_nat_nonempty: "str_nat n \<noteq> []"
  by (cases "n < 10") (simp_all add: str_nat_small str_nat_large)

lemma str_nat_four_digits:
  assumes "1000 \<le> n" "n \<le> 9999"
  shows "length (str_nat n) = 4"
proof -
  have d: "n div 10 div 10 = n div 100" "n div 10 div 10 div 10 = n div 1000"
    by (simp_all add: div_mult2_eq)
  have a1: "10 \<le> n" using assms by simp
  have a2: "10 \<le> n div 10" using assms by linarith
  have a3: "10 \<le> n div 10 div 10" unfolding d using assms by linarith
  have a4: "n div 10 div 10 div 10 < 10" unfolding d using assms by linarith
  show ?thesis
    unfolding str_nat_large[OF a1] str_nat_large[OF a2] str_nat_large[OF a3]
      str_nat_small[OF a4]
    by simp
qed

lemma zfill_two_digits:
  assumes "n \<le> 99"
  shows "zfill (str_nat n) 2 = two_digits n"
proof (cases "n < 10")
  case True
  have "digit_char n \<noteq> CHR ''+''" "digit_char n \<noteq> CHR ''-''"
    using is_digit_not_sep[OF digit_char_is_digit[of n]] by simp_all
  moreover have "digit_char 0 = CHR ''0''" by (simp add: digit_char_def)
  ultimately show ?thesis
    using True by (simp add: str_nat_small zfill_def two_digits_def)
next
  case False
  then have "n div 10 < 10" using assms by simp
  then show ?thesis
    using False by (simp add: str_nat_large str_nat_small zfill_def two_digits_def)
qed

lemma two_digits_digits: "list_all is_digit (two_digits n) \<and> length (two_digits n) = 2"
  by (simp add: two_digits_def digit_char_is_digit)

subsection \<open>The calendar\<close>

lemma year_walk_range:
  "0 \<le> d \<Longrightarrow> year_walk y d = (y', d') \<Longrightarrow> 0 \<le> d' \<and> d' < days_in_year y' \<and> y \<le> y'"
proof (induction y d rule: year_walk.induct)
  case (1 y d)
  show ?case
  proof (cases "d \<ge> days_in_year y")
    case True
    then have "year_walk (y + 1) (d - days_in_year y) = (y', d')"
      using "1.prems"(2) by (subst (asm) year_walk.simps) simp
    moreover have "0 \<le> d - days_in_year y" using True by simp
    ultimately show ?thesis using "1.IH"[OF True] by simp
  next
    case False
    then have "year_walk y d = (y, d)"
      by (subst year_walk.simps) simp
    then show ?thesis
      using "1.prems" False by simp
  qed
qed

lemma month_walk_range:
  assumes "\<forall>l\<in>set ls. 0 < l \<and> l \<le> 31" "0 \<le> d" "d < sum_list ls"
    and "month_walk ls m d = (m', day0)"
  shows "m \<le> m' \<and> m' < m + length ls \<and> 0 \<le> day0 \<and> day0 < 31"
  using assms
proof (induction ls arbitrary: m d)
  case Nil
  then show ?case by simp
next
  case (Cons l ls)
  show ?case
  proof (cases "d < l")
    case True
    then show ?thesis using Cons.prems by auto
  next
    case False
    then have "month_walk ls (m + 1) (d - l) = (m', day0)"
      using Cons.prems(4) by simp
    moreover have "0 \<le> d - l" "d - l < sum_list ls"
      using False Cons.prems(3) by simp_all
    ultimately have "m + 1 \<le> m' \<and> m' < m + 1 + length ls \<and> 0 \<le> day0 \<and> day0 < 31"
      using Cons.IH[of "d - l" "m + 1"] Cons.prems(1) by simp
    then show ?thesis by simp
  qed
qed

lemma month_lengths_facts:
  "(\<forall>l\<in>set (month_lengths y). 0 < l \<and> l \<le> 31) \<and> sum_list (month_lengths y) = days_in_year y
   \<and> length (month_lengths y) = 12"
  by (simp add: month_lengths_def days_in_year_def)

lemma civil_from_days_range:
  assumes "civil_from_days n = (y, m, d)"
  shows "1 \<le> m \<and> m \<le> 12 \<and> 1 \<le> d \<and> d \<le> 31"
proof -
  let ?doe = "(n - 10957) mod 146097"
  obtain y0 doy where yw: "year_walk 2000 ?doe = (y0, doy)" by (cases "year_walk 2000 ?doe")
  obtain m0 day0 where mw: "month_walk (month_lengths y0) 1 doy = (m0, day0)"
    by (cases "month_walk (month_lengths y0) 1 doy")
  have "0 \<le> ?doe" by simp
  then have doy: "0 \<le> doy" "doy < days_in_year y0"
    using year_walk_range[OF _ yw] by simp_all
  have "1 \<le> m0 \<and> m0 < 1 + length (month_lengths y0) \<and> 0 \<le> day0 \<and> day0 < 31"
    using month_walk_range[OF _ doy(1) _ mw] month_lengths_facts[of y0] doy(2) by simp
  moreover have "m = m0" "d = nat day0 + 1"
    using assms yw mw by (simp_all add: civil_from_days_def Let_def)
  ultimately show ?thesis
    using month_lengths_facts[of y0] by auto
qed

subsection \<open>Printing\<close>

lemma printable_Nil: "printable w []"
  by (simp add: printable_def)

lemma printable_Cons: "printable w (c # s) \<longleftrightarrow> (is_ascii c \<or> stdout_encodes w c) \<and> printable w s"
  by (simp add: printable_def)

lemma printable_append: "printable w (a @ b) \<longleftrightarrow> printable w a \<and> printable w b"
  by (simp add: printable_def)

lemma printable_subset: "set a \<subseteq> set b \<Longrightarrow> printable w b \<Longrightarrow> printable w a"
  by (auto simp: printable_def list_all_iff)

lemma printable_ascii: "list_all is_ascii s \<Longrightarrow> printable w s"
  by (auto simp: printable_def list_all_iff)

lemma printable_everything: "prints_everything w \<Longrightarrow> printable w s"
  by (auto simp: printable_def prints_everything_def list_all_iff)

lemma py_print_Inr: "py_print w message = Inr u \<longleftrightarrow> printable w message"
  by (simp add: py_print_def)

lemma py_print_everything: "prints_everything w \<Longrightarrow> py_print w message = Inr ()"
  by (simp add: py_print_def printable_everything)

lemma py_print_Inl:
  "py_print w message = Inl e \<Longrightarrow> \<not> printable w message \<and> (\<exists>m. e = UnicodeEncodeError m)"
  by (auto simp: py_print_def split: if_splits)

lemma lower_char_ascii: "is_ascii (lower_char c) \<or> lower_char c = c"
proof (cases "map_of (zip ascii_uppercase ascii_lowercase) c")
  case None
  then show ?thesis by (simp add: lower_char_def)
next
  case (Some d)
  then have "d \<in> set ascii_lowercase"
    by (meson map_of_SomeD set_zip_rightD)
  then have "is_ascii d"
    by (auto simp: ascii_lowercase_def is_ascii_def)
  then show ?thesis using Some by (simp add: lower_char_def)
qed

lemma lower_char_ascii_iff: "is_ascii c \<Longrightarrow> is_ascii (lower_char c)"
  using lower_char_ascii[of c] by auto

lemma printable_lower: "printable w s \<Longrightarrow> printable w (lower s)"
proof (induction s)
  case Nil
  then show ?case by (simp add: lower_def)
next
  case (Cons c s)
  then have c: "is_ascii c \<or> stdout_encodes w c" and s: "printable w (lower s)"
    by (simp_all add: printable_Cons)
  have "is_ascii (lower_char c) \<or> stdout_encodes w (lower_char c)"
    using c lower_char_ascii[of c] by auto
  then show ?case
    using s by (simp add: lower_def printable_Cons)
qed

lemma is_digit_ascii: "is_digit c \<Longrightarrow> is_ascii c"
  by (auto simp: is_digit_def is_ascii_def)

lemma digits_ascii: "list_all is_digit s \<Longrightarrow> list_all is_ascii s"
  by (auto simp: list_all_iff is_digit_ascii)

lemma zfill_digits: "list_all is_digit s \<Longrightarrow> list_all is_digit (zfill s n)"
  by (cases s) (auto simp: zfill_def is_digit_def list_all_iff)

lemma zfill_str_nat_ascii: "list_all is_ascii (zfill (str_nat k) n)"
  by (intro digits_ascii zfill_digits str_nat_digits)

lemma str_datetime_ascii: "list_all is_ascii (str_datetime d)"
  by (simp add: str_datetime_def zfill_str_nat_ascii is_ascii_def)

lemma str_nat_ascii: "list_all is_ascii (str_nat n)"
  by (intro digits_ascii str_nat_digits)

lemma set_basename: "set (basename p) \<subseteq> set p"
  by (simp add: basename_def set_drop_subset)

lemma set_splitext_fst: "set (fst (splitext p)) \<subseteq> set p"
  by (simp add: splitext_def Let_def set_take_subset)

lemma set_splitext_snd: "set (snd (splitext p)) \<subseteq> set p"
  by (simp add: splitext_def Let_def set_drop_subset)

lemma set_join2_right: "set b \<subseteq> set (join2 a b)"
  by (auto simp: join2_def)

lemma print_date_for_Inr:
  assumes "print_date_for w prefix t p = Inr u"
  shows "(\<exists>d. fromtimestamp w t = Inr d) \<and> printable w prefix \<and> printable w p"
  using assms
  by (auto simp: print_date_for_def py_print_Inr printable_append printable_Cons
      split: sum.splits)

lemma print_date_for_ok:
  assumes "fromtimestamp w t = Inr d" "printable w prefix" "printable w p"
  shows "print_date_for w prefix t p = Inr ()"
  using assms
  by (simp add: print_date_for_def py_print_def printable_append printable_ascii
      str_datetime_ascii is_ascii_def printable_Cons printable_Nil)

subsection \<open>Local dates\<close>

lemma local_offset_bounds: "- 86399 \<le> local_offset w s \<and> local_offset w s \<le> 86399"
  by (simp add: local_offset_def)

lemma local_offset_id:
  "- 86400 < utcoffset w s \<Longrightarrow> utcoffset w s < 86400 \<Longrightarrow> local_offset w s = utcoffset w s"
  by (simp add: local_offset_def)

lemma local_offset_cong:
  assumes "utcoffset w' = utcoffset w"
  shows "local_offset w' = local_offset w"
proof
  fix s
  show "local_offset w' s = local_offset w s"
    unfolding local_offset_def assms ..
qed

lemma local_seconds_cong:
  assumes "utcoffset w' = utcoffset w"
  shows "local_seconds w' = local_seconds w"
proof
  fix s
  show "local_seconds w' s = local_seconds w s"
    unfolding local_seconds_def local_offset_cong[OF assms] ..
qed

lemma fromtimestamp_cong:
  assumes "utcoffset w' = utcoffset w"
  shows "fromtimestamp w' t = fromtimestamp w t"
  unfolding fromtimestamp_def local_seconds_cong[OF assms] ..

lemma fromtimestamp_range:
  assumes "fromtimestamp w t = Inr dt"
  shows "1 \<le> tm_year dt \<and> tm_year dt \<le> 9999 \<and> 1 \<le> tm_mon dt \<and> tm_mon dt \<le> 12
         \<and> 1 \<le> tm_mday dt \<and> tm_mday dt \<le> 31"
proof -
  define s where "s = round_half_even (t * 1000000) div 1000000"
  obtain y m d where c: "civil_from_days (local_seconds w s div 86400) = (y, m, d)"
    by (cases "civil_from_days (local_seconds w s div 86400)")
  have y: "\<not> (y < 1 \<or> y > 9999)"
    using assms unfolding fromtimestamp_def Let_def s_def[symmetric] c prod.case
    by (cases "y < 1 \<or> y > 9999") simp_all
  have dt: "tm_year dt = nat y \<and> tm_mon dt = m \<and> tm_mday dt = d"
    using assms y unfolding fromtimestamp_def Let_def s_def[symmetric] c prod.case
    by (auto split: if_splits)
  have "1 \<le> nat y" "nat y \<le> 9999" using y by linarith+
  then show ?thesis
    using civil_from_days_range[OF c] dt by simp
qed

text \<open>
  The date 24 hours before the instant is read as well, so it lies in the years 1 to
  9999 whenever \<open>fromtimestamp\<close> returns.
\<close>

lemma fromtimestamp_probe:
  assumes "fromtimestamp w t = Inr dt"
  shows "1 \<le> year_of (local_seconds w (round_half_even (t * 1000000) div 1000000 - 86400))
         \<and> year_of (local_seconds w (round_half_even (t * 1000000) div 1000000 - 86400)) \<le> 9999"
proof -
  define s where "s = round_half_even (t * 1000000) div 1000000"
  obtain y m d where c: "civil_from_days (local_seconds w s div 86400) = (y, m, d)"
    by (cases "civil_from_days (local_seconds w s div 86400)")
  show ?thesis
    using assms unfolding fromtimestamp_def Let_def s_def[symmetric] c prod.case
    by (auto split: if_splits)
qed

lemma join_three:
  assumes "a \<noteq> []" "last a \<noteq> CHR ''/''" "b \<noteq> []" "hd b \<noteq> CHR ''/''" "last b \<noteq> CHR ''/''"
    "\<not> startswith c ''/''"
  shows "join a [b, c] = a @ ''/'' @ b @ ''/'' @ c"
  using assms by (simp add: join_def join2_def startswith_sep endswith_sep)

lemma get_target_path_shape:
  assumes "fromtimestamp w timestamp = Inr d"
  shows "get_target_path w timestamp media_path =
           Inr (str_nat (tm_year d) @ ''/'' @ str_nat (tm_year d) @ ''-'' @ two_digits (tm_mon d)
                  @ ''-'' @ two_digits (tm_mday d) @ ''/''
                  @ fst (splitext (basename media_path)) @ lower (snd (splitext media_path)),
                lower (snd (splitext media_path)))"
proof -
  let ?y = "str_nat (tm_year d)"
  let ?mid = "?y @ ''-'' @ two_digits (tm_mon d) @ ''-'' @ two_digits (tm_mday d)"
  let ?f = "fst (splitext (basename media_path)) @ lower (snd (splitext media_path))"
  have r: "tm_mon d \<le> 99" "tm_mday d \<le> 99"
    using fromtimestamp_range[OF assms] by simp_all
  have y: "?y \<noteq> []" "list_all is_digit ?y"
    by (simp_all add: str_nat_nonempty str_nat_digits)
  then have "is_digit (last ?y)" "is_digit (hd ?y)"
    by (simp_all add: list_all_iff)
  then have y': "last ?y \<noteq> CHR ''/''" "hd ?y \<noteq> CHR ''/''"
    using is_digit_not_sep by blast+
  have "last ?mid = digit_char (tm_mday d mod 10)"
    by (simp add: two_digits_def)
  then have mid: "?mid \<noteq> []" "last ?mid \<noteq> CHR ''/''" "hd ?mid \<noteq> CHR ''/''"
    using y y' is_digit_not_sep[OF digit_char_is_digit[of "tm_mday d mod 10"]] by simp_all
  have "join ?y [?mid, ?f] = ?y @ ''/'' @ ?mid @ ''/'' @ ?f"
    by (rule join_three) (use y y' mid target_file_name_no_leading_sep in simp_all)
  then have j: "join ?y [?mid, ?f] = ?y @ ''/'' @ ?y @ ''-'' @ two_digits (tm_mon d)
                  @ ''-'' @ two_digits (tm_mday d) @ ''/'' @ ?f"
    by simp
  have "get_target_path w timestamp media_path = Inr (join ?y [?mid, ?f], lower (snd (splitext media_path)))"
    by (simp only: get_target_path_def assms sum.case Let_def zfill_two_digits[OF r(1)]
        zfill_two_digits[OF r(2)])
  then show ?thesis
    unfolding j .
qed

lemma get_target_path_Inr:
  assumes "get_target_path w timestamp media_path = Inr r"
  shows "\<exists>d. fromtimestamp w timestamp = Inr d"
  using assms by (cases "fromtimestamp w timestamp") (simp_all add: get_target_path_def)

text \<open>
  The planned path is made of digits, dashes, slashes and characters of the media
  path: where the media path can be printed, so can the planned path.
\<close>

lemma get_target_path_printable:
  assumes "get_target_path w timestamp media_path = Inr (target_path, media_ext)"
    and "printable w media_path"
  shows "printable w target_path"
proof -
  obtain d where d: "fromtimestamp w timestamp = Inr d"
    using get_target_path_Inr[OF assms(1)] by blast
  have stem: "printable w (fst (splitext (basename media_path)))"
    using printable_subset[OF set_splitext_fst]
      printable_subset[OF set_basename assms(2)] .
  have ext: "printable w (lower (snd (splitext media_path)))"
    using printable_lower[OF printable_subset[OF set_splitext_snd assms(2)]] .
  have two: "printable w (two_digits n)" for n
    using two_digits_digits[of n] by (intro printable_ascii digits_ascii) simp
  have year: "printable w (str_nat (tm_year d))"
    by (intro printable_ascii str_nat_ascii)
  have sep: "printable w ''/''" "printable w ''-''"
    by (simp_all add: printable_def is_ascii_def)
  have "target_path = str_nat (tm_year d) @ ''/'' @ str_nat (tm_year d) @ ''-'' @ two_digits (tm_mon d)
                  @ ''-'' @ two_digits (tm_mday d) @ ''/''
                  @ fst (splitext (basename media_path)) @ lower (snd (splitext media_path))"
    using get_target_path_shape[OF d, of media_path] assms(1) by simp
  then show ?thesis
    using stem ext two year sep by (simp only: printable_append simp_thms)
qed

subsection \<open>Dates of the examples\<close>

lemmas calendar_defs = fromtimestamp_def local_seconds_def local_offset_def year_of_def
  round_half_even_def civil_from_days_def year_walk.simps days_in_year_def is_leap_def
  month_lengths_def

lemma fromtimestamp_2021_utc:
  "fromtimestamp (example_world files) 1609459200
     = Inr \<lparr>tm_year = 2021, tm_mon = 1, tm_mday = 1, tm_hour = 0, tm_min = 0, tm_sec = 0,
            microsecond = 0\<rparr>"
  by (simp add: calendar_defs example_world_def)

lemma get_target_path_2021_utc:
  "get_target_path (example_world files) 1609459200 ''/photos/IMG_001.jpg''
     = Inr (''2021/2021-01-01/IMG_001.jpg'', ''.jpg'')"
  by (simp add: get_target_path_def fromtimestamp_2021_utc str_nat.simps digit_char_def
      zfill_def string_defs Let_def)

lemma str_datetime_2021:
  "str_datetime \<lparr>tm_year = 2021, tm_mon = 1, tm_mday = 1, tm_hour = 0, tm_min = 0, tm_sec = 0,
            microsecond = 0\<rparr> = ''2021-01-01 00:00:00''"
  by (simp add: str_datetime_def str_nat.simps digit_char_def zfill_def)

lemma year_out_of_range_0: "year_out_of_range 0 = ValueError ''year 0 is out of range''"
  by (simp add: year_out_of_range_def str_int_def str_nat.simps digit_char_def)

text \<open>
  At midnight of 0001-01-01 UTC the date read 24 hours earlier is in the year 0 and
  \<open>fromtimestamp\<close> raises; at midnight of the next day it returns.
\<close>

lemma fromtimestamp_first_day_raises:
  "fromtimestamp (example_world files) (- 62135596800) = Inl (ValueError ''year 0 is out of range'')"
  by (simp add: calendar_defs example_world_def year_out_of_range_0)

lemma fromtimestamp_second_day_returns:
  "fromtimestamp (example_world files) (- 62135510400)
     = Inr \<lparr>tm_year = 1, tm_mon = 1, tm_mday = 2, tm_hour = 0, tm_min = 0, tm_sec = 0,
            microsecond = 0\<rparr>"
  by (simp add: calendar_defs example_world_def)

section \<open>Properties of the extractors and the resolvers\<close>

subsection \<open>Extractors\<close>

lemma first_accepted_Cons:
  "first_accepted (c # cs) = (case c of Some r \<Rightarrow> Some r | None \<Rightarrow> first_accepted cs)"
  by (cases c) simp_all

lemma MIN_pos: "0 < MIN_VALID_TIMESTAMP"
  by (simp add: MIN_VALID_TIMESTAMP_def)

lemma exif_tag_try_above:
  "exif_tag_try w p tag v = Inr (Some t) \<Longrightarrow> t > MIN_VALID_TIMESTAMP"
  by (auto simp: exif_tag_try_def split: sum.splits if_splits)

lemma scan_tag_ids_above:
  "scan_tag_ids w p tag ex = Inr (Some t) \<Longrightarrow> t > MIN_VALID_TIMESTAMP"
  by (induction w p tag ex rule: scan_tag_ids.induct)
    (auto split: if_splits sum.splits option.splits dest: exif_tag_try_above)

lemma scan_date_tags_above:
  "scan_date_tags w p tags ex = Inr (Some t) \<Longrightarrow> t > MIN_VALID_TIMESTAMP"
  by (induction tags) (auto split: sum.splits option.splits dest: scan_tag_ids_above)

lemma get_exif_date_above:
  "get_exif_date w p = Inr (Some t) \<Longrightarrow> t > MIN_VALID_TIMESTAMP"
  by (auto simp: get_exif_date_def try_except_def split: sum.splits option.splits if_splits
      dest: scan_tag_ids_above)

lemma scan_date_fields_above:
  "scan_date_fields w p fs present = Inr (Some t) \<Longrightarrow> t > MIN_VALID_TIMESTAMP"
  by (induction fs) (auto split: option.splits attr_value.splits sum.splits if_splits)

lemma scan_streams_above:
  "scan_streams w p ss = Inr (Some t) \<Longrightarrow> t > MIN_VALID_TIMESTAMP"
  by (induction ss) (auto split: option.splits attr_value.splits sum.splits if_splits)

lemma get_video_creation_time_above:
  "get_video_creation_time w p = Inr (Some t) \<Longrightarrow> t > MIN_VALID_TIMESTAMP"
  by (auto simp: get_video_creation_time_def try_except_def
      split: sum.splits option.splits probe.splits
      dest: scan_date_fields_above scan_streams_above)

text \<open>
  An accepted date is above the threshold, so it passes Python's truth test: the
  resolvers' first step is the extractor of the file's kind.
\<close>

lemma media_metadata_date_eq:
  "media_metadata_date w p = extractor_for_kind w p"
proof -
  have e: "get_exif_date w p = Inr (Some t) \<Longrightarrow> t \<noteq> 0" for t
    using get_exif_date_above[of w p t] MIN_pos by auto
  have v: "get_video_creation_time w p = Inr (Some t) \<Longrightarrow> t \<noteq> 0" for t
    using get_video_creation_time_above[of w p t] MIN_pos by auto
  show ?thesis
    using e v
    by (auto simp: media_metadata_date_def extractor_for_kind_def Let_def
        split: sum.splits option.splits)
qed

lemma extractor_for_kind_above:
  "extractor_for_kind w p = Inr (Some (t, l)) \<Longrightarrow> t > MIN_VALID_TIMESTAMP"
  by (auto simp: extractor_for_kind_def Let_def split: if_splits sum.splits option.splits
      dest: get_exif_date_above get_video_creation_time_above)

lemma extractor_for_kind_label:
  "extractor_for_kind w p = Inr (Some (t, l)) \<Longrightarrow> l = ''EXIF'' \<or> l = ''Video metadata''"
  by (auto simp: extractor_for_kind_def Let_def split: if_splits sum.splits option.splits)

lemma json_field_date_eq:
  "json_field_date md field label = above_threshold (sidecar_candidate md field label)"
  by (auto simp: json_field_date_def above_threshold_def sidecar_candidate_def
      MIN_VALID_TIMESTAMP_def split: sum.splits)

lemma get_json_date_eq:
  "get_json_date md =
     first_accepted [above_threshold (sidecar_candidate md ''photoTakenTime'' ''JSON photoTakenTime''),
                     above_threshold (sidecar_candidate md ''creationTime'' ''JSON creationTime'')]"
  by (auto simp: get_json_date_def json_field_date_eq first_accepted_Cons split: option.splits)

lemma system_date_eq:
  "(case first_accepted [above_threshold (ctime_candidate w p), mtime_candidate w p] of
      Some r \<Rightarrow> system_date w p = Inr r
    | None \<Rightarrow> (\<exists>e. getmtime w p = Inl e \<and> system_date w p = Inl e))"
  by (auto simp: system_date_def try_except_def above_threshold_def ctime_candidate_def
      mtime_candidate_def MIN_VALID_TIMESTAMP_def first_accepted_Cons
      split: sum.splits option.splits)

lemma get_valid_timestamp_chain:
  "(case extractor_for_kind w media_path of
      Inl e \<Rightarrow> get_valid_timestamp w metadata media_path = Inl e
    | Inr c \<Rightarrow>
        (case first_accepted (with_sidecar_chain w metadata media_path) of
           Some r \<Rightarrow> get_valid_timestamp w metadata media_path = Inr r
         | None \<Rightarrow> (\<exists>e. getmtime w media_path = Inl e
                       \<and> get_valid_timestamp w metadata media_path = Inl e)))"
proof (cases "extractor_for_kind w media_path")
  case (Inl e)
  then show ?thesis
    by (simp add: get_valid_timestamp_def media_metadata_date_eq)
next
  case (Inr c)
  let ?sys = "[above_threshold (ctime_candidate w media_path), mtime_candidate w media_path]"
  have chain: "first_accepted (with_sidecar_chain w metadata media_path) =
      (case c of
         Some r \<Rightarrow> Some r
       | None \<Rightarrow> (case get_json_date metadata of
                     Some r \<Rightarrow> Some r
                   | None \<Rightarrow> first_accepted ?sys))"
    by (simp add: with_sidecar_chain_def extractor_candidate_def Inr get_json_date_eq
        first_accepted_Cons split: option.splits)
  show ?thesis
    unfolding chain
    using system_date_eq[of w media_path] Inr
    by (simp add: get_valid_timestamp_def media_metadata_date_eq split: option.splits)
qed


lemma get_exif_date_example:
  "get_exif_date (example_world [''/photos/IMG_001.json'', ''/photos/IMG_001.jpg''])
     ''/photos/IMG_001.jpg'' = Inr None"
  by (simp add: get_exif_date_def try_except_def example_world_def)





lemma get_file_date_chain:
  "(case extractor_for_kind w file_path of
      Inl e \<Rightarrow> get_file_date w file_path = Inl e
    | Inr c \<Rightarrow>
        (case first_accepted (without_sidecar_chain w file_path) of
           Some r \<Rightarrow> get_file_date w file_path = Inr r
         | None \<Rightarrow> (\<exists>e. getmtime w file_path = Inl e \<and> get_file_date w file_path = Inl e)))"
  using system_date_eq[of w file_path]
  by (cases "extractor_for_kind w file_path")
    (auto simp: without_sidecar_chain_def extractor_candidate_def get_file_date_def
      media_metadata_date_eq first_accepted_Cons split: option.splits)

subsection \<open>What the resolver without a sidecar reads\<close>


















subsection \<open>The validity threshold\<close>

lemma above_threshold_above:
  "above_threshold c = Some (t, l) \<Longrightarrow> t > 946684800"
  by (cases c) (auto simp: above_threshold_def split: if_splits)

lemma mtime_candidate_label:
  "mtime_candidate w p = Some (t, l) \<Longrightarrow> l = ''File modification time''"
  by (auto simp: mtime_candidate_def split: sum.splits)

lemma extractor_candidate_above:
  "extractor_candidate w p = Some (t, l) \<Longrightarrow> t > 946684800"
  using extractor_for_kind_above[of w p t l]
  by (auto simp: extractor_candidate_def MIN_VALID_TIMESTAMP_def split: sum.splits)

lemma first_accepted_chain_above:
  assumes "first_accepted (with_sidecar_chain w md p) = Some (t, src)"
    and "src \<noteq> ''File modification time''"
  shows "t > 946684800"
proof -
  from assms(1) consider
      "extractor_candidate w p = Some (t, src)"
    | "above_threshold (sidecar_candidate md ''photoTakenTime'' ''JSON photoTakenTime'') = Some (t, src)"
    | "above_threshold (sidecar_candidate md ''creationTime'' ''JSON creationTime'') = Some (t, src)"
    | "above_threshold (ctime_candidate w p) = Some (t, src)"
    | "mtime_candidate w p = Some (t, src)"
    by (simp add: with_sidecar_chain_def first_accepted_Cons split: option.splits)
  then show ?thesis
  proof cases
    case 1
    then show ?thesis by (rule extractor_candidate_above)
  next
    case 5
    then show ?thesis using assms(2) mtime_candidate_label by blast
  qed (auto dest: above_threshold_above)
qed

lemma get_valid_timestamp_above:
  assumes "get_valid_timestamp w md p = Inr (t, src)" "src \<noteq> ''File modification time''"
  shows "t > 946684800"
  using get_valid_timestamp_chain[where w=w and metadata=md and media_path=p] assms
    first_accepted_chain_above[where w=w and md=md and p=p and t=t and src=src]
  by (auto split: option.splits sum.splits)

lemma get_file_date_above:
  assumes "get_file_date w p = Inr (t, src)" "src \<noteq> ''File modification time''"
  shows "t > 946684800"
proof -
  from get_file_date_chain[of w p] assms(1)
  have "first_accepted (without_sidecar_chain w p) = Some (t, src)"
    by (auto split: option.splits sum.splits)
  then consider "extractor_candidate w p = Some (t, src)"
    | "above_threshold (ctime_candidate w p) = Some (t, src)"
    | "mtime_candidate w p = Some (t, src)"
    by (simp add: without_sidecar_chain_def first_accepted_Cons split: option.splits)
  then show ?thesis
  proof cases
    case 1
    then show ?thesis by (rule extractor_candidate_above)
  next
    case 3
    then show ?thesis using assms(2) mtime_candidate_label by blast
  qed (auto dest: above_threshold_above)
qed

lemma exif_tag_try_rejected:
  assumes "strptime_mktime w date_str = Inr t" "t \<le> 946684800"
  shows "exif_tag_try w p tag date_str = Inr None"
  using assms by (simp add: exif_tag_try_def MIN_VALID_TIMESTAMP_def)

lemma system_date_ctime_rejected:
  assumes "getctime w p = Inr t" "t \<le> 946684800"
  shows "system_date w p =
           (case getmtime w p of Inl e \<Rightarrow> Inl e
            | Inr m \<Rightarrow> Inr (m, ''File modification time''))"
  using assms by (simp add: system_date_def try_except_def MIN_VALID_TIMESTAMP_def)

lemma system_date_mtime_unconditional:
  assumes "above_threshold (ctime_candidate w p) = None" "getmtime w p = Inr m"
  shows "system_date w p = Inr (m, ''File modification time'')"
  using assms system_date_eq[of w p]
  by (simp add: first_accepted_Cons mtime_candidate_def)

lemma get_json_date_first_rejected:
  assumes "json_timestamp md ''photoTakenTime'' = Inr n" "real_of_int n \<le> 946684800"
  shows "get_json_date md = json_field_date md ''creationTime'' ''JSON creationTime''"
  using assms by (simp add: get_json_date_def json_field_date_def MIN_VALID_TIMESTAMP_def)

lemma json_field_date_rejected:
  assumes "json_timestamp md field = Inr n" "real_of_int n \<le> 946684800"
  shows "json_field_date md field label = None"
  using assms by (simp add: json_field_date_def MIN_VALID_TIMESTAMP_def)

lemma get_valid_timestamp_falls_to_system:
  assumes "extractor_for_kind w p = Inr None" "get_json_date md = None"
  shows "get_valid_timestamp w md p = system_date w p"
  using assms by (simp add: get_valid_timestamp_def media_metadata_date_eq)

text \<open>
  Claim C2. A candidate \<open>t\<close> at or below 946684800 is rejected wherever it comes from,
  and the resolver goes on with the next source: an EXIF tag value, a video field, a
  stream's creation date (the extractors never return such a value), the sidecar's
  \<^verbatim>\<open>photoTakenTime\<close> (the resolver goes on with \<^verbatim>\<open>creationTime\<close>), its
  \<^verbatim>\<open>creationTime\<close> (the resolver goes on with the file-system times), the file's
  creation time (the resolver goes on with the modification time). The modification
  time is accepted whatever its value, so a result at or below the threshold carries
  the label of the modification time.
\<close>

theorem threshold_rejects_candidates:
  assumes "t \<le> 946684800"
  shows
   "(strptime_mktime w date_str = Inr t \<longrightarrow>
       scan_tag_ids w p tag ((tag_id, date_str) # rest) = scan_tag_ids w p tag rest)
    \<and> (map_of present field = Some (DateValue (Inr t)) \<longrightarrow>
         scan_date_fields w p (field # others) present = scan_date_fields w p others present)
    \<and> (map_of (stream_attrs stream) ''creation_date'' = Some (DateValue (Inr t)) \<longrightarrow>
         scan_streams w p (stream # ss) = scan_streams w p ss)
    \<and> (\<forall>x. get_exif_date w p = Inr (Some x) \<or> get_video_creation_time w p = Inr (Some x)
           \<longrightarrow> x > 946684800)
    \<and> (json_timestamp md ''photoTakenTime'' = Inr n \<and> real_of_int n = t \<longrightarrow>
         get_json_date md = json_field_date md ''creationTime'' ''JSON creationTime'')
    \<and> (json_timestamp md ''creationTime'' = Inr n \<and> real_of_int n = t \<longrightarrow>
         json_field_date md ''creationTime'' ''JSON creationTime'' = None)
    \<and> (extractor_for_kind w p = Inr None \<and> get_json_date md = None \<longrightarrow>
         get_valid_timestamp w md p = system_date w p)
    \<and> (getctime w p = Inr t \<longrightarrow>
         system_date w p =
           (case getmtime w p of Inl e \<Rightarrow> Inl e
            | Inr m \<Rightarrow> Inr (m, ''File modification time'')))
    \<and> (\<forall>m. above_threshold (ctime_candidate w p) = None \<and> getmtime w p = Inr m \<longrightarrow>
           system_date w p = Inr (m, ''File modification time''))
    \<and> (get_valid_timestamp w md p = Inr (t, src) \<longrightarrow> src = ''File modification time'')
    \<and> (get_file_date w p = Inr (t, src) \<longrightarrow> src = ''File modification time'')"
proof (intro conjI impI allI)
  assume "strptime_mktime w date_str = Inr t"
  then show "scan_tag_ids w p tag ((tag_id, date_str) # rest) = scan_tag_ids w p tag rest"
    using exif_tag_try_rejected[OF _ assms] by simp
next
  fix x assume "get_exif_date w p = Inr (Some x) \<or> get_video_creation_time w p = Inr (Some x)"
  then show "x > 946684800"
    using get_exif_date_above[of w p x] get_video_creation_time_above[of w p x]
    by (auto simp: MIN_VALID_TIMESTAMP_def)
next
  assume "get_valid_timestamp w md p = Inr (t, src)"
  then show "src = ''File modification time''"
    using get_valid_timestamp_above[of w md p t src] assms by fastforce
next
  assume "get_file_date w p = Inr (t, src)"
  then show "src = ''File modification time''"
    using get_file_date_above[of w p t src] assms by fastforce
next
  assume "getctime w p = Inr t"
  then show "system_date w p =
           (case getmtime w p of Inl e \<Rightarrow> Inl e
            | Inr m \<Rightarrow> Inr (m, ''File modification time''))"
    using assms by (rule system_date_ctime_rejected)
next
  fix m assume "above_threshold (ctime_candidate w p) = None \<and> getmtime w p = Inr m"
  then show "system_date w p = Inr (m, ''File modification time'')"
    using system_date_mtime_unconditional by blast
next
  assume "json_timestamp md ''photoTakenTime'' = Inr n \<and> real_of_int n = t"
  then show "get_json_date md = json_field_date md ''creationTime'' ''JSON creationTime''"
    using assms get_json_date_first_rejected by blast
next
  assume "json_timestamp md ''creationTime'' = Inr n \<and> real_of_int n = t"
  then show "json_field_date md ''creationTime'' ''JSON creationTime'' = None"
    using assms json_field_date_rejected by blast
next
  assume "extractor_for_kind w p = Inr None \<and> get_json_date md = None"
  then show "get_valid_timestamp w md p = system_date w p"
    using get_valid_timestamp_falls_to_system by blast
qed (use assms in \<open>simp_all add: MIN_VALID_TIMESTAMP_def\<close>)

lemma ext_a_jpg: "lower (snd (splitext ''/photos/a.jpg'')) = ''.jpg''"
  by (simp add: string_defs)

lemma int_of_string_0: "int_of_string ''0'' = Inr 0"
  by (simp add: int_of_string_def strip_def is_space_def parse_unsigned_def digit_value_def)

theorem threshold_rejects_candidates_witness:
  "scan_tag_ids zero_world ''/photos/a.jpg'' ''DateTimeOriginal''
       [(36867, ''1970:01:01 00:00:00'')] = Inr None
   \<and> scan_date_fields zero_world ''/photos/a.jpg'' [''creation_date'']
       [(''creation_date'', DateValue (Inr 0))] = Inr None
   \<and> get_json_date zero_sidecar = None
   \<and> system_date zero_world ''/photos/a.jpg'' = Inr (0, ''File modification time'')
   \<and> get_valid_timestamp zero_world zero_sidecar ''/photos/a.jpg''
       = Inr (0, ''File modification time'')
   \<and> get_file_date zero_world ''/photos/a.jpg'' = Inr (0, ''File modification time'')"
  using threshold_rejects_candidates[where t = 0 and w = zero_world
      and date_str = "''1970:01:01 00:00:00''" and tag = "''DateTimeOriginal''"
      and tag_id = 36867 and rest = "[]"
      and present = "[(''creation_date'', DateValue (Inr 0))]" and field = "''creation_date''"
      and others = "[]"
      and stream = "\<lparr>stream_attrs = [(''creation_date'', DateValue (Inr 0))]\<rparr>" and ss = "[]"
      and md = zero_sidecar and n = 0 and p = "''/photos/a.jpg''"
      and src = "''File modification time''"]
  by (simp add: TAGS_get_def MIN_VALID_TIMESTAMP_def get_json_date_def json_field_date_def
      json_timestamp_def int_of_string_0 system_date_def try_except_def
      get_valid_timestamp_def get_file_date_def media_metadata_date_def ext_a_jpg
      get_exif_date_def exif_tag_try_def example_defs)

subsection \<open>What the extractors and the resolvers raise\<close>

text \<open>
  The extractors catch every exception of their bodies; what leaves them is an
  exception of the \<^verbatim>\<open>print\<close> in a handler.
\<close>

lemma get_exif_date_Inl:
  "get_exif_date w p = Inl e \<Longrightarrow> \<exists>m. e = UnicodeEncodeError m"
  by (auto simp: get_exif_date_def try_except_def split: sum.splits dest: py_print_Inl)

lemma get_video_creation_time_Inl:
  "get_video_creation_time w p = Inl e \<Longrightarrow> \<exists>m. e = UnicodeEncodeError m"
  by (auto simp: get_video_creation_time_def try_except_def split: sum.splits
      dest: py_print_Inl)

lemma get_exif_date_total:
  assumes "prints_everything w"
  shows "\<exists>r. get_exif_date w p = Inr r"
  by (auto simp: get_exif_date_def try_except_def py_print_everything[OF assms]
      split: sum.splits)

lemma get_video_creation_time_total:
  assumes "prints_everything w"
  shows "\<exists>r. get_video_creation_time w p = Inr r"
  by (auto simp: get_video_creation_time_def try_except_def py_print_everything[OF assms]
      split: sum.splits)

lemma extractor_for_kind_total:
  assumes "prints_everything w"
  shows "\<exists>c. extractor_for_kind w p = Inr c"
  using get_exif_date_total[OF assms, of p] get_video_creation_time_total[OF assms, of p]
  by (auto simp: extractor_for_kind_def Let_def split: option.splits)

lemma get_valid_timestamp_Inl:
  assumes "prints_everything w" "get_valid_timestamp w md p = Inl e"
  shows "getmtime w p = Inl e"
  using get_valid_timestamp_chain[where w=w and metadata=md and media_path=p] assms(2)
    extractor_for_kind_total[OF assms(1), of p]
  by (auto split: option.splits)

lemma get_file_date_Inl:
  assumes "prints_everything w" "get_file_date w p = Inl e"
  shows "getmtime w p = Inl e"
  using get_file_date_chain[of w p] assms(2) extractor_for_kind_total[OF assms(1), of p]
  by (auto split: option.splits)

lemma mtime_gives_result:
  assumes "prints_everything w" "getmtime w p = Inr m"
  shows "(\<exists>r. get_valid_timestamp w md p = Inr r) \<and> (\<exists>r. get_file_date w p = Inr r)"
proof -
  have "\<not> (\<exists>e. get_valid_timestamp w md p = Inl e)"
    using get_valid_timestamp_Inl[OF assms(1), of md p] assms(2) by auto
  moreover have "\<not> (\<exists>e. get_file_date w p = Inl e)"
    using get_file_date_Inl[OF assms(1), of p] assms(2) by auto
  ultimately show ?thesis
    by (metis sum.exhaust)
qed

text \<open>
  Claim C8, as amended. Where standard output can write every character, both
  extractors return for every input, never an exception; each resolver returns a pair
  whenever the file's modification time can be read, and when a resolver raises, the
  exception is the one \<^verbatim>\<open>os.path.getmtime\<close> raised, the only unguarded call of the
  chain.
\<close>

theorem extractors_total_resolver_needs_mtime:
  assumes "prints_everything w"
  shows
   "(\<exists>r. get_exif_date w p = Inr r) \<and> (\<exists>r. get_video_creation_time w p = Inr r)
    \<and> (\<forall>m. getmtime w p = Inr m \<longrightarrow>
           (\<exists>r. get_valid_timestamp w md p = Inr r) \<and> (\<exists>r. get_file_date w p = Inr r))
    \<and> (\<forall>e. get_valid_timestamp w md p = Inl e \<longrightarrow> getmtime w p = Inl e)
    \<and> (\<forall>e. get_file_date w p = Inl e \<longrightarrow> getmtime w p = Inl e)"
  using get_exif_date_total[OF assms, of p] get_video_creation_time_total[OF assms, of p]
    mtime_gives_result[OF assms, of p _ md] get_valid_timestamp_Inl[OF assms, of md p]
    get_file_date_Inl[OF assms, of p]
  by blast

lemma prints_everything_examples:
  "prints_everything zero_world" "prints_everything dangling_world"
  "prints_everything (example_world files)"
  by (simp_all add: prints_everything_def zero_world_def dangling_world_def example_world_def)

lemma getmtime_zero: "getmtime zero_world p = Inr 0"
  by (simp add: zero_world_def)

theorem extractors_total_resolver_needs_mtime_witness:
  "prints_everything zero_world
   \<and> (\<exists>r. get_valid_timestamp zero_world zero_sidecar ''/photos/a.jpg'' = Inr r)
   \<and> (\<exists>r. get_file_date zero_world ''/photos/a.jpg'' = Inr r)
   \<and> (\<exists>r. get_exif_date dangling_world ''/photos/old_IMG.jpg'' = Inr r)"
  using extractors_total_resolver_needs_mtime[OF prints_everything_examples(1),
      of "''/photos/a.jpg''" zero_sidecar]
    extractors_total_resolver_needs_mtime[OF prints_everything_examples(2),
      of "''/photos/old_IMG.jpg''" dangling_sidecar]
  by (simp add: prints_everything_examples getmtime_zero)

lemma ext_old_IMG: "lower (snd (splitext ''/photos/old_IMG.jpg'')) = ''.jpg''"
  by (simp add: string_defs)

lemma splitext_IMG_json: "splitext ''/photos/IMG.json'' = (''/photos/IMG'', ''.json'')"
  by (simp add: string_defs)

lemma dirname_IMG_json: "dirname ''/photos/IMG.json'' = ''/photos''"
  by (simp add: string_defs)

lemma splitext_IMG_jpg: "splitext ''IMG.jpg'' = (''IMG'', ''.jpg'')"
  by (simp add: string_defs)

lemma dangling_link_is_matched:
  "find_media_file dangling_world ''/photos/IMG.json'' (JStr ''IMG.jpg'') = Inr ''/photos/old_IMG.jpg''"
  by (simp add: find_media_file_def splitext_IMG_json dirname_IMG_json splitext_IMG_jpg
      dangling_world_def dangling_sidecar_def PHOTO_EXTENSIONS_def VIDEO_EXTENSIONS_def
      ALL_MEDIA_EXTENSIONS_def lower_def lower_char_def upper_def upper_char_def
      ascii_uppercase_def ascii_lowercase_def startswith_def endswith_def join_def join2_def)

lemma get_exif_date_dangling:
  "get_exif_date dangling_world ''/photos/old_IMG.jpg'' = Inr None"
  by (simp add: get_exif_date_def try_except_def py_print_def printable_def dangling_world_def)

lemma dangling_link_has_no_timestamp:
  "get_valid_timestamp dangling_world dangling_sidecar ''/photos/old_IMG.jpg''
     = Inl (OSError ''No such file or directory'')"
proof -
  have c: "getctime dangling_world ''/photos/old_IMG.jpg'' = Inl (OSError ''No such file or directory'')"
    and m: "getmtime dangling_world ''/photos/old_IMG.jpg'' = Inl (OSError ''No such file or directory'')"
    by (simp_all add: dangling_world_def)
  show ?thesis
    by (simp add: get_valid_timestamp_def media_metadata_date_def ext_old_IMG
        get_exif_date_dangling get_json_date_def json_field_date_def json_timestamp_def
        system_date_def try_except_def c m dangling_sidecar_def PHOTO_EXTENSIONS_def)
qed

text \<open>
  Claim C8 as stated fails: the matcher's glob tier returns a dangling symbolic link,
  the extractor returns nothing, no source before the modification time is accepted,
  and reading the modification time raises, so the resolver returns no pair. Standard
  output writes every character here.
\<close>

theorem resolver_can_fail:
  "prints_everything dangling_world
   \<and> get_exif_date dangling_world ''/photos/old_IMG.jpg'' = Inr None
   \<and> get_valid_timestamp dangling_world dangling_sidecar ''/photos/old_IMG.jpg''
       = Inl (OSError ''No such file or directory'')
   \<and> \<not> (\<exists>r. get_valid_timestamp dangling_world dangling_sidecar ''/photos/old_IMG.jpg'' = Inr r)"
  by (simp add: dangling_link_has_no_timestamp get_exif_date_dangling
      prints_everything_examples)

lemma sidecar_of_dangling_link_fails:
  "process_json_file dangling_world ''/photos/IMG.json''
     = Inl (OSError ''No such file or directory'')"
proof -
  have l: "json_load dangling_world ''/photos/IMG.json'' = Inr dangling_sidecar"
    by (simp add: dangling_world_def)
  have g: "getitem dangling_sidecar ''title'' = Inr (JStr ''IMG.jpg'')"
    by (simp add: dangling_sidecar_def)
  show ?thesis
    by (simp add: process_json_file_def l g dangling_link_is_matched
        dangling_link_has_no_timestamp)
qed

section \<open>Properties of the driver\<close>

subsection \<open>The lines printed for a file\<close>

text \<open>
  The line that reports a move is made of characters of a line the same step has
  printed before the moves: it cannot raise after the counters are updated.
\<close>

lemma process_json_file_printable:
  assumes "process_json_file w json_path = Inr (target_path, media_ext, media_path)"
  shows "printable w media_path \<and> printable w target_path"
proof -
  from assms obtain timestamp source u where
      p: "print_date_for w (''Using '' @ source @ '' date '') timestamp media_path = Inr u"
      and t: "get_target_path w timestamp media_path = Inr (target_path, media_ext)"
    by (auto simp: process_json_file_def split: sum.splits prod.splits)
  have m: "printable w media_path"
    using print_date_for_Inr[OF p] by blast
  then show ?thesis
    using get_target_path_printable[OF t] by blast
qed

lemma process_media_without_json_printable:
  assumes "process_media_without_json w media_path = Inr (target_path, media_ext)"
  shows "printable w media_path \<and> printable w target_path"
proof -
  from assms obtain timestamp source u where
      p: "print_date_for w (''Using '' @ source @ '' date '') timestamp media_path = Inr u"
      and t: "get_target_path w timestamp media_path = Inr (target_path, media_ext)"
    by (auto simp: process_media_without_json_def split: sum.splits prod.splits)
  have m: "printable w media_path"
    using print_date_for_Inr[OF p] by blast
  then show ?thesis
    using get_target_path_printable[OF t] by blast
qed

lemma moved_with_json_is_printed:
  assumes "process_json_file w json_path = Inr (target_path, media_ext, media_path)"
  shows "py_print w (''Moved (with JSON) '' @ basename media_path @ '' to '' @ target_path) = Inr ()"
proof -
  have "printable w (basename media_path)" "printable w target_path"
    using process_json_file_printable[OF assms] printable_subset[OF set_basename] by blast+
  moreover have "printable w ''Moved (with JSON) ''" "printable w '' to ''"
    by (simp_all add: printable_def is_ascii_def)
  ultimately show ?thesis
    by (simp only: py_print_def printable_append simp_thms if_True)
qed

lemma moved_without_json_is_printed:
  assumes "process_media_without_json w (join root_dir [file_name]) = Inr (target_path, media_ext)"
  shows "py_print w (''Moved (without JSON) '' @ file_name @ '' to '' @ target_path) = Inr ()"
proof -
  have "printable w (join2 root_dir file_name)" and t: "printable w target_path"
    using process_media_without_json_printable[OF assms] by (simp_all add: join_def)
  then have "printable w file_name"
    using printable_subset[OF set_join2_right] by blast
  moreover have "printable w ''Moved (without JSON) ''" "printable w '' to ''"
    by (simp_all add: printable_def is_ascii_def)
  ultimately show ?thesis
    using t by (simp only: py_print_def printable_append simp_thms if_True)
qed

subsection \<open>Statistics\<close>

lemma json_file_try_counters:
  assumes "json_file_try sys t r st f = (st', res)"
  shows "(res \<noteq> None \<longrightarrow> counters st' = counters st) \<and>
     (res = None \<longrightarrow> (\<exists>ext. counters st' = count_with_json ext (counters st)))"
proof (cases "process_json_file (view sys (filesystem st)) (join r [f])")
  case (Inl e)
  then show ?thesis using assms by (auto simp: json_file_try_def)
next
  case (Inr x)
  obtain tp ext mp where x: "x = (tp, ext, mp)" by (cases x)
  have pr: "py_print (view sys (filesystem st))
              (''Moved (with JSON) '' @ basename mp @ '' to '' @ tp) = Inr ()"
    using moved_with_json_is_printed Inr x by blast
  show ?thesis
    using assms unfolding json_file_try_def Let_def Inr x sum.case prod.case pr
    by (auto split: prod.splits option.splits)
qed

lemma media_file_try_counters:
  assumes "media_file_try sys t r st f = (st', res)"
  shows "(res \<noteq> None \<longrightarrow> counters st' = counters st) \<and>
     (res = None \<longrightarrow> (\<exists>ext. counters st' = count_without_json ext (counters st)))"
proof (cases "process_media_without_json (view sys (filesystem st)) (join r [f])")
  case (Inl e)
  then show ?thesis using assms by (auto simp: media_file_try_def)
next
  case (Inr x)
  obtain tp ext where x: "x = (tp, ext)" by (cases x)
  have pr: "py_print (view sys (filesystem st))
              (''Moved (without JSON) '' @ f @ '' to '' @ tp) = Inr ()"
    using moved_without_json_is_printed Inr x by blast
  show ?thesis
    using assms unfolding media_file_try_def Let_def Inr x sum.case prod.case pr
    by (auto split: prod.splits option.splits)
qed

lemma inv_count_with_json: "stats_invariant s \<Longrightarrow> stats_invariant (count_with_json ext s)"
  by (simp add: stats_invariant_def count_with_json_def count_kind_def)

lemma inv_count_without_json: "stats_invariant s \<Longrightarrow> stats_invariant (count_without_json ext s)"
  by (simp add: stats_invariant_def count_without_json_def count_kind_def)

lemma counters_count_error:
  "counters (count_error st) = (counters st)\<lparr>errors := errors (counters st) + 1\<rparr>"
  by (simp add: count_error_def)

lemma counters_error_handler:
  "counters (error_handler w f e st) = (counters st)\<lparr>errors := errors (counters st) + 1\<rparr>"
  by (simp add: error_handler_def count_error_def split: sum.splits)

lemma inv_errors: "stats_invariant s \<Longrightarrow> stats_invariant (s\<lparr>errors := n\<rparr>)"
  by (simp add: stats_invariant_def)

lemma json_file_step_inv:
  assumes "stats_invariant (counters st)"
  shows "stats_invariant (counters (json_file_step sys t r st f))"
proof (cases "endswith f ''.json''")
  case False
  then show ?thesis using assms by (simp add: json_file_step_def)
next
  case True
  obtain st' res where tr: "json_file_try sys t r st f = (st', res)"
    by (cases "json_file_try sys t r st f")
  show ?thesis
  proof (cases res)
    case None
    then obtain ext where "counters st' = count_with_json ext (counters st)"
      using json_file_try_counters[OF tr] by auto
    then show ?thesis
      using True tr None assms by (simp add: json_file_step_def inv_count_with_json)
  next
    case (Some e)
    then have "counters st' = counters st"
      using json_file_try_counters[OF tr] by auto
    then show ?thesis
      using True tr Some assms
      by (simp add: json_file_step_def counters_error_handler inv_errors)
  qed
qed

lemma media_file_step_inv:
  assumes "stats_invariant (counters st)"
  shows "stats_invariant (counters (media_file_step sys t r st f))"
proof (cases "lower (join r [f]) \<notin> processed_media_files st
              \<and> lower (snd (splitext f)) \<in> set ALL_MEDIA_EXTENSIONS")
  case False
  then show ?thesis using assms by (auto simp: media_file_step_def Let_def)
next
  case True
  obtain st' res where tr: "media_file_try sys t r st f = (st', res)"
    by (cases "media_file_try sys t r st f")
  show ?thesis
  proof (cases res)
    case None
    then obtain ext where "counters st' = count_without_json ext (counters st)"
      using media_file_try_counters[OF tr] by auto
    then show ?thesis
      using True tr None assms by (simp add: media_file_step_def inv_count_without_json)
  next
    case (Some e)
    then have "counters st' = counters st"
      using media_file_try_counters[OF tr] by auto
    then show ?thesis
      using True tr Some assms
      by (simp add: media_file_step_def counters_error_handler inv_errors)
  qed
qed

lemma json_file_step_failed:
  assumes "endswith f ''.json''" "snd (json_file_try sys t r st f) \<noteq> None"
  shows "counters (json_file_step sys t r st f)
           = (counters st)\<lparr>errors := errors (counters st) + 1\<rparr>"
proof -
  obtain st' res where tr: "json_file_try sys t r st f = (st', res)"
    by (cases "json_file_try sys t r st f")
  with assms(2) obtain e where res: "res = Some e" by auto
  then have "counters st' = counters st"
    using json_file_try_counters[OF tr] by auto
  then show ?thesis
    using assms(1) tr res by (simp add: json_file_step_def counters_error_handler)
qed

lemma media_file_step_failed:
  assumes "lower (join r [f]) \<notin> processed_media_files st"
    "lower (snd (splitext f)) \<in> set ALL_MEDIA_EXTENSIONS"
    "snd (media_file_try sys t r st f) \<noteq> None"
  shows "counters (media_file_step sys t r st f)
           = (counters st)\<lparr>errors := errors (counters st) + 1\<rparr>"
proof -
  obtain st' res where tr: "media_file_try sys t r st f = (st', res)"
    by (cases "media_file_try sys t r st f")
  with assms(3) obtain e where res: "res = Some e" by auto
  then have "counters st' = counters st"
    using media_file_try_counters[OF tr] by auto
  then show ?thesis
    using assms(1,2) tr res by (simp add: media_file_step_def counters_error_handler)
qed

text \<open>
  Claim C10. Each per-file step of either pass keeps both equalities of the statistics
  (processed = with JSON + without JSON, processed = photos + videos), and a file whose
  \<^verbatim>\<open>try\<close> block raises changes the counters by one more error and nothing else. This
  holds whatever standard output can write: the lines that can fail on a file name are
  printed before the counters are updated, and the line printed after them cannot fail
  where those have passed.
\<close>

theorem statistics_invariant_per_file:
  assumes "stats_invariant (counters st)"
  shows
   "stats_invariant (counters (json_file_step sys target_dir root_dir st file))
    \<and> stats_invariant (counters (media_file_step sys target_dir root_dir st file))
    \<and> (endswith file ''.json''
         \<and> snd (json_file_try sys target_dir root_dir st file) \<noteq> None \<longrightarrow>
        counters (json_file_step sys target_dir root_dir st file)
          = (counters st)\<lparr>errors := errors (counters st) + 1\<rparr>)
    \<and> (lower (join root_dir [file]) \<notin> processed_media_files st
         \<and> lower (snd (splitext file)) \<in> set ALL_MEDIA_EXTENSIONS
         \<and> snd (media_file_try sys target_dir root_dir st file) \<noteq> None \<longrightarrow>
        counters (media_file_step sys target_dir root_dir st file)
          = (counters st)\<lparr>errors := errors (counters st) + 1\<rparr>)"
  using json_file_step_inv[OF assms] media_file_step_inv[OF assms]
    json_file_step_failed[where f = "file" and sys = sys and t = target_dir and r = root_dir
      and st = st]
    media_file_step_failed[where f = "file" and sys = sys and t = target_dir and r = root_dir
      and st = st]
  by blast

lemma view_example: "view example_os files = example_world files"
  by (simp add: view_def example_os_def example_world_def)

lemma json_gone_fails:
  "snd (json_file_try example_os ''/out'' ''/photos'' (example_state []) ''gone.json'') \<noteq> None"
  by (simp add: json_file_try_def process_json_file_def view_example example_state_def
      example_world_def join_def join2_def startswith_def endswith_def)

lemma media_gone_fails:
  "snd (media_file_try example_os ''/out'' ''/photos'' (example_state []) ''gone.jpg'') \<noteq> None"
  by (simp add: media_file_try_def process_media_without_json_def get_file_date_def
      media_metadata_date_def get_exif_date_def try_except_def py_print_def printable_def
      system_date_def view_example example_state_def example_world_def
      PHOTO_EXTENSIONS_def string_defs)

theorem statistics_invariant_per_file_witness:
  "stats_invariant (counters (example_state []))
   \<and> counters (json_file_step example_os ''/out'' ''/photos'' (example_state []) ''gone.json'')
       = initial_stats\<lparr>errors := 1\<rparr>
   \<and> counters (media_file_step example_os ''/out'' ''/photos'' (example_state []) ''gone.jpg'')
       = initial_stats\<lparr>errors := 1\<rparr>"
  using statistics_invariant_per_file[of "example_state []" example_os "''/out''" "''/photos''"
      "''gone.json''"]
    statistics_invariant_per_file[of "example_state []" example_os "''/out''" "''/photos''"
      "''gone.jpg''"]
    json_gone_fails media_gone_fails
  by (simp add: stats_invariant_def example_state_def initial_stats_def string_defs
      ALL_MEDIA_EXTENSIONS_def PHOTO_EXTENSIONS_def VIDEO_EXTENSIONS_def)

text \<open>The equalities hold at the end of every run, however it ends.\<close>

lemma run_loop_invariant:
  assumes "P s" "\<And>s x. P s \<Longrightarrow> P (body s x)"
  shows "P (run_loop body s xs)"
  using assms(1) by (induction xs arbitrary: s) (simp_all add: assms(2))

lemma pass1_directory_inv:
  assumes "stats_invariant (counters st)"
  shows "stats_invariant (counters (pass1_directory sys t st entry))"
proof (cases entry)
  case (Pair r files)
  have "stats_invariant (counters (run_loop (json_file_step sys t r) st files))"
    by (rule run_loop_invariant[where P = "\<lambda>s. stats_invariant (counters s)"])
      (simp_all add: assms json_file_step_inv)
  then show ?thesis
    using assms Pair by (simp add: pass1_directory_def stats_invariant_def)
qed

lemma pass2_directory_inv:
  assumes "stats_invariant (counters st)"
  shows "stats_invariant (counters (pass2_directory sys t st entry))"
proof (cases entry)
  case (Pair r files)
  have "stats_invariant (counters (run_loop (media_file_step sys t r) st files))"
    by (rule run_loop_invariant[where P = "\<lambda>s. stats_invariant (counters s)"])
      (simp_all add: assms media_file_step_inv)
  then show ?thesis
    using assms Pair by (simp add: pass2_directory_def)
qed

lemma organize_media_inv:
  "stats_invariant (counters (organize_media sys cwd source_dir target_dir walk1 walk2 fs0))"
proof -
  let ?P = "\<lambda>s. stats_invariant (counters s)"
  let ?st0 = "\<lparr>counters = initial_stats, processed_media_files = {}, filesystem = fs0,
                raised = None\<rparr>"
  have 0: "stats_invariant initial_stats"
    by (simp add: stats_invariant_def initial_stats_def)
  have 1: "?P (run_loop (pass1_directory sys (abspath cwd target_dir)) ?st0 walk1)"
    by (rule run_loop_invariant[where P = ?P]) (simp_all add: 0 pass1_directory_inv)
  have 2: "?P (run_loop (pass2_directory sys (abspath cwd target_dir))
                 (run_loop (pass1_directory sys (abspath cwd target_dir)) ?st0 walk1) walk2)"
    by (rule run_loop_invariant[where P = ?P]) (simp_all add: 1 pass2_directory_inv)
  show ?thesis
    using 0 2 unfolding organize_media_def Let_def
    by (auto split: sum.splits)
qed

subsection \<open>The matcher's tiers\<close>

lemma same_name_match_None:
  "same_name_match w base exts = None \<longleftrightarrow>
     (\<forall>ext\<in>set exts. \<not> path_exists w (base @ lower ext) \<and> \<not> path_exists w (base @ upper ext))"
  by (induction exts) auto

lemma title_match_None:
  "title_match w dir stem exts = None \<longleftrightarrow>
     (\<forall>ext\<in>set exts. \<not> path_exists w (join dir [stem @ ext]))"
  by (induction exts) (auto simp: Let_def)

lemma glob_match_None:
  "glob_match w dir stem exts = None \<longleftrightarrow>
     (\<forall>ext\<in>set exts. glob_glob w (join dir [''*'' @ stem @ ''*'' @ ext]) = [])"
  by (induction exts) (auto split: list.splits)

lemma same_name_match_Some:
  "same_name_match w base exts = Some found \<Longrightarrow>
     \<exists>ext\<in>set exts. found = base @ lower ext
        \<and> (path_exists w (base @ lower ext) \<or> path_exists w (base @ upper ext))"
  by (induction exts) (auto split: if_splits)

lemma title_match_Some:
  "title_match w dir stem exts = Some found \<Longrightarrow>
     \<exists>ext\<in>set exts. found = join dir [stem @ ext] \<and> path_exists w found"
  by (induction exts) (auto simp: Let_def split: if_splits)

lemma glob_match_Some:
  "glob_match w dir stem exts = Some found \<Longrightarrow>
     \<exists>ext\<in>set exts. \<exists>ms. glob_glob w (join dir [''*'' @ stem @ ''*'' @ ext]) = found # ms"
  by (induction exts) (auto split: list.splits)

text \<open>The tiers are tried in order and the first hit is returned.\<close>

lemma find_media_file_tiers:
  "find_media_file w json_path (JStr title) =
     (case same_name_match w (fst (splitext json_path)) (media_order w) of
        Some found \<Rightarrow> Inr found
      | None \<Rightarrow>
          (case title_match w (dirname json_path) (fst (splitext title)) (media_order w) of
             Some found \<Rightarrow> Inr found
           | None \<Rightarrow>
               (case glob_match w (dirname json_path) (fst (splitext title)) (media_order w) of
                  Some found \<Rightarrow> Inr found
                | None \<Rightarrow> Inl (FileNotFoundError (not_found_message json_path title)))))"
  by (simp add: find_media_file_def Let_def split: option.splits)

lemma find_media_file_same_name_first:
  "same_name_match w (fst (splitext json_path)) (media_order w) = Some found
     \<Longrightarrow> find_media_file w json_path title = Inr found"
  by (simp add: find_media_file_def Let_def)

lemma find_media_file_not_found:
  assumes "no_tier_matches w json_path title"
  shows "find_media_file w json_path (JStr title)
           = Inl (FileNotFoundError (not_found_message json_path title))"
proof -
  have 1: "same_name_match w (fst (splitext json_path)) (media_order w) = None"
    using assms unfolding same_name_match_None no_tier_matches_def Let_def by blast
  have 2: "title_match w (dirname json_path) (fst (splitext title)) (media_order w) = None"
    using assms unfolding title_match_None no_tier_matches_def Let_def by blast
  have 3: "glob_match w (dirname json_path) (fst (splitext title)) (media_order w) = None"
    using assms unfolding glob_match_None no_tier_matches_def Let_def by blast
  show ?thesis
    by (simp add: find_media_file_tiers 1 2 3)
qed

text \<open>
  A string title is needed for the last two tiers: for any other title, and no hit in
  the first tier, \<^verbatim>\<open>os.path.splitext(title)\<close> raises a \<^verbatim>\<open>TypeError\<close>.
\<close>

lemma find_media_file_title_not_a_string:
  assumes "same_name_match w (fst (splitext json_path)) (media_order w) = None"
    and "\<forall>t. title \<noteq> JStr t"
  shows "find_media_file w json_path title
           = Inl (TypeError ''expected str, bytes or os.PathLike object'')"
  using assms by (cases title) (simp_all add: find_media_file_def Let_def)

lemma json_file_step_not_found:
  assumes "endswith file ''.json''"
    and "json_load (view sys (filesystem st)) (join root_dir [file]) = Inr metadata"
    and "getitem metadata ''title'' = Inr (JStr title)"
    and "no_tier_matches (view sys (filesystem st)) (join root_dir [file]) title"
  shows "json_file_step sys target_dir root_dir st file
           = error_handler (view sys (filesystem st)) file
               (FileNotFoundError (not_found_message (join root_dir [file]) title)) st"
proof -
  have "process_json_file (view sys (filesystem st)) (join root_dir [file])
          = Inl (FileNotFoundError (not_found_message (join root_dir [file]) title))"
    using assms(2,3) find_media_file_not_found[OF assms(4)]
    by (simp add: process_json_file_def)
  then show ?thesis
    using assms(1) by (simp add: json_file_step_def json_file_try_def)
qed

lemma not_found_line_printable:
  assumes "printable w (join root_dir [file_name])" "printable w title"
  shows "py_print w (''Error processing '' @ file_name @ '': ''
                       @ str_exn (FileNotFoundError
                                    (not_found_message (join root_dir [file_name]) title)))
           = Inr ()"
proof -
  have "printable w (join2 root_dir file_name)"
    using assms(1) by (simp add: join_def)
  then have f: "printable w file_name"
    using printable_subset[OF set_join2_right] by blast
  have lit: "printable w ''Error processing ''" "printable w '': ''"
    "printable w ''No media file found for ''" "printable w '' (title: ''" "printable w '')''"
    by (simp_all add: printable_def is_ascii_def)
  show ?thesis
    using assms f lit
    by (simp only: py_print_def str_exn.simps not_found_message_def printable_append
        simp_thms if_True)
qed

text \<open>
  Claim C7, as amended. When no tier matches for a sidecar whose title is a string, the
  matcher raises an error whose message carries the sidecar's path and the title (the
  source raises the built-in \<^verbatim>\<open>FileNotFoundError\<close>). In the driver, where standard
  output can write the sidecar's path and the title, such a sidecar changes nothing but
  the error counter: the file system and the set of claimed media files are as before,
  no exception leaves the handler, and the loop goes on with the remaining files of the
  directory.
\<close>

theorem media_not_found_skips_one_sidecar:
  assumes "no_tier_matches w json_path title"
  shows
   "find_media_file w json_path (JStr title)
      = Inl (FileNotFoundError
               (''No media file found for '' @ json_path @ '' (title: '' @ title @ '')''))
    \<and> (w = view sys (filesystem st) \<and> json_path = join root_dir [file_name]
        \<and> endswith file_name ''.json'' \<and> json_load w json_path = Inr metadata
        \<and> getitem metadata ''title'' = Inr (JStr title)
        \<and> printable w json_path \<and> printable w title \<longrightarrow>
          json_file_step sys target_dir root_dir st file_name
            = st\<lparr>counters := (counters st)\<lparr>errors := errors (counters st) + 1\<rparr>\<rparr>
          \<and> (raised st = None \<longrightarrow>
               run_loop (json_file_step sys target_dir root_dir) st (file_name # files)
                 = run_loop (json_file_step sys target_dir root_dir)
                     (st\<lparr>counters := (counters st)\<lparr>errors := errors (counters st) + 1\<rparr>\<rparr>)
                     files))"
proof (intro conjI impI)
  show "find_media_file w json_path (JStr title)
      = Inl (FileNotFoundError
               (''No media file found for '' @ json_path @ '' (title: '' @ title @ '')''))"
    using find_media_file_not_found[OF assms] by (simp add: not_found_message_def)
next
  assume a: "w = view sys (filesystem st) \<and> json_path = join root_dir [file_name]
        \<and> endswith file_name ''.json'' \<and> json_load w json_path = Inr metadata
        \<and> getitem metadata ''title'' = Inr (JStr title)
        \<and> printable w json_path \<and> printable w title"
  then have w: "w = view sys (filesystem st)" and jp: "json_path = join root_dir [file_name]"
    and e: "endswith file_name ''.json''" and l: "json_load w json_path = Inr metadata"
    and g: "getitem metadata ''title'' = Inr (JStr title)"
    and pj: "printable w json_path" and pt: "printable w title"
    by blast+
  have "json_file_step sys target_dir root_dir st file_name
          = error_handler (view sys (filesystem st)) file_name
              (FileNotFoundError (not_found_message (join root_dir [file_name]) title)) st"
    by (rule json_file_step_not_found[OF e l[unfolded w jp] g assms[unfolded w jp]])
  then have step: "json_file_step sys target_dir root_dir st file_name = count_error st"
    unfolding error_handler_def
      not_found_line_printable[OF pj[unfolded w jp] pt[unfolded w]]
    by simp
  then show s: "json_file_step sys target_dir root_dir st file_name
            = st\<lparr>counters := (counters st)\<lparr>errors := errors (counters st) + 1\<rparr>\<rparr>"
    by (simp add: count_error_def)
  assume "raised st = None"
  then show "run_loop (json_file_step sys target_dir root_dir) st (file_name # files)
            = run_loop (json_file_step sys target_dir root_dir)
                (st\<lparr>counters := (counters st)\<lparr>errors := errors (counters st) + 1\<rparr>\<rparr>) files"
    using s by simp
qed

lemma splitext_IMG_001_json:
  "splitext ''/photos/IMG_001.json'' = (''/photos/IMG_001'', ''.json'')"
  by (simp add: string_defs)

lemma dirname_IMG_001_json: "dirname ''/photos/IMG_001.json'' = ''/photos''"
  by (simp add: string_defs)

lemma splitext_IMG_001_jpg: "splitext ''IMG_001.jpg'' = (''IMG_001'', ''.jpg'')"
  by (simp add: string_defs)

lemma join_photos_IMG_001_json: "join ''/photos'' [''IMG_001.json''] = ''/photos/IMG_001.json''"
  by (simp add: string_defs)

lemma lonely_sidecar_no_tier:
  "no_tier_matches (example_world [''/photos/IMG_001.json'']) ''/photos/IMG_001.json''
     ''IMG_001.jpg''"
  by (simp add: no_tier_matches_def splitext_IMG_001_json dirname_IMG_001_json
      splitext_IMG_001_jpg example_world_def PHOTO_EXTENSIONS_def VIDEO_EXTENSIONS_def
      ALL_MEDIA_EXTENSIONS_def lower_def lower_char_def upper_def upper_char_def
      ascii_uppercase_def ascii_lowercase_def startswith_def endswith_def join_def join2_def)

lemma printable_example: "printable (example_world files) s"
  by (simp add: printable_def example_world_def list_all_iff)

theorem media_not_found_skips_one_sidecar_witness:
  "find_media_file (example_world [''/photos/IMG_001.json'']) ''/photos/IMG_001.json''
      (JStr ''IMG_001.jpg'')
     = Inl (FileNotFoundError
              ''No media file found for /photos/IMG_001.json (title: IMG_001.jpg)'')
   \<and> json_file_step example_os ''/out'' ''/photos'' (example_state [''/photos/IMG_001.json''])
        ''IMG_001.json''
     = \<lparr>counters = initial_stats\<lparr>errors := 1\<rparr>, processed_media_files = {},
        filesystem = [''/photos/IMG_001.json''], raised = None\<rparr>"
  using media_not_found_skips_one_sidecar[OF lonely_sidecar_no_tier,
      where sys = example_os and st = "example_state [''/photos/IMG_001.json'']"
        and root_dir = "''/photos''" and file_name = "''IMG_001.json''" and metadata = sidecar_2021
        and target_dir = "''/out''" and files = "[]"]
  by (simp add: join_photos_IMG_001_json view_example printable_example example_state_def
      initial_stats_def endswith_def sidecar_2021_def)
    (simp add: example_world_def sidecar_2021_def)

text \<open>
  A sidecar whose title standard output cannot write, and no media file beside it.
\<close>

lemma view_strict: "view strict_os files = strict_world files"
  by (simp add: view_def strict_os_def strict_world_def example_os_def)

lemma splitext_unprintable_name:
  "splitext unprintable_name = (''IMG_'' @ [CHR 0xFF], ''.jpg'')"
  by (simp add: unprintable_name_def string_defs)

lemma unprintable_sidecar_no_tier:
  "no_tier_matches (strict_world [''/photos/IMG_001.json'']) ''/photos/IMG_001.json''
     unprintable_name"
  by (simp add: no_tier_matches_def splitext_IMG_001_json dirname_IMG_001_json
      splitext_unprintable_name strict_world_def example_world_def PHOTO_EXTENSIONS_def
      VIDEO_EXTENSIONS_def ALL_MEDIA_EXTENSIONS_def lower_def lower_char_def upper_def
      upper_char_def ascii_uppercase_def ascii_lowercase_def startswith_def endswith_def
      join_def join2_def)

lemma unprintable_line:
  "py_print (strict_world files)
     (''Error processing '' @ ''IMG_001.json'' @ '': ''
        @ str_exn (FileNotFoundError (not_found_message ''/photos/IMG_001.json'' unprintable_name)))
     = Inl (UnicodeEncodeError ''codec cannot encode character'')"
  by (simp add: py_print_def printable_def not_found_message_def unprintable_name_def
      strict_world_def is_ascii_def)

lemma unprintable_sidecar_step:
  "json_file_step strict_os ''/out'' ''/photos'' (example_state [''/photos/IMG_001.json''])
      ''IMG_001.json''
     = \<lparr>counters = initial_stats\<lparr>errors := 1\<rparr>, processed_media_files = {},
        filesystem = [''/photos/IMG_001.json''],
        raised = Some (UnicodeEncodeError ''codec cannot encode character'')\<rparr>"
proof -
  let ?st = "example_state [''/photos/IMG_001.json'']"
  have fs: "filesystem ?st = [''/photos/IMG_001.json'']"
    by (simp add: example_state_def)
  have l: "json_load (view strict_os (filesystem ?st)) (join ''/photos'' [''IMG_001.json''])
             = Inr unprintable_sidecar"
    by (simp add: fs view_strict join_photos_IMG_001_json strict_world_def)
  have g: "getitem unprintable_sidecar ''title'' = Inr (JStr unprintable_name)"
    by (simp add: unprintable_sidecar_def)
  have n: "no_tier_matches (view strict_os (filesystem ?st)) (join ''/photos'' [''IMG_001.json''])
             unprintable_name"
    using unprintable_sidecar_no_tier by (simp add: fs view_strict join_photos_IMG_001_json)
  have e: "endswith ''IMG_001.json'' ''.json''"
    by (simp add: endswith_def)
  show ?thesis
    unfolding json_file_step_not_found[OF e l g n] error_handler_def fs view_strict
      join_photos_IMG_001_json
    using unprintable_line[of "[''/photos/IMG_001.json'']"]
    by (simp add: count_error_def example_state_def initial_stats_def)
qed

text \<open>
  Claim C7 as stated fails where standard output cannot write the title: the handler
  counts the error, its \<^verbatim>\<open>print\<close> raises, and the exception leaves the loop, so the
  next file of the directory is not handled and the run ends.
\<close>

theorem unprintable_title_ends_run:
  "find_media_file (strict_world [''/photos/IMG_001.json'']) ''/photos/IMG_001.json''
      (JStr unprintable_name)
     = Inl (FileNotFoundError
              (''No media file found for /photos/IMG_001.json (title: '' @ unprintable_name
                 @ '')''))
   \<and> run_loop (json_file_step strict_os ''/out'' ''/photos'')
        (example_state [''/photos/IMG_001.json'']) [''IMG_001.json'', ''IMG_002.json'']
     = \<lparr>counters = initial_stats\<lparr>errors := 1\<rparr>, processed_media_files = {},
        filesystem = [''/photos/IMG_001.json''],
        raised = Some (UnicodeEncodeError ''codec cannot encode character'')\<rparr>
   \<and> run_loop (json_file_step strict_os ''/out'' ''/photos'')
        (example_state [''/photos/IMG_001.json'']) [''IMG_001.json'', ''IMG_002.json'']
     \<noteq> run_loop (json_file_step strict_os ''/out'' ''/photos'')
         ((example_state [''/photos/IMG_001.json''])\<lparr>counters := initial_stats\<lparr>errors := 1\<rparr>\<rparr>)
         [''IMG_002.json'']"
proof (intro conjI)
  show "find_media_file (strict_world [''/photos/IMG_001.json'']) ''/photos/IMG_001.json''
      (JStr unprintable_name)
     = Inl (FileNotFoundError
              (''No media file found for /photos/IMG_001.json (title: '' @ unprintable_name
                 @ '')''))"
    using find_media_file_not_found[OF unprintable_sidecar_no_tier]
    by (simp add: not_found_message_def)
next
  show r: "run_loop (json_file_step strict_os ''/out'' ''/photos'')
        (example_state [''/photos/IMG_001.json'']) [''IMG_001.json'', ''IMG_002.json'']
     = \<lparr>counters = initial_stats\<lparr>errors := 1\<rparr>, processed_media_files = {},
        filesystem = [''/photos/IMG_001.json''],
        raised = Some (UnicodeEncodeError ''codec cannot encode character'')\<rparr>"
    by (simp add: unprintable_sidecar_step) (simp add: example_state_def)
  have two: "errors (counters (run_loop (json_file_step strict_os ''/out'' ''/photos'')
         ((example_state [''/photos/IMG_001.json''])\<lparr>counters := initial_stats\<lparr>errors := 1\<rparr>\<rparr>)
         [''IMG_002.json''])) = 2"
    by (simp add: example_state_def json_file_step_def json_file_try_def view_strict
        process_json_file_def strict_world_def counters_error_handler
        initial_stats_def endswith_def join_def join2_def startswith_def)
  show "run_loop (json_file_step strict_os ''/out'' ''/photos'')
        (example_state [''/photos/IMG_001.json'']) [''IMG_001.json'', ''IMG_002.json'']
     \<noteq> run_loop (json_file_step strict_os ''/out'' ''/photos'')
         ((example_state [''/photos/IMG_001.json''])\<lparr>counters := initial_stats\<lparr>errors := 1\<rparr>\<rparr>)
         [''IMG_002.json'']"
  proof
    assume "run_loop (json_file_step strict_os ''/out'' ''/photos'')
        (example_state [''/photos/IMG_001.json'']) [''IMG_001.json'', ''IMG_002.json'']
     = run_loop (json_file_step strict_os ''/out'' ''/photos'')
         ((example_state [''/photos/IMG_001.json''])\<lparr>counters := initial_stats\<lparr>errors := 1\<rparr>\<rparr>)
         [''IMG_002.json'']"
    then have "errors (counters (run_loop (json_file_step strict_os ''/out'' ''/photos'')
        (example_state [''/photos/IMG_001.json'']) [''IMG_001.json'', ''IMG_002.json''])) = 2"
      using two by simp
    then show False
      unfolding r by (simp add: initial_stats_def)
  qed
qed

text \<open>
  The whole run on that directory: the exception leaves \<^verbatim>\<open>organize_media\<close> in the
  first pass, and neither the second pass nor the report is reached.
\<close>

lemma abspath_photos: "abspath ''/home/u'' ''/photos'' = ''/photos''"
  by (simp add: abspath_def normpath_def startswith_def)

lemma abspath_out: "abspath ''/home/u'' ''/out'' = ''/out''"
  by (simp add: abspath_def normpath_def startswith_def)

lemma photos_is_processed: "should_process_directory ''/photos'' ''/out''"
  by (simp add: should_process_directory_def normpath_def startswith_def lower_def
      lower_char_def ascii_uppercase_def ascii_lowercase_def)

lemma starting_lines_printed:
  "print_all (strict_world files)
     [''Starting media organization...'', ''Source directory: '' @ ''/photos'',
      ''Target directory: '' @ ''/out''] = Inr ()"
  by (simp add: py_print_def printable_def is_ascii_def)

lemma unprintable_title_ends_organize_media:
  "organize_media strict_os ''/home/u'' ''/photos'' ''/out''
      [(''/photos'', [''IMG_001.json'', ''IMG_002.json''])]
      [(''/photos'', [''IMG_001.json'', ''IMG_002.json''])] [''/photos/IMG_001.json'']
     = \<lparr>counters = initial_stats\<lparr>errors := 1\<rparr>, processed_media_files = {},
        filesystem = [''/photos/IMG_001.json''],
        raised = Some (UnicodeEncodeError ''codec cannot encode character'')\<rparr>"
proof -
  have st0: "\<lparr>counters = initial_stats, processed_media_files = {},
               filesystem = [''/photos/IMG_001.json''], raised = None\<rparr>
             = example_state [''/photos/IMG_001.json'']"
    by (simp add: example_state_def)
  have loop: "run_loop (json_file_step strict_os ''/out'' ''/photos'')
        (example_state [''/photos/IMG_001.json'']) [''IMG_001.json'', ''IMG_002.json'']
     = \<lparr>counters = initial_stats\<lparr>errors := 1\<rparr>, processed_media_files = {},
        filesystem = [''/photos/IMG_001.json''],
        raised = Some (UnicodeEncodeError ''codec cannot encode character'')\<rparr>"
    by (simp add: unprintable_sidecar_step) (simp add: example_state_def)
  have p1: "run_loop (pass1_directory strict_os ''/out'') (example_state [''/photos/IMG_001.json''])
              [(''/photos'', [''IMG_001.json'', ''IMG_002.json''])]
            = \<lparr>counters = initial_stats\<lparr>errors := 1\<rparr>, processed_media_files = {},
        filesystem = [''/photos/IMG_001.json''],
        raised = Some (UnicodeEncodeError ''codec cannot encode character'')\<rparr>"
    using loop by (simp add: pass1_directory_def photos_is_processed example_state_def)
  show ?thesis
    unfolding organize_media_def Let_def abspath_photos abspath_out st0 view_strict
      starting_lines_printed sum.case p1
    by simp
qed

subsection \<open>Letter case of the matched extension\<close>

text \<open>
  Claim C3 fails on a file system that distinguishes letter case. The first tier tests
  the upper-case extension but returns the path with the lower-case one: with
  \<^verbatim>\<open>/photos/IMG_001.JPG\<close> beside its sidecar, the matcher returns
  \<^verbatim>\<open>/photos/IMG_001.jpg\<close>, which does not exist.
\<close>

theorem upper_case_match_returns_missing_path:
  "find_media_file (example_world [''/photos/IMG_001.json'', ''/photos/IMG_001.JPG''])
      ''/photos/IMG_001.json'' (JStr ''IMG_001.jpg'') = Inr ''/photos/IMG_001.jpg''
   \<and> \<not> path_exists (example_world [''/photos/IMG_001.json'', ''/photos/IMG_001.JPG''])
          ''/photos/IMG_001.jpg''
   \<and> path_exists (example_world [''/photos/IMG_001.json'', ''/photos/IMG_001.JPG''])
          ''/photos/IMG_001.JPG''"
  by (simp add: find_media_file_def splitext_IMG_001_json example_world_def
      PHOTO_EXTENSIONS_def VIDEO_EXTENSIONS_def ALL_MEDIA_EXTENSIONS_def lower_def
      lower_char_def upper_def upper_char_def ascii_uppercase_def ascii_lowercase_def)

lemma upper_case_sidecar_resolves:
  "process_json_file (example_world [''/photos/IMG_001.json'', ''/photos/IMG_001.JPG''])
      ''/photos/IMG_001.json''
     = Inr (''2021/2021-01-01/IMG_001.jpg'', ''.jpg'', ''/photos/IMG_001.jpg'')"
proof -
  let ?w = "example_world [''/photos/IMG_001.json'', ''/photos/IMG_001.JPG'']"
  have m: "find_media_file ?w ''/photos/IMG_001.json'' (JStr ''IMG_001.jpg'')
             = Inr ''/photos/IMG_001.jpg''"
    by (simp add: find_media_file_def splitext_IMG_001_json example_world_def
        PHOTO_EXTENSIONS_def VIDEO_EXTENSIONS_def ALL_MEDIA_EXTENSIONS_def lower_def
        lower_char_def upper_def upper_char_def ascii_uppercase_def ascii_lowercase_def)
  have x: "get_exif_date ?w ''/photos/IMG_001.jpg'' = Inr None"
    by (simp add: get_exif_date_def try_except_def py_print_def printable_def example_world_def)
  have t: "get_valid_timestamp ?w sidecar_2021 ''/photos/IMG_001.jpg''
             = Inr (1609459200, ''JSON photoTakenTime'')"
    by (simp add: get_valid_timestamp_def media_metadata_date_def ext_jpg x
        get_json_date_def json_field_date_def json_timestamp_def
        int_of_string_2021 MIN_VALID_TIMESTAMP_def sidecar_2021_def PHOTO_EXTENSIONS_def)
  have l: "json_load ?w ''/photos/IMG_001.json'' = Inr sidecar_2021"
    by (simp add: example_world_def)
  have g: "getitem sidecar_2021 ''title'' = Inr (JStr ''IMG_001.jpg'')"
    by (simp add: sidecar_2021_def)
  have p: "print_date_for ?w (''Using '' @ ''JSON photoTakenTime'' @ '' date '') 1609459200
             ''/photos/IMG_001.jpg'' = Inr ()"
    by (rule print_date_for_ok[OF fromtimestamp_2021_utc]) (rule printable_example)+
  show ?thesis
    unfolding process_json_file_def l g m t sum.case prod.case p
    by (simp add: get_target_path_2021_utc)
qed

text \<open>
  In the driver the sidecar then fails at the move and is counted as an error, while the
  real file has been recorded as claimed, so the second pass skips it: the photo is
  never organised.
\<close>

lemma upper_case_sidecar_is_never_moved:
  "json_file_step example_os ''/out'' ''/photos''
      (example_state [''/photos/IMG_001.json'', ''/photos/IMG_001.JPG'']) ''IMG_001.json''
     = \<lparr>counters = initial_stats\<lparr>errors := 1\<rparr>,
        processed_media_files = {''/photos/img_001.jpg''},
        filesystem = [''/photos/IMG_001.json'', ''/photos/IMG_001.JPG''], raised = None\<rparr>
   \<and> media_file_step example_os ''/out'' ''/photos''
        \<lparr>counters = initial_stats\<lparr>errors := 1\<rparr>,
         processed_media_files = {''/photos/img_001.jpg''},
         filesystem = [''/photos/IMG_001.json'', ''/photos/IMG_001.JPG''], raised = None\<rparr>
        ''IMG_001.JPG''
     = \<lparr>counters = initial_stats\<lparr>errors := 1\<rparr>,
        processed_media_files = {''/photos/img_001.jpg''},
        filesystem = [''/photos/IMG_001.json'', ''/photos/IMG_001.JPG''], raised = None\<rparr>"
proof -
  have lo: "lower ''/photos/IMG_001.jpg'' = ''/photos/img_001.jpg''"
    by (simp add: string_defs)
  have lo2: "lower (join ''/photos'' [''IMG_001.JPG'']) = ''/photos/img_001.jpg''"
    by (simp add: string_defs)
  have pr: "py_print (example_world files) s = Inr ()" for files s
    by (simp add: py_print_def printable_example)
  have 1: "json_file_step example_os ''/out'' ''/photos''
      (example_state [''/photos/IMG_001.json'', ''/photos/IMG_001.JPG'']) ''IMG_001.json''
     = \<lparr>counters = initial_stats\<lparr>errors := 1\<rparr>,
        processed_media_files = {''/photos/img_001.jpg''},
        filesystem = [''/photos/IMG_001.json'', ''/photos/IMG_001.JPG''], raised = None\<rparr>"
    by (simp add: json_file_step_def json_file_try_def example_state_def view_example
        join_photos_IMG_001_json upper_case_sidecar_resolves lo error_handler_def pr
        count_error_def initial_stats_def endswith_def)
      (simp add: example_os_def)
  have 2: "media_file_step example_os ''/out'' ''/photos''
        \<lparr>counters = initial_stats\<lparr>errors := 1\<rparr>,
         processed_media_files = {''/photos/img_001.jpg''},
         filesystem = [''/photos/IMG_001.json'', ''/photos/IMG_001.JPG''], raised = None\<rparr>
        ''IMG_001.JPG''
     = \<lparr>counters = initial_stats\<lparr>errors := 1\<rparr>,
        processed_media_files = {''/photos/img_001.jpg''},
        filesystem = [''/photos/IMG_001.json'', ''/photos/IMG_001.JPG''], raised = None\<rparr>"
    by (simp add: media_file_step_def lo2)
  show ?thesis using 1 2 by simp
qed

section \<open>Properties of the path planner\<close>

subsection \<open>The destination path\<close>

text \<open>
  Claim C4, as amended. For a fixed local time zone the planner is a function of the
  timestamp and the file name alone. Whenever \<^verbatim>\<open>datetime.fromtimestamp\<close> returns a date
  for the timestamp, the destination is the year, a slash, the year again, a dash, the
  month with two digits, a dash, the day with two digits, a slash, and the original base
  name followed by the lower-cased extension; the month is between 1 and 12, the day
  between 1 and 31, and the year is between 1 and 9999, written without padding, so with
  four digits from the year 1000 on. \<^verbatim>\<open>datetime.fromtimestamp\<close> returns only if the
  local date 24 hours before the timestamp lies in the years 1 to 9999 as well.
\<close>

theorem target_path_pattern:
  assumes "fromtimestamp w timestamp = Inr d"
  shows
   "get_target_path w timestamp media_path =
      Inr (str_nat (tm_year d) @ ''/'' @ str_nat (tm_year d) @ ''-'' @ two_digits (tm_mon d)
             @ ''-'' @ two_digits (tm_mday d) @ ''/''
             @ fst (splitext (basename media_path)) @ lower (snd (splitext (basename media_path))),
           lower (snd (splitext (basename media_path))))
    \<and> fst (splitext (basename media_path)) @ snd (splitext (basename media_path))
        = basename media_path
    \<and> 1 \<le> tm_year d \<and> tm_year d \<le> 9999 \<and> 1 \<le> tm_mon d \<and> tm_mon d \<le> 12
    \<and> 1 \<le> tm_mday d \<and> tm_mday d \<le> 31
    \<and> list_all is_digit (str_nat (tm_year d))
    \<and> (1000 \<le> tm_year d \<longrightarrow> length (str_nat (tm_year d)) = 4)
    \<and> list_all is_digit (two_digits (tm_mon d)) \<and> length (two_digits (tm_mon d)) = 2
    \<and> list_all is_digit (two_digits (tm_mday d)) \<and> length (two_digits (tm_mday d)) = 2
    \<and> 1 \<le> year_of (local_seconds w (round_half_even (timestamp * 1000000) div 1000000 - 86400))
    \<and> year_of (local_seconds w (round_half_even (timestamp * 1000000) div 1000000 - 86400))
        \<le> 9999
    \<and> (utcoffset w' = utcoffset w \<longrightarrow>
          get_target_path w' timestamp media_path = get_target_path w timestamp media_path)"
proof -
  have r: "1 \<le> tm_year d \<and> tm_year d \<le> 9999 \<and> 1 \<le> tm_mon d \<and> tm_mon d \<le> 12
    \<and> 1 \<le> tm_mday d \<and> tm_mday d \<le> 31"
    by (rule fromtimestamp_range[OF assms])
  have four: "1000 \<le> tm_year d \<longrightarrow> length (str_nat (tm_year d)) = 4"
    using r str_nat_four_digits by blast
  have cong: "utcoffset w' = utcoffset w \<longrightarrow>
          get_target_path w' timestamp media_path = get_target_path w timestamp media_path"
  proof
    assume u: "utcoffset w' = utcoffset w"
    show "get_target_path w' timestamp media_path = get_target_path w timestamp media_path"
      unfolding get_target_path_def fromtimestamp_cong[OF u] ..
  qed
  show ?thesis
    using get_target_path_shape[OF assms, of media_path] splitext_append[of "basename media_path"]
      r four cong str_nat_digits[of "tm_year d"] two_digits_digits[of "tm_mon d"]
      two_digits_digits[of "tm_mday d"] fromtimestamp_probe[OF assms]
    unfolding splitext_basename[of media_path]
    by blast
qed

lemma basename_photos_IMG_001_jpg: "basename ''/photos/IMG_001.jpg'' = ''IMG_001.jpg''"
  by (simp add: string_defs)

theorem target_path_pattern_witness:
  "get_target_path (example_world []) 1609459200 ''/photos/IMG_001.jpg''
       = Inr (''2021/2021-01-01/IMG_001.jpg'', ''.jpg'')
   \<and> length (str_nat 2021) = 4
   \<and> get_target_path (example_world []) (- 62135510400) ''/photos/IMG_001.jpg''
       = Inr (''1/1-01-02/IMG_001.jpg'', ''.jpg'')"
  using target_path_pattern[OF fromtimestamp_2021_utc[of "[]"], of "''/photos/IMG_001.jpg''"
      "example_world []"]
    target_path_pattern[OF fromtimestamp_second_day_returns[of "[]"],
      of "''/photos/IMG_001.jpg''" "example_world []"]
  by (simp add: basename_photos_IMG_001_jpg splitext_IMG_001_jpg
      two_digits_def digit_char_def str_nat.simps lower_def lower_char_def
      ascii_uppercase_def ascii_lowercase_def)

lemma year_out_of_range_52971:
  "year_out_of_range 52971 = ValueError ''year 52971 is out of range''"
  by (simp add: year_out_of_range_def str_int_def str_nat.simps digit_char_def)

lemma fromtimestamp_milliseconds:
  "fromtimestamp (example_world []) 1609459200000 = Inl (ValueError ''year 52971 is out of range'')"
  by (simp add: calendar_defs example_world_def year_out_of_range_52971)

text \<open>
  Claim C4 as stated fails for a timestamp whose year is beyond 9999, such as a sidecar
  timestamp written in milliseconds: \<^verbatim>\<open>datetime.fromtimestamp\<close> raises and the planner
  yields no path.
\<close>

theorem target_path_out_of_range:
  "get_target_path (example_world []) 1609459200000 ''/photos/IMG_001.jpg''
     = Inl (ValueError ''year 52971 is out of range'')
   \<and> \<not> (\<exists>r. get_target_path (example_world []) 1609459200000 ''/photos/IMG_001.jpg'' = Inr r)"
  by (simp add: get_target_path_def fromtimestamp_milliseconds)

text \<open>The first local day of the year 1 has no path either.\<close>

lemma target_path_first_day_of_year_1:
  "get_target_path (example_world []) (- 62135596800) ''/photos/IMG_001.jpg''
     = Inl (ValueError ''year 0 is out of range'')"
  by (simp add: get_target_path_def fromtimestamp_first_day_raises)

subsection \<open>The round trip of a sidecar timestamp\<close>

lemma fromtimestamp_returns:
  assumes "s = round_half_even (t * 1000000) div 1000000"
    and "civil_from_days (local_seconds w s div 86400) = (y, m, d)"
    and "1 \<le> y" "y \<le> 9999"
    and "1 \<le> year_of (local_seconds w (s - 86400))"
      "year_of (local_seconds w (s - 86400)) \<le> 9999"
    and "\<And>tr. tr < 0 \<Longrightarrow> - 172800 < tr \<Longrightarrow>
           1 \<le> year_of (local_seconds w (s + tr)) \<and> year_of (local_seconds w (s + tr)) \<le> 9999"
  shows "\<exists>dt. fromtimestamp w t = Inr dt \<and> tm_year dt = nat y \<and> tm_mon dt = m \<and> tm_mday dt = d"
proof -
  define tr where "tr = local_seconds w s - local_seconds w (s - 86400) - 86400"
  have "- 172800 < tr"
    using local_offset_bounds[of w s] local_offset_bounds[of w "s - 86400"]
    by (simp add: tr_def local_seconds_def)
  then have p2: "tr < 0 \<Longrightarrow>
      \<not> (year_of (local_seconds w (s + tr)) < 1 \<or> year_of (local_seconds w (s + tr)) > 9999)"
    using assms(7)[of tr] by auto
  have p0: "\<not> (y < 1 \<or> y > 9999)"
    using assms(3,4) by simp
  have p1: "\<not> (year_of (local_seconds w (s - 86400)) < 1
              \<or> year_of (local_seconds w (s - 86400)) > 9999)"
    using assms(5,6) by simp
  show ?thesis
    unfolding fromtimestamp_def Let_def assms(1)[symmetric] assms(2) prod.case tr_def[symmetric]
    using p0 p1 p2 by (cases "tr < 0") simp_all
qed

lemma year_of_near_2021:
  assumes "18625 * 86400 \<le> x" "x < 18629 * 86400"
  shows "1 \<le> year_of x \<and> year_of x \<le> 9999"
proof -
  have "18625 \<le> x div 86400" "x div 86400 < 18629"
    using assms by linarith+
  then have "x div 86400 = 18625 \<or> x div 86400 = 18626 \<or> x div 86400 = 18627
             \<or> x div 86400 = 18628"
    by linarith
  moreover have "fst (civil_from_days 18625) = 2020" "fst (civil_from_days 18626) = 2020"
    "fst (civil_from_days 18627) = 2020" "fst (civil_from_days 18628) = 2021"
    by (simp_all add: civil_from_days_def year_walk.simps days_in_year_def is_leap_def
        month_lengths_def)
  ultimately show ?thesis
    unfolding year_of_def by auto
qed

lemma fromtimestamp_2021_local:
  assumes "0 \<le> utcoffset w 1609459200" "utcoffset w 1609459200 < 86400"
  shows "\<exists>dt. fromtimestamp w 1609459200 = Inr dt
              \<and> tm_year dt = 2021 \<and> tm_mon dt = 1 \<and> tm_mday dt = 1"
proof -
  have s: "(1609459200::int) = round_half_even (1609459200 * 1000000) div 1000000"
    by (simp add: round_half_even_def)
  have lo: "local_offset w 1609459200 = utcoffset w 1609459200"
    using assms by (intro local_offset_id) simp_all
  have day: "local_seconds w 1609459200 div 86400 = 18628"
    unfolding local_seconds_def lo using assms by linarith
  have civ: "civil_from_days 18628 = (2021, 1, 1)"
    by (simp add: civil_from_days_def year_walk.simps days_in_year_def is_leap_def
        month_lengths_def)
  have c: "civil_from_days (local_seconds w 1609459200 div 86400) = (2021, 1, 1)"
    unfolding day civ ..
  have near: "1 \<le> year_of (local_seconds w (1609459200 + tr))
              \<and> year_of (local_seconds w (1609459200 + tr)) \<le> 9999"
    if "- 172800 < tr" "tr < 0" for tr
    using local_offset_bounds[of w "1609459200 + tr"] that
    by (intro year_of_near_2021) (simp_all add: local_seconds_def)
  have probe: "1 \<le> year_of (local_seconds w (1609459200 - 86400))
              \<and> year_of (local_seconds w (1609459200 - 86400)) \<le> 9999"
    using near[of "- 86400"] by simp
  obtain dt where "fromtimestamp w 1609459200 = Inr dt \<and> tm_year dt = nat 2021
      \<and> tm_mon dt = 1 \<and> tm_mday dt = 1"
    using fromtimestamp_returns[where w = w and t = 1609459200 and s = 1609459200
        and y = 2021 and m = 1 and d = 1] s c probe near
    by auto
  then show ?thesis by auto
qed

lemma json_timestamp_2021:
  assumes "getitem metadata ''photoTakenTime'' = Inr taken"
    "getitem taken ''timestamp'' = Inr (JStr ''1609459200'')"
  shows "json_timestamp metadata ''photoTakenTime'' = Inr 1609459200"
  using assms by (simp add: json_timestamp_def int_of_string_2021)

text \<open>
  Claim C6, as amended. A sidecar whose \<^verbatim>\<open>photoTakenTime.timestamp\<close> is the string
  \<^verbatim>\<open>"1609459200"\<close>, paired with a media file without an embedded timestamp, resolves to
  that timestamp with the label of the JSON field; and where the local time zone is
  UTC or east of it (an offset from 0 to less than 24 hours at that instant), the
  planned destination lies under \<^verbatim>\<open>2021/2021-01-01/\<close>.
\<close>

theorem sidecar_2021_round_trip:
  assumes "getitem metadata ''photoTakenTime'' = Inr taken"
    and "getitem taken ''timestamp'' = Inr (JStr ''1609459200'')"
    and "extractor_for_kind w media_path = Inr None"
    and "0 \<le> utcoffset w 1609459200" and "utcoffset w 1609459200 < 86400"
  shows
   "get_valid_timestamp w metadata media_path = Inr (1609459200, ''JSON photoTakenTime'')
    \<and> get_target_path w 1609459200 media_path =
         Inr (''2021/2021-01-01/'' @ fst (splitext (basename media_path))
                @ lower (snd (splitext media_path)),
              lower (snd (splitext media_path)))"
proof
  have "get_json_date metadata = Some (1609459200, ''JSON photoTakenTime'')"
    using json_timestamp_2021[OF assms(1,2)]
    by (simp add: get_json_date_def json_field_date_def MIN_VALID_TIMESTAMP_def)
  then show "get_valid_timestamp w metadata media_path = Inr (1609459200, ''JSON photoTakenTime'')"
    using assms(3) by (simp add: get_valid_timestamp_def media_metadata_date_eq)
next
  obtain dt where dt: "fromtimestamp w 1609459200 = Inr dt"
    and f: "tm_year dt = 2021" "tm_mon dt = 1" "tm_mday dt = 1"
    using fromtimestamp_2021_local[OF assms(4,5)] by blast
  show "get_target_path w 1609459200 media_path =
         Inr (''2021/2021-01-01/'' @ fst (splitext (basename media_path))
                @ lower (snd (splitext media_path)),
              lower (snd (splitext media_path)))"
    using get_target_path_shape[OF dt, of media_path]
    by (simp add: f str_nat.simps two_digits_def digit_char_def)
qed

lemma extractor_none_example:
  "extractor_for_kind (example_world [''/photos/IMG_001.json'', ''/photos/IMG_001.jpg''])
     ''/photos/IMG_001.jpg'' = Inr None"
  by (simp add: extractor_for_kind_def ext_jpg get_exif_date_example PHOTO_EXTENSIONS_def)

theorem sidecar_2021_round_trip_witness:
  "get_valid_timestamp (example_world [''/photos/IMG_001.json'', ''/photos/IMG_001.jpg''])
      sidecar_2021 ''/photos/IMG_001.jpg'' = Inr (1609459200, ''JSON photoTakenTime'')
   \<and> get_target_path (example_world [''/photos/IMG_001.json'', ''/photos/IMG_001.jpg''])
        1609459200 ''/photos/IMG_001.jpg''
       = Inr (''2021/2021-01-01/IMG_001.jpg'', ''.jpg'')"
  using sidecar_2021_round_trip[of sidecar_2021 "JObj [(''timestamp'', JStr ''1609459200'')]"
      "example_world [''/photos/IMG_001.json'', ''/photos/IMG_001.jpg'']"
      "''/photos/IMG_001.jpg''", OF _ _ extractor_none_example]
  by (simp add: sidecar_2021_def example_world_def basename_photos_IMG_001_jpg
      splitext_IMG_001_jpg ext_jpg)

lemma fromtimestamp_2021_new_york:
  "fromtimestamp (new_york_world files) 1609459200
     = Inr \<lparr>tm_year = 2020, tm_mon = 12, tm_mday = 31, tm_hour = 19, tm_min = 0, tm_sec = 0,
            microsecond = 0\<rparr>"
  by (simp add: calendar_defs new_york_world_def example_world_def)

text \<open>
  Claim C6 as stated fails west of UTC: five hours behind, the same sidecar is planned
  under \<^verbatim>\<open>2020/2020-12-31/\<close>.
\<close>

theorem sidecar_2021_west_of_utc:
  "get_valid_timestamp (new_york_world [''/photos/IMG_001.json'', ''/photos/IMG_001.jpg''])
      sidecar_2021 ''/photos/IMG_001.jpg'' = Inr (1609459200, ''JSON photoTakenTime'')
   \<and> get_target_path (new_york_world [''/photos/IMG_001.json'', ''/photos/IMG_001.jpg''])
        1609459200 ''/photos/IMG_001.jpg''
       = Inr (''2020/2020-12-31/IMG_001.jpg'', ''.jpg'')"
proof
  have x: "get_exif_date (new_york_world [''/photos/IMG_001.json'', ''/photos/IMG_001.jpg''])
             ''/photos/IMG_001.jpg'' = Inr None"
    by (simp add: get_exif_date_def try_except_def new_york_world_def example_world_def)
  show "get_valid_timestamp (new_york_world [''/photos/IMG_001.json'', ''/photos/IMG_001.jpg''])
      sidecar_2021 ''/photos/IMG_001.jpg'' = Inr (1609459200, ''JSON photoTakenTime'')"
    by (simp add: get_valid_timestamp_def media_metadata_date_def ext_jpg x
        get_json_date_def json_field_date_def json_timestamp_def
        int_of_string_2021 MIN_VALID_TIMESTAMP_def sidecar_2021_def PHOTO_EXTENSIONS_def)
next
  show "get_target_path (new_york_world [''/photos/IMG_001.json'', ''/photos/IMG_001.jpg''])
        1609459200 ''/photos/IMG_001.jpg''
       = Inr (''2020/2020-12-31/IMG_001.jpg'', ''.jpg'')"
    by (simp add: get_target_path_def fromtimestamp_2021_new_york str_nat.simps digit_char_def
        zfill_def string_defs Let_def)
qed

section \<open>Properties of the directory exclusion\<close>

subsection \<open>Splitting and joining at the separator\<close>

lemma split_on_no_sep: "x \<in> set (split_on c s) \<Longrightarrow> c \<notin> set x"
proof (induction s arbitrary: x)
  case Nil
  then show ?case by simp
next
  case (Cons a s)
  show ?case
  proof (cases "a = c")
    case True
    then show ?thesis using Cons by auto
  next
    case False
    obtain w ws where sp: "split_on c s = w # ws"
      by (cases "split_on c s") (cases s; simp split: if_splits list.splits)+
    then show ?thesis
      using Cons False by auto
  qed
qed

lemma split_on_plain: "c \<notin> set x \<Longrightarrow> split_on c x = [x]"
  by (induction x) auto

lemma split_on_append: "c \<notin> set x \<Longrightarrow> split_on c (x @ c # rest) = x # split_on c rest"
  by (induction x) auto

lemma sep_join_Cons: "cs \<noteq> [] \<Longrightarrow> sep_join s (x # cs) = x @ s @ sep_join s cs"
  by (cases cs) simp_all

lemma sep_join_snoc: "cs \<noteq> [] \<Longrightarrow> sep_join s (cs @ [n]) = sep_join s cs @ s @ n"
proof (induction cs)
  case Nil
  then show ?case by simp
next
  case (Cons x cs)
  show ?case
  proof (cases "cs = []")
    case True
    then show ?thesis by simp
  next
    case False
    then show ?thesis using Cons.IH by (simp add: sep_join_Cons)
  qed
qed

lemma sep_join_prefix: "\<exists>rest. sep_join s (cs @ ns) = sep_join s cs @ rest"
proof (induction ns rule: rev_induct)
  case Nil
  then show ?case by simp
next
  case (snoc n ns)
  then obtain rest where r: "sep_join s (cs @ ns) = sep_join s cs @ rest" by blast
  show ?case
  proof (cases "cs @ ns = []")
    case True
    then show ?thesis by simp
  next
    case False
    have "sep_join s ((cs @ ns) @ [n]) = sep_join s (cs @ ns) @ s @ n"
      by (rule sep_join_snoc[OF False])
    then show ?thesis using r by simp
  qed
qed

lemma split_on_sep_join:
  assumes "list_all plain_name cs" "cs \<noteq> []"
  shows "split_on CHR ''/'' (sep_join ''/'' cs) = cs"
  using assms
proof (induction cs)
  case Nil
  then show ?case by simp
next
  case (Cons x cs)
  have x: "CHR ''/'' \<notin> set x" using Cons.prems(1) by (simp add: plain_name_def)
  show ?case
  proof (cases "cs = []")
    case True
    then show ?thesis using x by (simp add: split_on_plain)
  next
    case False
    have "sep_join ''/'' (x # cs) = x @ CHR ''/'' # sep_join ''/'' cs"
      using False by (simp add: sep_join_Cons)
    then show ?thesis
      using Cons False x by (simp add: split_on_append)
  qed
qed

lemma sep_join_plain_hd:
  assumes "list_all plain_name cs"
  shows "\<not> startswith (sep_join ''/'' cs) ''/''"
proof (cases cs)
  case Nil
  then show ?thesis by (simp add: startswith_def)
next
  case (Cons x xs)
  then have "x \<noteq> []" "CHR ''/'' \<notin> set x" using assms by (simp_all add: plain_name_def)
  then have "hd x \<noteq> CHR ''/''" by (metis hd_in_set)
  moreover have "sep_join ''/'' cs = x @ (if xs = [] then [] else ''/'' @ sep_join ''/'' xs)"
    using Cons by (simp add: sep_join_Cons)
  ultimately show ?thesis
    using \<open>x \<noteq> []\<close> by (simp add: startswith_sep)
qed

lemma sep_join_plain_last:
  assumes "list_all plain_name cs" "cs \<noteq> []"
  shows "sep_join ''/'' cs \<noteq> [] \<and> last (sep_join ''/'' cs) \<noteq> CHR ''/''"
  using assms
proof (induction cs rule: rev_induct)
  case Nil
  then show ?case by simp
next
  case (snoc n cs)
  have n: "n \<noteq> []" "CHR ''/'' \<notin> set n" using snoc.prems(1) by (simp_all add: plain_name_def)
  then have l: "last n \<noteq> CHR ''/''" by (metis last_in_set)
  show ?case
  proof (cases "cs = []")
    case True
    then show ?thesis using n l by simp
  next
    case False
    then show ?thesis using n l by (simp add: sep_join_snoc)
  qed
qed

subsection \<open>Normalised absolute paths\<close>

text \<open>
  An absolute path in normal form is one or two slashes followed by plain names joined
  by single slashes. \<^verbatim>\<open>normpath\<close> returns such a path for every absolute path, and
  leaves such a path as it is.
\<close>

lemma norm_comps_skip_empty: "norm_comps k ([] # comps) new = norm_comps k comps new"
  by simp

lemma norm_comps_plain:
  "list_all plain_name cs \<Longrightarrow> norm_comps k cs new = new @ cs"
proof (induction cs arbitrary: new)
  case Nil
  then show ?case by simp
next
  case (Cons c cs)
  then have "c \<noteq> []" "c \<noteq> ''.''" "c \<noteq> ''..''" by (simp_all add: plain_name_def)
  then show ?case using Cons by simp
qed

lemma norm_comps_absolute:
  assumes "0 < k" "list_all plain_name new" "\<forall>x\<in>set comps. CHR ''/'' \<notin> set x"
  shows "list_all plain_name (norm_comps k comps new)"
  using assms(2,3)
proof (induction comps arbitrary: new)
  case Nil
  then show ?case by simp
next
  case (Cons c comps)
  have rest: "\<forall>x\<in>set comps. CHR ''/'' \<notin> set x" using Cons.prems(2) by simp
  have last_plain: "new \<noteq> [] \<Longrightarrow> last new \<noteq> ''..''"
    using Cons.prems(1) by (metis last_in_set list_all_iff plain_name_def)
  show ?case
  proof (cases "c = [] \<or> c = ''.''")
    case True
    then show ?thesis using Cons.IH[OF Cons.prems(1) rest] by auto
  next
    case False
    show ?thesis
    proof (cases "c = ''..''")
      case True
      have "list_all plain_name (butlast new)"
        using Cons.prems(1) by (metis in_set_butlastD list_all_iff)
      then show ?thesis
        using True assms(1) last_plain Cons.IH[OF _ rest] Cons.prems(1) by auto
    next
      case False
      then have "plain_name c"
        using \<open>\<not> (c = [] \<or> c = ''.'')\<close> Cons.prems(2) by (simp add: plain_name_def)
      then have "list_all plain_name (new @ [c])" using Cons.prems(1) by simp
      then show ?thesis
        using False \<open>\<not> (c = [] \<or> c = ''.'')\<close> Cons.IH[OF _ rest] by simp
    qed
  qed
qed

lemma normpath_absolute:
  assumes "startswith p ''/''"
  shows "\<exists>k cs. (k = 1 \<or> k = 2) \<and> list_all plain_name cs
            \<and> normpath p = replicate k CHR ''/'' @ sep_join ''/'' cs"
proof -
  have p: "p \<noteq> []" using assms by (auto simp: startswith_def)
  define k :: nat where
    "k = (if startswith p ''//'' \<and> \<not> startswith p ''///'' then 2 else 1)"
  have k: "k = 1 \<or> k = 2" by (simp add: k_def)
  define cs where "cs = norm_comps k (split_on CHR ''/'' p) []"
  have "list_all plain_name cs"
    unfolding cs_def
    by (rule norm_comps_absolute) (use k split_on_no_sep in auto)
  moreover have "replicate k CHR ''/'' @ sep_join ''/'' cs \<noteq> []"
    using k by auto
  then have "normpath p = replicate k CHR ''/'' @ sep_join ''/'' cs"
    using p assms by (simp add: normpath_def Let_def k_def cs_def)
  ultimately show ?thesis using k by blast
qed

lemma split_on_slashes:
  "split_on CHR ''/'' (replicate k CHR ''/'' @ s) = replicate k [] @ split_on CHR ''/'' s"
  by (induction k) simp_all

lemma norm_comps_empties:
  "norm_comps k (replicate n [] @ comps) new = norm_comps k comps new"
  by (induction n) simp_all

lemma normal_initial_slashes:
  assumes "k = 1 \<or> k = 2" "list_all plain_name cs"
  shows "(if startswith (replicate k CHR ''/'' @ sep_join ''/'' cs) ''/''
          then (if startswith (replicate k CHR ''/'' @ sep_join ''/'' cs) ''//''
                   \<and> \<not> startswith (replicate k CHR ''/'' @ sep_join ''/'' cs) ''///''
                then 2 else 1)
          else (0::nat)) = k"
proof -
  let ?j = "sep_join ''/'' cs"
  have j: "?j = [] \<or> hd ?j \<noteq> CHR ''/''"
    using sep_join_plain_hd[OF assms(2)] by (simp add: startswith_sep)
  from assms(1) show ?thesis
  proof
    assume "k = 1"
    then show ?thesis
      using j by (cases ?j) (simp_all add: startswith_def)
  next
    assume "k = 2"
    then show ?thesis
      using j by (cases ?j) (simp_all add: startswith_def numeral_2_eq_2)
  qed
qed

lemma normpath_normal:
  assumes "k = 1 \<or> k = 2" "list_all plain_name cs"
  shows "normpath (replicate k CHR ''/'' @ sep_join ''/'' cs)
           = replicate k CHR ''/'' @ sep_join ''/'' cs"
proof -
  let ?p = "replicate k CHR ''/'' @ sep_join ''/'' cs"
  have p: "?p \<noteq> []" using assms(1) by auto
  have comps: "norm_comps k (split_on CHR ''/'' ?p) [] = cs"
  proof (cases "cs = []")
    case True
    have "split_on CHR ''/'' (replicate k CHR ''/'') = replicate k [] @ [[]]"
      using split_on_slashes[of k "[]"] by simp
    then show ?thesis using True by (simp add: norm_comps_empties)
  next
    case False
    then show ?thesis
      using assms(2)
      by (simp add: split_on_slashes norm_comps_empties split_on_sep_join norm_comps_plain)
  qed
  show ?thesis
    unfolding normpath_def Let_def normal_initial_slashes[OF assms] comps
    using p by simp
qed

lemma join2_normal:
  assumes "k = 1 \<or> k = 2" "list_all plain_name cs" "plain_name n"
  shows "join2 (replicate k CHR ''/'' @ sep_join ''/'' cs) n
           = replicate k CHR ''/'' @ sep_join ''/'' (cs @ [n])"
proof -
  have n: "\<not> startswith n ''/''"
    using assms(3) by (metis hd_in_set plain_name_def startswith_sep)
  have ne: "replicate k CHR ''/'' @ sep_join ''/'' cs \<noteq> []" using assms(1) by auto
  show ?thesis
  proof (cases "cs = []")
    case True
    have "endswith (replicate k CHR ''/'') ''/''"
      using assms(1) by (auto simp: endswith_sep)
    then show ?thesis using True n ne by (simp add: join2_def)
  next
    case False
    have "\<not> endswith (replicate k CHR ''/'' @ sep_join ''/'' cs) ''/''"
      using sep_join_plain_last[OF assms(2) False] by (simp add: endswith_sep)
    then show ?thesis
      using False n ne by (simp add: join2_def sep_join_snoc)
  qed
qed

lemma join_normal:
  assumes "k = 1 \<or> k = 2" "list_all plain_name cs" "list_all plain_name names"
  shows "join (replicate k CHR ''/'' @ sep_join ''/'' cs) names
           = replicate k CHR ''/'' @ sep_join ''/'' (cs @ names)"
  using assms(2,3)
proof (induction names arbitrary: cs)
  case Nil
  then show ?case by (simp add: join_def)
next
  case (Cons n names)
  have "list_all plain_name (cs @ [n])" using Cons.prems by simp
  then have "join (replicate k CHR ''/'' @ sep_join ''/'' (cs @ [n])) names
               = replicate k CHR ''/'' @ sep_join ''/'' ((cs @ [n]) @ names)"
    using Cons.IH Cons.prems(2) by simp
  moreover have "join2 (replicate k CHR ''/'' @ sep_join ''/'' cs) n
                   = replicate k CHR ''/'' @ sep_join ''/'' (cs @ [n])"
    by (rule join2_normal) (use assms(1) Cons.prems in simp_all)
  ultimately show ?case by (simp add: join_def)
qed

subsection \<open>Letter case\<close>

lemma lower_char_dot: "lower_char c = CHR ''.'' \<longleftrightarrow> c = CHR ''.''"
  by (simp add: lower_char_def ascii_uppercase_def ascii_lowercase_def)

lemma lower_append: "lower (a @ b) = lower a @ lower b"
  by (simp add: lower_def)

lemma lower_Nil: "lower [] = []"
  by (simp add: lower_def)

lemma lower_Cons: "lower (c # s) = lower_char c # lower s"
  by (simp add: lower_def)

lemma lower_char_sep_eq: "lower_char CHR ''/'' = CHR ''/''"
  by (simp add: lower_char_sep)

lemma lower_slashes: "lower x = replicate n CHR ''/'' \<longleftrightarrow> x = replicate n CHR ''/''"
proof (induction x arbitrary: n)
  case Nil
  then show ?case by (simp add: lower_def)
next
  case (Cons c x)
  show ?case
  proof (cases n)
    case 0
    then show ?thesis by (simp add: lower_def)
  next
    case (Suc m)
    then show ?thesis
      using Cons.IH[of m] by (auto simp: lower_def lower_char_sep)
  qed
qed

lemma startswith_lower_slashes:
  "startswith (lower p) (replicate n CHR ''/'') \<longleftrightarrow> startswith p (replicate n CHR ''/'')"
proof -
  have "take n (lower p) = lower (take n p)"
    by (simp add: lower_def take_map)
  then show ?thesis
    by (simp add: startswith_def lower_slashes)
qed

lemma startswith_lower_1: "startswith (lower p) ''/'' \<longleftrightarrow> startswith p ''/''"
  using startswith_lower_slashes[of p 1] by simp

lemma startswith_lower_2: "startswith (lower p) ''//'' \<longleftrightarrow> startswith p ''//''"
  using startswith_lower_slashes[of p 2] by (simp add: numeral_2_eq_2)

lemma startswith_lower_3: "startswith (lower p) ''///'' \<longleftrightarrow> startswith p ''///''"
  using startswith_lower_slashes[of p 3] by (simp add: numeral_3_eq_3)

lemma lower_eq_Nil: "lower s = [] \<longleftrightarrow> s = []"
  by (simp add: lower_def)

lemma lower_eq_dot: "lower s = ''.'' \<longleftrightarrow> s = ''.''"
  by (cases s) (auto simp: lower_def lower_char_dot)

lemma lower_eq_dotdot: "lower s = ''..'' \<longleftrightarrow> s = ''..''"
proof (cases s)
  case Nil
  then show ?thesis by (simp add: lower_def)
next
  case (Cons a t)
  then show ?thesis
    by (cases t) (auto simp: lower_def lower_char_dot)
qed

lemma split_on_lower: "split_on CHR ''/'' (lower p) = map lower (split_on CHR ''/'' p)"
proof (induction p)
  case Nil
  then show ?case by (simp add: lower_def)
next
  case (Cons a p)
  have l: "lower (a # p) = lower_char a # lower p" by (simp add: lower_def)
  show ?case
  proof (cases "a = CHR ''/''")
    case True
    then show ?thesis using Cons.IH by (simp add: lower_Cons lower_Nil lower_char_sep_eq)
  next
    case False
    then have n: "lower_char a \<noteq> CHR ''/''" by (simp add: lower_char_sep)
    show ?thesis
    proof (cases "split_on CHR ''/'' p")
      case Nil
      then show ?thesis using False n Cons.IH by (simp add: l lower_def)
    next
      case (Cons w ws)
      then show ?thesis using False n Cons.IH by (simp add: l lower_def)
    qed
  qed
qed

lemma norm_comps_lower:
  "norm_comps k (map lower comps) (map lower new) = map lower (norm_comps k comps new)"
proof (induction comps arbitrary: new)
  case Nil
  then show ?case by simp
next
  case (Cons c comps)
  have last_eq: "new \<noteq> [] \<Longrightarrow> (last (map lower new) = ''..'') = (last new = ''..'')"
    by (simp add: last_map lower_eq_dotdot)
  have a: "map lower new @ [lower c] = map lower (new @ [c])" by simp
  have b: "butlast (map lower new) = map lower (butlast new)" by (simp add: map_butlast)
  show ?case
    unfolding list.map norm_comps.simps lower_eq_Nil lower_eq_dot lower_eq_dotdot a b
      Cons.IH
    using last_eq by (auto simp: lower_eq_Nil)
qed

lemma sep_join_lower: "sep_join ''/'' (map lower cs) = lower (sep_join ''/'' cs)"
proof (induction cs)
  case Nil
  then show ?case by (simp add: lower_def)
next
  case (Cons c cs)
  have s: "lower ''/'' = ''/''"
    using lower_slashes[of "''/''" 1] by simp
  show ?case
  proof (cases "cs = []")
    case True
    then show ?thesis by simp
  next
    case False
    then show ?thesis
      using Cons.IH by (simp add: sep_join_Cons lower_append lower_Cons lower_char_sep_eq)
  qed
qed

lemma lower_normpath: "lower (normpath p) = normpath (lower p)"
proof (cases "p = []")
  case True
  then show ?thesis by (simp add: normpath_def lower_def lower_char_def ascii_uppercase_def
        ascii_lowercase_def)
next
  case False
  define k :: nat where
    "k = (if startswith p ''/''
          then (if startswith p ''//'' \<and> \<not> startswith p ''///'' then 2 else 1) else 0)"
  define cs where "cs = norm_comps k (split_on CHR ''/'' p) []"
  have np: "normpath p = (if replicate k CHR ''/'' @ sep_join ''/'' cs = [] then ''.''
                          else replicate k CHR ''/'' @ sep_join ''/'' cs)"
    using False by (simp add: normpath_def Let_def k_def cs_def)
  have cs': "norm_comps k (split_on CHR ''/'' (lower p)) [] = map lower cs"
    unfolding split_on_lower cs_def using norm_comps_lower[of k _ "[]"] by simp
  have k': "(if startswith (lower p) ''/''
             then (if startswith (lower p) ''//'' \<and> \<not> startswith (lower p) ''///''
                   then 2 else 1)
             else (0::nat)) = k"
    unfolding k_def startswith_lower_1 startswith_lower_2 startswith_lower_3 ..
  have nl: "normpath (lower p) =
              (if replicate k CHR ''/'' @ sep_join ''/'' (map lower cs) = [] then ''.''
               else replicate k CHR ''/'' @ sep_join ''/'' (map lower cs))"
    unfolding normpath_def Let_def k' cs'
    using False by (simp add: lower_eq_Nil)
  have sl: "lower (replicate k CHR ''/'') = replicate k CHR ''/''"
    using lower_slashes[of "replicate k CHR ''/''" k] by simp
  have dot: "lower ''.'' = ''.''" by (simp add: lower_eq_dot)
  show ?thesis
    unfolding np nl sep_join_lower
    using sl dot by (simp add: lower_append lower_eq_Nil)
qed

subsection \<open>The target tree\<close>

lemma abspath_normal:
  assumes "startswith cwd ''/''"
  shows "\<exists>k cs. (k = 1 \<or> k = 2) \<and> list_all plain_name cs
            \<and> abspath cwd path = replicate k CHR ''/'' @ sep_join ''/'' cs"
proof -
  have cwd: "cwd \<noteq> []" "hd cwd = CHR ''/''"
    using assms by (simp_all add: startswith_sep)
  have "startswith (if startswith path ''/'' then path else join2 cwd path) ''/''"
  proof (cases "startswith path ''/''")
    case True
    then show ?thesis by simp
  next
    case False
    then have "join2 cwd path = cwd @ path \<or> join2 cwd path = cwd @ ''/'' @ path"
      by (simp add: join2_def)
    then show ?thesis
      using False cwd by (auto simp: startswith_sep)
  qed
  then show ?thesis
    unfolding abspath_def by (rule normpath_absolute)
qed

lemma startswith_append: "startswith (a @ b) a"
  by (simp add: startswith_def)

lemma below_target_is_prefixed:
  assumes "k = 1 \<or> k = 2" "list_all plain_name cs" "list_all plain_name names"
    and "target = replicate k CHR ''/'' @ sep_join ''/'' cs"
    and "lower directory = lower (join target names)"
  shows "startswith (lower (normpath directory)) (lower (normpath target))"
proof -
  have all: "list_all plain_name (cs @ names)" using assms(2,3) by simp
  have t: "normpath target = target"
    unfolding assms(4) by (rule normpath_normal[OF assms(1,2)])
  have j: "join target names = replicate k CHR ''/'' @ sep_join ''/'' (cs @ names)"
    unfolding assms(4) by (rule join_normal[OF assms(1,2,3)])
  have nj: "normpath (join target names) = join target names"
    unfolding j by (rule normpath_normal[OF assms(1) all])
  have "lower (normpath directory) = normpath (lower directory)"
    by (rule lower_normpath)
  also have "\<dots> = normpath (lower (join target names))"
    unfolding assms(5) ..
  also have "\<dots> = lower (normpath (join target names))"
    by (rule lower_normpath[symmetric])
  finally have d: "lower (normpath directory) = lower (join target names)"
    unfolding nj .
  obtain rest where "sep_join ''/'' (cs @ names) = sep_join ''/'' cs @ rest"
    using sep_join_prefix by blast
  then have "join target names = target @ rest"
    using j unfolding assms(4) by simp
  then have "lower (join target names) = lower target @ lower rest"
    by (simp add: lower_append)
  then show ?thesis
    unfolding d t by (simp add: startswith_append)
qed

text \<open>
  Claim C9. The driver's target is \<^verbatim>\<open>os.path.abspath(target_dir)\<close>. A directory that is
  this target, or the target followed by any names of directory entries, written in any
  letter case, is not to be processed; the first pass only counts it as skipped and the
  second pass leaves the state as it is, whatever files the directory holds. Nothing in
  this depends on the run, so it holds for a second run as for the first.
\<close>

theorem target_tree_is_excluded:
  assumes "startswith cwd ''/''"
    and "target = abspath cwd target_dir"
    and "list_all plain_name names"
    and "lower directory = lower (join target names)"
  shows
   "\<not> should_process_directory directory target
    \<and> pass1_directory sys target st (directory, files)
        = st\<lparr>counters := (counters st)\<lparr>skipped_directories :=
                                            skipped_directories (counters st) + 1\<rparr>\<rparr>
    \<and> pass2_directory sys target st (directory, files) = st"
proof -
  obtain k cs where kc: "k = 1 \<or> k = 2" "list_all plain_name cs"
    "target = replicate k CHR ''/'' @ sep_join ''/'' cs"
    using abspath_normal[OF assms(1), of target_dir] assms(2) by auto
  have "startswith (lower (normpath directory)) (lower (normpath target))"
    by (rule below_target_is_prefixed[OF kc(1,2) assms(3) kc(3) assms(4)])
  then have no: "\<not> should_process_directory directory target"
    by (simp add: should_process_directory_def)
  then show ?thesis
    by (simp add: pass1_directory_def pass2_directory_def)
qed

lemma abspath_example: "abspath ''/home/u'' ''___organized_media'' = ''/home/u/___organized_media''"
  by (simp add: abspath_def normpath_def join2_def startswith_def endswith_def)

lemma below_example:
  "lower ''/home/u/___Organized_Media/2021/2021-01-01''
     = lower (join ''/home/u/___organized_media'' [''2021'', ''2021-01-01''])"
  by (simp add: string_defs)

theorem target_tree_is_excluded_witness:
  "\<not> should_process_directory ''/home/u/___Organized_Media/2021/2021-01-01''
        ''/home/u/___organized_media''
   \<and> pass2_directory example_os ''/home/u/___organized_media''
        (example_state [''/home/u/___Organized_Media/2021/2021-01-01/IMG_001.jpg''])
        (''/home/u/___Organized_Media/2021/2021-01-01'', [''IMG_001.jpg''])
       = example_state [''/home/u/___Organized_Media/2021/2021-01-01/IMG_001.jpg'']"
  using target_tree_is_excluded[where cwd = "''/home/u''" and target_dir = "''___organized_media''"
      and target = "''/home/u/___organized_media''" and names = "[''2021'', ''2021-01-01'']"
      and directory = "''/home/u/___Organized_Media/2021/2021-01-01''" and sys = example_os
      and st = "example_state [''/home/u/___Organized_Media/2021/2021-01-01/IMG_001.jpg'']"
      and files = "[''IMG_001.jpg'']", OF _ abspath_example[symmetric] _ below_example]
  by (simp add: startswith_def plain_name_def)

text \<open>
  The test is a prefix test on strings, so it also excludes a directory beside the target
  whose name merely starts with the target's name.
\<close>

lemma sibling_with_target_prefix_is_excluded:
  "\<not> should_process_directory ''/home/u/___organized_media_old'' ''/home/u/___organized_media''"
  by (simp add: should_process_directory_def normpath_def startswith_def lower_def
      lower_char_def ascii_uppercase_def ascii_lowercase_def)

end
